(* ===== verification/Prelude.thy ===== *)
theory Prelude
  imports Complex_Main "HOL-Library.Stream" "HOL-Library.Sublist" "HOL-Library.Multiset"
begin

text \<open>
  Shared vocabulary of the development: the JavaScript primitives the Culturis sources
  rely on (the remainder operator, \<open>String.prototype.includes\<close>, \<open>toLowerCase\<close>,
  \<open>Array.prototype.join\<close> and \<open>splice\<close>), the random source behind \<open>Math.random\<close>,
  and the generic lemmas on lists, integers and streams that the component theories share.
  Numbers of the sources are JavaScript doubles; the model reads them as exact reals
  (\<open>real\<close>) and whole minutes as \<open>int\<close>.
\<close>

named_theorems js_simps \<open>evaluation rules of the modelled JavaScript primitives\<close>
named_theorems eval_simps \<open>rules that let simp compute concrete model values\<close>

subsection \<open>Random numbers\<close>

text \<open>
  Every call of \<open>Math.random()\<close> draws the head of an infinite stream of reals and
  continues with its tail; a well-behaved source only yields values in \<open>[0, 1)\<close>.
\<close>

type_synonym rng = "real stream"

definition random_draw :: "rng \<Rightarrow> real \<times> rng" where
  "random_draw rs = (shd rs, stl rs)"

definition rng_ok :: "rng \<Rightarrow> bool" where
  "rng_ok rs \<longleftrightarrow> (\<forall>x \<in> sset rs. 0 \<le> x \<and> x < 1)"

subsection \<open>Exceptions\<close>

text \<open>
  The only exception the modelled code can raise is the \<open>TypeError\<close> of reading a
  property of \<open>undefined\<close>. A computation that may throw returns \<open>js_error + 'a\<close>.
\<close>

datatype js_error = TypeError

text \<open>\<open>xs.map(f)\<close> for a callback that may throw: the first exception propagates.\<close>

fun js_map :: "('a \<Rightarrow> js_error + 'b) \<Rightarrow> 'a list \<Rightarrow> js_error + 'b list" where
  "js_map f [] = Inr []"
| "js_map f (x # xs) =
     (case f x of
        Inl e \<Rightarrow> Inl e
      | Inr y \<Rightarrow> (case js_map f xs of Inl e \<Rightarrow> Inl e | Inr ys \<Rightarrow> Inr (y # ys)))"

subsection \<open>Numbers\<close>

text \<open>JavaScript's \<open>%\<close> keeps the sign of the dividend (truncating remainder).\<close>

definition js_rem :: "int \<Rightarrow> int \<Rightarrow> int" where
  "js_rem a b = sgn a * (\<bar>a\<bar> mod \<bar>b\<bar>)"

text \<open>\<open>Math.atan2(y, x)\<close> on finite arguments.\<close>

definition js_atan2 :: "real \<Rightarrow> real \<Rightarrow> real" where
  "js_atan2 y x =
     (if 0 < x then arctan (y / x)
      else if x < 0 then (if 0 \<le> y then arctan (y / x) + pi else arctan (y / x) - pi)
      else if 0 < y then pi / 2 else if y < 0 then - (pi / 2) else 0)"

subsection \<open>Strings and arrays\<close>

text \<open>The decimal digits of a natural number, as a template literal prints it.\<close>

fun nat_str :: "nat \<Rightarrow> string" where
  "nat_str n = (if n < 10 then [char_of (48 + n)] else nat_str (n div 10) @ [char_of (48 + n mod 10)])"

declare nat_str.simps [simp del]

text \<open>\<open>s.includes(t)\<close>: \<open>t\<close> occurs in \<open>s\<close> as a contiguous substring.\<close>

primrec js_includes :: "string \<Rightarrow> string \<Rightarrow> bool" where
  "js_includes [] t = (t = [])"
| "js_includes (c # s) t = (prefix t (c # s) \<or> js_includes s t)"

text \<open>\<open>toLowerCase\<close> on the ASCII letters (the only ones the sources compare).\<close>

definition js_lower_char :: "char \<Rightarrow> char" where
  "js_lower_char c = (let n = of_char c in if 65 \<le> n \<and> n \<le> (90::nat) then char_of (n + 32) else c)"

definition js_lower :: "string \<Rightarrow> string" where
  "js_lower s = map js_lower_char s"

text \<open>\<open>xs.join(sep)\<close>.\<close>

fun js_join :: "string \<Rightarrow> string list \<Rightarrow> string" where
  "js_join sep [] = []"
| "js_join sep [x] = x"
| "js_join sep (x # y # xs) = x @ sep @ js_join sep (y # xs)"

text \<open>\<open>xs[i]\<close>: \<open>undefined\<close> (\<open>None\<close>) past the end.\<close>

definition js_at :: "'a list \<Rightarrow> nat \<Rightarrow> 'a option" where
  "js_at xs i = (if i < length xs then Some (xs ! i) else None)"

text \<open>\<open>xs.find(p)\<close> for a predicate that may throw: the first element it accepts.\<close>

fun js_find :: "('a \<Rightarrow> js_error + bool) \<Rightarrow> 'a list \<Rightarrow> js_error + 'a option" where
  "js_find p [] = Inr None"
| "js_find p (x # xs) = (case p x of Inl e \<Rightarrow> Inl e | Inr True \<Rightarrow> Inr (Some x) | Inr False \<Rightarrow> js_find p xs)"

text \<open>\<open>s.trim()\<close> on ASCII white space.\<close>

definition js_space :: "char \<Rightarrow> bool" where
  "js_space c \<longleftrightarrow> c \<in> set [CHR '' '', CHR 0x09, CHR 0x0A, CHR 0x0B, CHR 0x0C, CHR 0x0D]"

definition js_trim :: "string \<Rightarrow> string" where
  "js_trim s = rev (dropWhile js_space (rev (dropWhile js_space s)))"

text \<open>\<open>xs.splice(i, 1)\<close>: remove the element at index \<open>i\<close> (nothing when out of range).\<close>

definition splice1 :: "nat \<Rightarrow> 'a list \<Rightarrow> 'a list" where
  "splice1 i xs = take i xs @ drop (Suc i) xs"

text \<open>\<open>s.replace(/\s+/g, '_')\<close> on ASCII white space: each run of it becomes one underscore.\<close>

function js_ws_underscore :: "string \<Rightarrow> string" where
  "js_ws_underscore [] = []"
| "js_ws_underscore (c # cs) =
     (if js_space c then CHR ''_'' # js_ws_underscore (dropWhile js_space cs)
      else c # js_ws_underscore cs)"
  by pat_completeness auto
termination
  by (relation "measure length") (auto simp: le_imp_less_Suc length_dropWhile_le)

subsection \<open>Network answers\<close>

text \<open>
  What a \<open>fetch\<close> call settles with: a rejection (network failure, timeout, abort),
  a response whose \<open>ok\<close> is false, or an ok response with its parsed body.
\<close>

datatype 'a response = FetchRejected | RespNotOk | RespOk 'a

subsection \<open>Lemmas on the primitives\<close>

lemma js_rem_nonneg [js_simps]:
  assumes "0 \<le> a" "0 < b"
  shows "js_rem a b = a mod b"
  using assms by (cases "a = 0") (simp_all add: js_rem_def)

lemma js_error_eq: "(e::js_error) = TypeError"
  by (cases e) simp

lemma js_map_Inr_iff: "js_map f xs = Inr ys \<longleftrightarrow> (\<forall>x \<in> set xs. \<not> isl (f x)) \<and> ys = map (projr \<circ> f) xs"
proof (induction xs arbitrary: ys)
  case Nil
  then show ?case by auto
next
  case (Cons x xs)
  then show ?case
    by (cases "f x"; cases "js_map f xs") auto
qed

lemma js_map_isl: "isl (js_map f xs) \<longleftrightarrow> (\<exists>x \<in> set xs. isl (f x))"
proof (induction xs)
  case Nil
  then show ?case by simp
next
  case (Cons x xs)
  then show ?case
    by (cases "f x"; cases "js_map f xs") auto
qed

lemma js_includes_sublist: "js_includes s t \<longleftrightarrow> sublist t s"
  by (induction s) (simp_all add: sublist_Cons_right)

lemma js_includes_Nil [simp]: "js_includes s []"
  by (simp add: js_includes_sublist)

lemma js_includes_self [simp]: "js_includes s s"
  by (simp add: js_includes_sublist)

lemma length_js_lower [simp]: "length (js_lower s) = length s"
  by (simp add: js_lower_def)

lemma length_splice1 [simp]: "i < length xs \<Longrightarrow> length (splice1 i xs) = length xs - 1"
  by (simp add: splice1_def)

lemma mset_splice1:
  "i < length xs \<Longrightarrow> mset xs = add_mset (xs ! i) (mset (splice1 i xs))"
proof -
  assume i: "i < length xs"
  then have "xs = take i xs @ xs ! i # drop (Suc i) xs"
    by (simp add: id_take_nth_drop)
  then have "mset xs = mset (take i xs @ xs ! i # drop (Suc i) xs)"
    by (rule arg_cong)
  then show ?thesis by (simp add: splice1_def)
qed

lemma set_splice1_subset: "set (splice1 i xs) \<subseteq> set xs"
  by (auto simp: splice1_def dest: in_set_takeD in_set_dropD)

lemma random_draw_ok:
  assumes "rng_ok rs"
  shows "0 \<le> fst (random_draw rs) \<and> fst (random_draw rs) < 1 \<and> rng_ok (snd (random_draw rs))"
  using assms by (auto simp: rng_ok_def random_draw_def shd_sset stl_sset)

lemma rng_ok_sconst [simp]: "rng_ok (sconst x) \<longleftrightarrow> 0 \<le> x \<and> x < 1"
  by (simp add: rng_ok_def)

lemma sort_key_map: "sort_key f (map g xs) = map g (sort_key (f \<circ> g) xs)"
proof -
  have ins: "insort_key f (g x) (map g ys) = map g (insort_key (f \<circ> g) x ys)" for x ys
    by (induction ys) (simp_all add: comp_def)
  show ?thesis
    by (induction xs) (simp_all add: ins comp_def)
qed

lemma sorted_wrt_take_drop:
  "sorted_wrt R xs \<Longrightarrow> x \<in> set (take n xs) \<Longrightarrow> y \<in> set (drop n xs) \<Longrightarrow> R x y"
  by (metis append_take_drop_id sorted_wrt_append)

lemma js_atan2_nonneg_range:
  assumes "0 \<le> y" and "0 \<le> x"
  shows "0 \<le> js_atan2 y x \<and> js_atan2 y x \<le> pi / 2"
proof (cases "0 < x")
  case True
  have "0 \<le> arctan (y / x)"
    using assms True by (simp add: zero_le_arctan_iff)
  moreover have "arctan (y / x) < pi / 2"
    by (rule arctan_ubound)
  ultimately show ?thesis using True by (simp add: js_atan2_def)
next
  case False
  with assms show ?thesis by (simp add: js_atan2_def)
qed

lemma js_atan2_zero [simp]: "js_atan2 0 x = (if x < 0 then pi else 0)"
  by (simp add: js_atan2_def)

lemma js_at_mem: "js_at xs i = Some x \<Longrightarrow> x \<in> set xs"
  by (auto simp: js_at_def split: if_splits)

lemma js_find_mem: "js_find p xs = Inr (Some x) \<Longrightarrow> x \<in> set xs"
  by (induction xs) (auto split: sum.splits bool.splits)

lemma hd_filter_first:
  assumes "filter P xs \<noteq> []"
  shows "\<exists>i < length xs. xs ! i = hd (filter P xs) \<and> P (xs ! i) \<and> (\<forall>j < i. \<not> P (xs ! j))"
  using assms
proof (induction xs)
  case Nil
  then show ?case by simp
next
  case (Cons x xs)
  show ?case
  proof (cases "P x")
    case True
    then show ?thesis by (intro exI [of _ 0]) simp
  next
    case False
    with Cons obtain i where "i < length xs" "xs ! i = hd (filter P xs)" "P (xs ! i)" "\<forall>j < i. \<not> P (xs ! j)"
      by auto
    with False show ?thesis
      by (intro exI [of _ "Suc i"]) (auto simp: less_Suc_eq_0_disj)
  qed
qed

lemmas round_eval [eval_simps] = round_def floor_eq_iff

text \<open>Evaluation of \<open>nat_str\<close> at a numeral (for concrete scenarios only: unbounded otherwise).\<close>

lemmas nat_str_eval [eval_simps] = nat_str.simps char_of_def bit_0

lemma nat_str_last: "nat_str n \<noteq> [] \<and> last (nat_str n) = char_of (48 + n mod 10)"
proof -
  have e: "nat_str n = (if n < 10 then [char_of (48 + n)] else nat_str (n div 10) @ [char_of (48 + n mod 10)])"
    by (rule nat_str.simps)
  show ?thesis by (simp add: e)
qed

lemma char_of_digit_inj:
  assumes "a < 10" "b < 10" "char_of (48 + a :: nat) = (char_of (48 + b :: nat) :: char)"
  shows "a = b"
proof -
  have "of_char (char_of (48 + a :: nat) :: char) = (48 + a :: nat)" "of_char (char_of (48 + b :: nat) :: char) = (48 + b :: nat)"
    using assms(1,2) by (simp_all add: of_char_of)
  with assms(3) show ?thesis by simp
qed

lemma underscore_not_space [simp]: "\<not> js_space CHR ''_''"
  by (simp add: js_space_def)

lemma js_ws_underscore_no_space: "c \<in> set (js_ws_underscore s) \<Longrightarrow> \<not> js_space c"
proof (induction s rule: js_ws_underscore.induct)
  case 1
  then show ?case by simp
next
  case (2 c' cs)
  then show ?case by (cases "js_space c'") auto
qed

text \<open>Lower-casing leaves white space alone, so trimming commutes with it.\<close>

lemma js_space_code: "js_space c \<Longrightarrow> of_char c \<le> (32::nat)"
  by (auto simp: js_space_def)

lemma js_space_lower_char [simp]: "js_space (js_lower_char c) \<longleftrightarrow> js_space c"
proof (cases "65 \<le> (of_char c :: nat) \<and> (of_char c :: nat) \<le> 90")
  case True
  then have "\<not> js_space c" "\<not> js_space (char_of (of_char c + 32 :: nat))"
    using js_space_code[of c] js_space_code[of "char_of (of_char c + 32 :: nat)"] by auto
  then show ?thesis using True by (simp add: js_lower_char_def)
qed (auto simp: js_lower_char_def Let_def)

lemma js_trim_lower: "js_trim (js_lower s) = js_lower (js_trim s)"
proof -
  have d: "dropWhile js_space (map js_lower_char xs) = map js_lower_char (dropWhile js_space xs)" for xs
    by (induction xs) auto
  show ?thesis by (simp add: js_trim_def js_lower_def d rev_map)
qed

lemma js_trim_lower_Nil: "js_trim (js_lower s) = [] \<longleftrightarrow> js_trim s = []"
  by (simp only: js_trim_lower) (simp add: js_lower_def)

lemma snd_mem_image: "(k, c) \<in> set xs \<Longrightarrow> c \<in> snd ` set xs"
  by force

text \<open>A property kept by every step is kept by a run.\<close>

lemma foldl_invariant: "(\<And>s x. P s \<Longrightarrow> P (f s x)) \<Longrightarrow> P s \<Longrightarrow> P (foldl f s xs)"
  by (induction xs arbitrary: s) auto

end
