(* ===== verification/Venues.thy ===== *)
theory Venues
  imports Prelude
begin

text \<open>
  The data the route planner works on (\<open>src/culturis-studio/src/components/RoutePlanner.js\<close>):
  the venue objects handed to the planner by \<open>Simple2DMapView.js\<close>, the three route
  preferences of the planner's form, and the cheap planar distance of
  \<open>calculateDistance\<close> that the order optimiser ranks venues by.
  A JavaScript object becomes a record; a property that some producers leave out
  (\<open>type\<close>, \<open>rating\<close>, \<open>coordinates\<close>, \<open>qloo_data\<close> and its fields) becomes an
  \<open>option\<close>. Field names follow the source, prefixed where the source's name is an
  Isabelle keyword or constant (\<open>vid\<close>, \<open>vname\<close>, \<open>vtype\<close>, \<open>qkeywords\<close>). Venue ids are the numbers the map view assigns (\<open>id: i + 1\<close>).
\<close>

type_synonym coord = "real \<times> real"

datatype duration_opt = DQuick | HalfDay | FullDay

datatype pace_opt = PQuick | Relaxed | Thorough

datatype focus_opt = Diverse | Food | Arts | Culture

record route_prefs =
  duration :: duration_opt
  pace :: pace_opt
  focus :: focus_opt

record qloo_data =
  popularity :: "real option"
  qkeywords :: "string list option"

record venue =
  vid :: nat
  vname :: string
  vtype :: "string option"
  affinity :: real
  rating :: "real option"
  coordinates :: "coord option"
  qloo_data :: "qloo_data option"

text \<open>
  A taste (a Qloo tag) as the components pass it around: every producer gives it an
  \<open>id\<close> and a \<open>name\<close> (\<open>tag\<close>); the chat panel's keyword table adds a \<open>color\<close>
  (\<open>taste\<close>), the taste picker a \<open>type\<close> and, depending on where it came from, a
  \<open>category\<close>, an \<open>emoji\<close> and a search \<open>score\<close> (\<open>seed\<close>, in \<open>Tastes\<close>).
\<close>

record tag =
  tid :: string
  tname :: string

record taste = tag +
  tcolor :: string

text \<open>The form's initial preferences (\<open>useState\<close> in \<open>RoutePlanner\<close>).\<close>

definition default_prefs :: route_prefs where
  "default_prefs = \<lparr>duration = HalfDay, pace = Relaxed, focus = Diverse\<rparr>"

text \<open>
  A venue as the map view's fallback generator builds it (\<open>generateFallbackVenues\<close>):
  typed, placed, no Qloo enrichment. Used to state concrete scenarios.
\<close>

definition sample_venue :: "nat \<Rightarrow> string \<Rightarrow> real \<Rightarrow> coord \<Rightarrow> venue" where
  "sample_venue i t a c =
     \<lparr>vid = i, vname = ''Venue'', vtype = Some t, affinity = a, rating = None,
      coordinates = Some c, qloo_data = None\<rparr>"

text \<open>
  A pool of five fallback venues with affinities 90, 80, 70, 60 and 50, in that order,
  and a venue whose producer left out its type.
\<close>

definition sample_pool :: "venue list" where
  "sample_pool =
     [sample_venue 1 ''Museum'' 90 (0, 0), sample_venue 2 ''Cafe'' 80 (0, 1),
      sample_venue 3 ''Park'' 70 (1, 0), sample_venue 4 ''Bar'' 60 (1, 1),
      sample_venue 5 ''Shop'' 50 (2, 0)]"

definition untyped_venue :: venue where
  "untyped_venue = (sample_venue 6 ''Cafe'' 75 (0, 2))\<lparr>vtype := None\<rparr>"

subsection \<open>Planar distance\<close>

text \<open>Euclidean distance over raw degree deltas, as \<open>Math.sqrt(dLat^2 + dLng^2)\<close>.\<close>

definition planar_dist :: "coord \<Rightarrow> coord \<Rightarrow> real" where
  "planar_dist p q = sqrt ((fst q - fst p)\<^sup>2 + (snd q - snd p)\<^sup>2)"

text \<open>The squared distance: the same ranking without the square root.\<close>

definition sq_dist :: "coord \<Rightarrow> coord \<Rightarrow> real" where
  "sq_dist p q = (fst q - fst p)\<^sup>2 + (snd q - snd p)\<^sup>2"

text \<open>
  \<open>calculateDistance(venue1, venue2)\<close> of \<open>RoutePlanner\<close>: the planar distance of the
  two coordinates, or a fresh \<open>Math.random()\<close> when either venue has none.
\<close>

definition calculateDistance :: "venue \<Rightarrow> venue \<Rightarrow> rng \<Rightarrow> real \<times> rng" where
  "calculateDistance v1 v2 rs =
     (case (coordinates v1, coordinates v2) of
        (Some p, Some q) \<Rightarrow> (planar_dist p q, rs)
      | _ \<Rightarrow> random_draw rs)"

definition has_coords :: "venue \<Rightarrow> bool" where
  "has_coords v \<longleftrightarrow> coordinates v \<noteq> None"

subsection \<open>Lemmas\<close>

lemma planar_dist_sq: "planar_dist p q = sqrt (sq_dist p q)"
  by (simp add: planar_dist_def sq_dist_def)

lemma sq_dist_nonneg [simp]: "0 \<le> sq_dist p q"
  by (simp add: sq_dist_def)

lemma planar_dist_nonneg [simp]: "0 \<le> planar_dist p q"
  by (simp add: planar_dist_def)

lemma planar_dist_less_iff: "planar_dist p q < planar_dist p r \<longleftrightarrow> sq_dist p q < sq_dist p r"
  by (simp add: planar_dist_sq)

lemma planar_dist_self [simp]: "planar_dist p p = 0"
  by (simp add: planar_dist_def)

lemma planar_dist_commute: "planar_dist p q = planar_dist q p"
  by (simp add: planar_dist_def power2_commute)

lemma calculateDistance_coords [simp]:
  "coordinates v1 = Some p \<Longrightarrow> coordinates v2 = Some q \<Longrightarrow>
   calculateDistance v1 v2 rs = (planar_dist p q, rs)"
  by (simp add: calculateDistance_def)

lemma calculateDistance_missing:
  "coordinates v1 = None \<or> coordinates v2 = None \<Longrightarrow> calculateDistance v1 v2 rs = random_draw rs"
  by (auto simp: calculateDistance_def split: option.splits)

lemma calculateDistance_ok:
  assumes "rng_ok rs"
  shows "0 \<le> fst (calculateDistance v1 v2 rs) \<and> rng_ok (snd (calculateDistance v1 v2 rs))"
  using assms random_draw_ok [OF assms]
  by (auto simp: calculateDistance_def split: option.splits)

end
