(* ===== verification/Selection.thy ===== *)
theory Selection
  imports Venues
begin

text \<open>
  Venue scoring and selection, the first half of \<open>generateRoute\<close> in
  \<open>src/culturis-studio/src/components/RoutePlanner.js\<close>: the focus boost of
  \<open>prioritizeVenuesByFocus\<close>, \<open>calculateWeightedAffinity\<close>, the duration-adjusted
  venue count, the stable descending sort by weighted affinity and the \<open>slice\<close> of the
  first venues. A focus boost reads \<open>venue.type\<close>, so a venue without a type makes
  the whole selection throw; the model returns that \<open>TypeError\<close>.
\<close>

subsection \<open>Focus boost\<close>

definition focusWeights :: "focus_opt \<Rightarrow> string list option" where
  "focusWeights f =
     (case f of
        Food \<Rightarrow> Some [''Restaurant'', ''Cafe'', ''Bar'', ''Market'']
      | Arts \<Rightarrow> Some [''Museum'', ''Art Museum'', ''Gallery'', ''Theater'', ''Art Gallery'']
      | Culture \<Rightarrow> Some [''Historical Site'', ''Cultural Center'', ''Local Market'',
                         ''Traditional'', ''Heritage'']
      | Diverse \<Rightarrow> None)"

definition priorityTypes :: "focus_opt \<Rightarrow> string list" where
  "priorityTypes f = (case focusWeights f of Some ts \<Rightarrow> ts | None \<Rightarrow> [])"

text \<open>
  \<open>priorityTypes.some(type => venue.type.includes(type))\<close>: the callback runs on the
  first entry at once, so an untyped venue throws unless the list is empty.
\<close>

definition type_priority :: "string list \<Rightarrow> venue \<Rightarrow> js_error + bool" where
  "type_priority pts v =
     (if pts = [] then Inr False
      else case vtype v of
             None \<Rightarrow> Inl TypeError
           | Some t \<Rightarrow> Inr (list_ex (js_includes t) pts))"

text \<open>The keyword bonus: the joined, lower-cased keyword list searched per focus.\<close>

definition keyword_boost :: "focus_opt \<Rightarrow> venue \<Rightarrow> real" where
  "keyword_boost f v =
     (case qloo_data v of
        None \<Rightarrow> 0
      | Some q \<Rightarrow>
          (case qkeywords q of
             None \<Rightarrow> 0
           | Some ks \<Rightarrow>
               (let kw = js_lower (js_join '' '' ks) in
                if f = Food \<and> (js_includes kw ''food'' \<or> js_includes kw ''dining'' \<or>
                               js_includes kw ''cuisine'') then 10
                else if f = Arts \<and> (js_includes kw ''art'' \<or> js_includes kw ''creative'' \<or>
                                    js_includes kw ''culture'') then 10
                else if f = Culture \<and> (js_includes kw ''local'' \<or> js_includes kw ''traditional'' \<or>
                                       js_includes kw ''heritage'') then 10
                else 0)))"

text \<open>One venue of \<open>prioritizeVenuesByFocus\<close>: the venue with its \<open>focusPriorityBoost\<close>.\<close>

definition venue_priority :: "focus_opt \<Rightarrow> venue \<Rightarrow> js_error + (venue \<times> real option)" where
  "venue_priority f v =
     (case type_priority (priorityTypes f) v of
        Inl e \<Rightarrow> Inl e
      | Inr m \<Rightarrow> Inr (v, Some ((if m then 20 else 0) + keyword_boost f v)))"

definition prioritizeVenuesByFocus :: "venue list \<Rightarrow> focus_opt \<Rightarrow> js_error + (venue \<times> real option) list" where
  "prioritizeVenuesByFocus vs f = js_map (venue_priority f) vs"

text \<open>\<open>venue.affinity + (venue.focusPriorityBoost || 0)\<close>; the focus argument is unused.\<close>

definition calculateWeightedAffinity :: "venue \<times> real option \<Rightarrow> focus_opt \<Rightarrow> real" where
  "calculateWeightedAffinity vb f = affinity (fst vb) + (case snd vb of None \<Rightarrow> 0 | Some b \<Rightarrow> b)"

subsection \<open>Count, ranking and selection\<close>

definition adjustedVenueCount :: "duration_opt \<Rightarrow> nat \<Rightarrow> nat \<Rightarrow> nat" where
  "adjustedVenueCount d venueCount poolSize =
     (case d of
        DQuick \<Rightarrow> min venueCount 3
      | FullDay \<Rightarrow> min (venueCount + 2) (min poolSize 7)
      | HalfDay \<Rightarrow> venueCount)"

text \<open>
  \<open>Array.prototype.sort\<close> with comparator \<open>b.weightedAffinity - a.weightedAffinity\<close>.
  The ECMAScript sort is stable, and a stable sort by a total preorder has one result,
  so the library's insertion sort \<open>sort_key\<close> on the negated weight is that result
  (\<open>sortByWeight_unique\<close> below).
\<close>

definition sortByWeight :: "('a \<times> real) list \<Rightarrow> ('a \<times> real) list" where
  "sortByWeight xs = sort_key (\<lambda>p. - snd p) xs"

text \<open>
  \<open>filteredVenues\<close> and \<open>sortedVenues\<close> of \<open>generateRoute\<close>: the pool with its
  boosts (none for the diverse focus), weighted and sorted.
\<close>

definition rankVenues :: "venue list \<Rightarrow> focus_opt \<Rightarrow> js_error + (venue \<times> real) list" where
  "rankVenues venues f =
     (case (if f \<noteq> Diverse then prioritizeVenuesByFocus venues f
            else Inr (map (\<lambda>v. (v, None)) venues)) of
        Inl e \<Rightarrow> Inl e
      | Inr filtered \<Rightarrow>
          Inr (sortByWeight (map (\<lambda>vb. (fst vb, calculateWeightedAffinity vb f)) filtered)))"

text \<open>\<open>selectedVenues = sortedVenues.slice(0, adjustedVenueCount)\<close>.\<close>

definition selectVenues :: "venue list \<Rightarrow> nat \<Rightarrow> route_prefs \<Rightarrow> js_error + venue list" where
  "selectVenues venues venueCount prefs =
     (case rankVenues venues (focus prefs) of
        Inl e \<Rightarrow> Inl e
      | Inr sortedVenues \<Rightarrow>
          Inr (map fst (take (adjustedVenueCount (duration prefs) venueCount (length venues)) sortedVenues)))"

subsection \<open>Abstract specification of the weight\<close>

text \<open>
  What the planner promises: the weighted affinity is the venue's affinity plus 20 when
  its type names one of the focus's types and 10 when its keywords name one of the
  focus's themes; nothing for the diverse focus.
\<close>

definition spec_weight :: "focus_opt \<Rightarrow> venue \<Rightarrow> real" where
  "spec_weight f v =
     affinity v +
     (if f = Diverse then 0
      else (if (\<exists>t. vtype v = Some t \<and> list_ex (js_includes t) (priorityTypes f)) then 20 else 0)
           + keyword_boost f v)"

subsection \<open>The sort\<close>

lemma sortByWeight_map:
  fixes w :: "'a \<Rightarrow> real"
  shows "sortByWeight (map (\<lambda>v. (v, w v)) vs) = map (\<lambda>v. (v, w v)) (sort_key (\<lambda>v. - w v) vs)"
  by (simp add: sortByWeight_def sort_key_map comp_def)

lemma sorted_sort_desc:
  fixes w :: "'a \<Rightarrow> real"
  shows "sorted_wrt (\<lambda>x y. w y \<le> w x) (sort_key (\<lambda>v. - w v) vs)"
proof -
  have "sorted (map (\<lambda>v. - w v) (sort_key (\<lambda>v. - w v) vs))"
    by (rule sorted_sort_key)
  then show ?thesis by (simp add: sorted_map neg_le_iff_le)
qed

lemma sort_desc_stable:
  fixes w :: "'a \<Rightarrow> real"
  shows "filter (\<lambda>v. w v = k) (sort_key (\<lambda>v. - w v) vs) = filter (\<lambda>v. w v = k) vs"
proof -
  have eq: "(\<lambda>v. - w v = - k) = (\<lambda>v. w v = k)"
    by (simp add: fun_eq_iff)
  show ?thesis
    using sort_key_stable [of "\<lambda>v. - w v" "- k" vs] by (simp only: eq)
qed

subsection \<open>Refinement of the weight\<close>

lemma priorityTypes_nonempty: "f \<noteq> Diverse \<Longrightarrow> priorityTypes f \<noteq> []"
  by (cases f) (simp_all add: priorityTypes_def focusWeights_def)

lemma venue_priority_isl: "f \<noteq> Diverse \<Longrightarrow> isl (venue_priority f v) \<longleftrightarrow> vtype v = None"
  by (auto simp: venue_priority_def type_priority_def priorityTypes_nonempty
           split: option.splits sum.splits)

lemma venue_priority_weight:
  assumes "f \<noteq> Diverse" "vtype v \<noteq> None"
  shows "(\<lambda>vb. (fst vb, calculateWeightedAffinity vb f)) (projr (venue_priority f v)) = (v, spec_weight f v)"
  using assms
  by (auto simp: venue_priority_def type_priority_def priorityTypes_nonempty spec_weight_def
                 calculateWeightedAffinity_def)

lemma rankVenues_spec:
  "rankVenues venues f =
     (if f \<noteq> Diverse \<and> (\<exists>v \<in> set venues. vtype v = None) then Inl TypeError
      else Inr (map (\<lambda>v. (v, spec_weight f v)) (sort_key (\<lambda>v. - spec_weight f v) venues)))"
proof (cases "f = Diverse")
  case True
  then show ?thesis
    by (simp add: rankVenues_def spec_weight_def calculateWeightedAffinity_def comp_def
                  sortByWeight_map [symmetric])
next
  case nd: False
  show ?thesis
  proof (cases "\<exists>v \<in> set venues. vtype v = None")
    case True
    with nd have "isl (prioritizeVenuesByFocus venues f)"
      by (auto simp: prioritizeVenuesByFocus_def js_map_isl venue_priority_isl)
    then obtain e where "prioritizeVenuesByFocus venues f = Inl e"
      by (cases "prioritizeVenuesByFocus venues f") auto
    with nd True show ?thesis
      by (simp add: rankVenues_def js_error_eq [of e])
  next
    case False
    with nd have "\<forall>v \<in> set venues. \<not> isl (venue_priority f v)"
      by (simp add: venue_priority_isl)
    then have pr: "prioritizeVenuesByFocus venues f = Inr (map (projr \<circ> venue_priority f) venues)"
      by (simp add: prioritizeVenuesByFocus_def js_map_Inr_iff)
    have m: "map (\<lambda>vb. (fst vb, calculateWeightedAffinity vb f)) (map (projr \<circ> venue_priority f) venues)
          = map (\<lambda>v. (v, spec_weight f v)) venues"
      using False nd by (simp add: venue_priority_weight)
    have "rankVenues venues f =
          Inr (sortByWeight (map (\<lambda>vb. (fst vb, calculateWeightedAffinity vb f))
                                 (map (projr \<circ> venue_priority f) venues)))"
      using nd by (simp add: rankVenues_def pr del: map_map)
    also have "\<dots> = Inr (map (\<lambda>v. (v, spec_weight f v)) (sort_key (\<lambda>v. - spec_weight f v) venues))"
      by (simp only: m sortByWeight_map)
    finally show ?thesis
      using nd False by simp
  qed
qed

lemma selectVenues_spec:
  "selectVenues venues n prefs =
     (if focus prefs \<noteq> Diverse \<and> (\<exists>v \<in> set venues. vtype v = None) then Inl TypeError
      else Inr (take (adjustedVenueCount (duration prefs) n (length venues))
                  (sort_key (\<lambda>v. - spec_weight (focus prefs) v) venues)))"
  by (simp add: selectVenues_def rankVenues_spec take_map comp_def)

subsection \<open>Properties of the selection\<close>

text \<open>
  The selection throws exactly when a focus other than "diverse" meets a venue
  without a type; every other input yields a selection.
\<close>

theorem selectVenues_throws:
  "isl (selectVenues vs n prefs) \<longleftrightarrow> focus prefs \<noteq> Diverse \<and> (\<exists>v \<in> set vs. vtype v = None)"
  by (simp add: selectVenues_spec)

theorem selectVenues_throws_witness:
  "isl (selectVenues (untyped_venue # sample_pool) 3 (default_prefs\<lparr>focus := Food\<rparr>))
   \<and> Food \<noteq> Diverse \<and> (\<exists>v \<in> set (untyped_venue # sample_pool). vtype v = None)"
  using selectVenues_throws [of "untyped_venue # sample_pool" 3 "default_prefs\<lparr>focus := Food\<rparr>"]
  by (simp add: default_prefs_def untyped_venue_def)

text \<open>
  A selection has the duration-adjusted number of venues, or the whole pool when the
  pool is smaller.
\<close>

theorem selectVenues_length:
  assumes "selectVenues vs n prefs = Inr sel"
  shows "length sel = min (adjustedVenueCount (duration prefs) n (length vs)) (length vs)"
  using assms by (auto simp: selectVenues_spec split: if_splits)

theorem selectVenues_length_witness:
  "selectVenues sample_pool 3 default_prefs =
     Inr [sample_venue 1 ''Museum'' 90 (0, 0), sample_venue 2 ''Cafe'' 80 (0, 1),
          sample_venue 3 ''Park'' 70 (1, 0)]
   \<and> length [sample_venue 1 ''Museum'' 90 (0, 0), sample_venue 2 ''Cafe'' 80 (0, 1),
             sample_venue 3 ''Park'' 70 (1, 0)] = 3"
proof -
  have sel: "selectVenues sample_pool 3 default_prefs =
     Inr [sample_venue 1 ''Museum'' 90 (0, 0), sample_venue 2 ''Cafe'' 80 (0, 1),
          sample_venue 3 ''Park'' 70 (1, 0)]"
    by (simp add: selectVenues_spec sample_pool_def sample_venue_def default_prefs_def
                  spec_weight_def adjustedVenueCount_def)
  have "length [sample_venue 1 ''Museum'' 90 (0, 0), sample_venue 2 ''Cafe'' 80 (0, 1),
                sample_venue 3 ''Park'' 70 (1, 0)]
        = min (adjustedVenueCount (duration default_prefs) 3 (length sample_pool)) (length sample_pool)"
    by (rule selectVenues_length [OF sel])
  with sel show ?thesis
    by (simp add: adjustedVenueCount_def default_prefs_def sample_pool_def)
qed

text \<open>
  C7: the selection is the top of the pool by weighted affinity: it is sorted in
  descending order of weight and no venue left out weighs more than one selected.
\<close>

theorem selectVenues_top:
  assumes "selectVenues vs n prefs = Inr sel"
  shows "sorted_wrt (\<lambda>x y. spec_weight (focus prefs) y \<le> spec_weight (focus prefs) x) sel
         \<and> (\<exists>rest. mset vs = mset sel + mset rest
                  \<and> (\<forall>x \<in> set sel. \<forall>y \<in> set rest.
                        spec_weight (focus prefs) y \<le> spec_weight (focus prefs) x))"
proof -
  let ?w = "spec_weight (focus prefs)"
  let ?S = "sort_key (\<lambda>v. - ?w v) vs"
  let ?k = "adjustedVenueCount (duration prefs) n (length vs)"
  from assms have sel: "sel = take ?k ?S"
    by (simp add: selectVenues_spec split: if_splits)
  have srt: "sorted_wrt (\<lambda>x y. ?w y \<le> ?w x) ?S"
    by (rule sorted_sort_desc)
  have "mset vs = mset (take ?k ?S) + mset (drop ?k ?S)"
    by (simp flip: mset_append)
  moreover have "\<forall>x \<in> set (take ?k ?S). \<forall>y \<in> set (drop ?k ?S). ?w y \<le> ?w x"
    using sorted_wrt_take_drop [OF srt] by simp
  moreover have "sorted_wrt (\<lambda>x y. ?w y \<le> ?w x) (take ?k ?S)"
    using srt by (rule sorted_wrt_take)
  ultimately show ?thesis
    unfolding sel by blast
qed

theorem selectVenues_top_witness:
  "selectVenues sample_pool 3 default_prefs =
     Inr [sample_venue 1 ''Museum'' 90 (0, 0), sample_venue 2 ''Cafe'' 80 (0, 1),
          sample_venue 3 ''Park'' 70 (1, 0)]
   \<and> sorted_wrt (\<lambda>x y. spec_weight Diverse y \<le> spec_weight Diverse x)
        [sample_venue 1 ''Museum'' 90 (0, 0), sample_venue 2 ''Cafe'' 80 (0, 1),
         sample_venue 3 ''Park'' 70 (1, 0)]"
proof -
  have sel: "selectVenues sample_pool 3 default_prefs =
     Inr [sample_venue 1 ''Museum'' 90 (0, 0), sample_venue 2 ''Cafe'' 80 (0, 1),
          sample_venue 3 ''Park'' 70 (1, 0)]"
    by (simp add: selectVenues_spec sample_pool_def sample_venue_def default_prefs_def
                  spec_weight_def adjustedVenueCount_def)
  from selectVenues_top [OF sel] sel show ?thesis
    by (simp add: default_prefs_def)
qed

text \<open>
  C8: ties are broken by pool order: among the selected venues of one weight, the order
  is the pool's, and they are the first of that weight in the pool.
\<close>

theorem selectVenues_stable:
  assumes "selectVenues vs n prefs = Inr sel"
  shows "prefix (filter (\<lambda>v. spec_weight (focus prefs) v = k) sel)
                (filter (\<lambda>v. spec_weight (focus prefs) v = k) vs)"
proof -
  let ?w = "spec_weight (focus prefs)"
  let ?S = "sort_key (\<lambda>v. - ?w v) vs"
  let ?k = "adjustedVenueCount (duration prefs) n (length vs)"
  from assms have sel: "sel = take ?k ?S"
    by (simp add: selectVenues_spec split: if_splits)
  have "prefix (filter (\<lambda>v. ?w v = k) (take ?k ?S)) (filter (\<lambda>v. ?w v = k) ?S)"
    by (rule filter_mono_prefix) (rule take_is_prefix)
  then show ?thesis
    by (simp add: sel sort_desc_stable)
qed

theorem selectVenues_stable_witness:
  "selectVenues [sample_venue 1 ''Cafe'' 80 (0, 0), sample_venue 2 ''Bar'' 80 (1, 1)] 1 default_prefs
     = Inr [sample_venue 1 ''Cafe'' 80 (0, 0)]
   \<and> prefix (filter (\<lambda>v. spec_weight Diverse v = 80) [sample_venue 1 ''Cafe'' 80 (0, 0)])
            (filter (\<lambda>v. spec_weight Diverse v = 80)
               [sample_venue 1 ''Cafe'' 80 (0, 0), sample_venue 2 ''Bar'' 80 (1, 1)])"
proof -
  have sel: "selectVenues [sample_venue 1 ''Cafe'' 80 (0, 0), sample_venue 2 ''Bar'' 80 (1, 1)] 1
               default_prefs = Inr [sample_venue 1 ''Cafe'' 80 (0, 0)]"
    by (simp add: selectVenues_spec sample_venue_def default_prefs_def spec_weight_def
                  adjustedVenueCount_def)
  from selectVenues_stable [OF sel, of 80] sel show ?thesis
    by (simp add: default_prefs_def)
qed

text \<open>
  The model's sort is the ECMAScript sort: any permutation of the weighted venues
  that is sorted by descending weight and keeps the pool order among equal weights
  (what a stable sort with comparator \<open>b.w - a.w\<close> returns) is \<open>sortByWeight\<close>.
\<close>

theorem sortByWeight_unique:
  fixes xs ys :: "('a \<times> real) list"
  assumes "mset ys = mset xs"
    and "sorted_wrt (\<lambda>a b. snd b \<le> snd a) ys"
    and "\<forall>k. filter (\<lambda>p. snd p = k) ys = filter (\<lambda>p. snd p = k) xs"
  shows "sortByWeight xs = ys"
  unfolding sortByWeight_def
proof (rule properties_for_sort_key)
  show "mset ys = mset xs" by (rule assms(1))
  show "sorted (map (\<lambda>p. - snd p) ys)"
    using assms(2) by (simp add: sorted_map)
  fix k :: "'a \<times> real"
  have eq: "(\<lambda>x. - snd k = - snd x) = (\<lambda>p. snd p = snd k)"
    by (auto simp: fun_eq_iff)
  show "filter (\<lambda>x. - snd k = - snd x) ys = filter (\<lambda>x. - snd k = - snd x) xs"
    using assms(3) by (simp only: eq)
qed

theorem sortByWeight_unique_witness:
  "sortByWeight [(1::nat, 50::real), (2, 70), (3, 50)] = [(2, 70), (1, 50), (3, 50)]"
proof (rule sortByWeight_unique)
  show "mset [(2::nat, 70::real), (1, 50), (3, 50)] = mset [(1, 50), (2, 70), (3, 50)]"
    by simp
  show "sorted_wrt (\<lambda>a b. snd b \<le> snd a) [(2::nat, 70::real), (1, 50), (3, 50)]"
    by simp
  show "\<forall>k. filter (\<lambda>p. snd p = k) [(2::nat, 70::real), (1, 50), (3, 50)]
           = filter (\<lambda>p. snd p = k) [(1, 50), (2, 70), (3, 50)]"
    by auto
qed

end
