(* ===== verification/Optimizer.thy ===== *)
theory Optimizer
  imports Venues
begin

text \<open>
  The route order optimiser, \<open>optimizeVenueOrder\<close> of
  \<open>src/culturis-studio/src/components/RoutePlanner.js\<close>: up to two venues are kept as
  they are; otherwise the first venue starts the route and a \<open>while\<close> loop repeatedly
  moves the remaining venue nearest to the last placed one (first one on a tie, by the
  strict \<open><\<close> of the inner \<open>for\<close> loop) to the end of the route. The inner loop is
  \<open>nearest_scan\<close>, the outer loop \<open>nn_loop\<close>, whose termination rests on the index the
  scan returns being in range: JavaScript's \<open>splice\<close> ignores an index past the end,
  which would leave \<open>remaining\<close> as long as it was. Distances come from
  \<open>calculateDistance\<close>, which draws a random number for a venue without coordinates,
  so the random source is threaded through both loops.
\<close>

subsection \<open>The loops\<close>

text \<open>
  \<open>for (let i = 1; i < remaining.length; i++)\<close>: the state is the best venue so far,
  its distance and its index.
\<close>

fun nearest_scan :: "venue \<Rightarrow> venue list \<Rightarrow> nat \<Rightarrow> venue \<times> real \<times> nat \<Rightarrow> rng
                     \<Rightarrow> (venue \<times> real \<times> nat) \<times> rng" where
  "nearest_scan lastVenue [] i best rs = (best, rs)"
| "nearest_scan lastVenue (v # vs) i (nextVenue, minDistance, nextIndex) rs =
     (case calculateDistance lastVenue v rs of
        (distance, rs') \<Rightarrow>
          if distance < minDistance
          then nearest_scan lastVenue vs (Suc i) (v, distance, i) rs'
          else nearest_scan lastVenue vs (Suc i) (nextVenue, minDistance, nextIndex) rs')"

text \<open>One iteration's choice: start from \<open>remaining[0]\<close>, scan the rest.\<close>

definition pick_nearest :: "venue \<Rightarrow> venue list \<Rightarrow> rng \<Rightarrow> (venue \<times> real \<times> nat) \<times> rng" where
  "pick_nearest lastVenue remaining rs =
     (case calculateDistance lastVenue (remaining ! 0) rs of
        (d0, rs1) \<Rightarrow> nearest_scan lastVenue (drop 1 remaining) 1 (remaining ! 0, d0, 0) rs1)"

text \<open>\<open>while (remaining.length > 0)\<close>: push the choice, splice it out of \<open>remaining\<close>.\<close>

function nn_loop :: "venue list \<Rightarrow> venue list \<Rightarrow> rng \<Rightarrow> venue list \<times> rng" where
  "nn_loop orderedVenues remaining rs =
     (if remaining = [] then (orderedVenues, rs)
      else
        (case pick_nearest (last orderedVenues) remaining rs of
           ((nextVenue, minDistance, nextIndex), rs') \<Rightarrow>
             nn_loop (orderedVenues @ [nextVenue]) (splice1 nextIndex remaining) rs'))"
  by pat_completeness auto

definition optimizeVenueOrder :: "venue list \<Rightarrow> route_prefs \<Rightarrow> rng \<Rightarrow> venue list \<times> rng" where
  "optimizeVenueOrder venues preferences rs =
     (if length venues \<le> 2 then (venues, rs)
      else nn_loop [venues ! 0] (drop 1 venues) rs)"

subsection \<open>Specification of the greedy order\<close>

text \<open>Distance between two placed venues.\<close>

definition vdist :: "venue \<Rightarrow> venue \<Rightarrow> real" where
  "vdist a b = planar_dist (the (coordinates a)) (the (coordinates b))"

text \<open>
  A route continues greedily from \<open>l\<close> when each stop is at least as near to the stop
  before it as every later stop is.
\<close>

fun greedy_from :: "venue \<Rightarrow> venue list \<Rightarrow> bool" where
  "greedy_from l [] = True"
| "greedy_from l (x # xs) = ((\<forall>y \<in> set xs. vdist l x \<le> vdist l y) \<and> greedy_from x xs)"

subsection \<open>The scan\<close>

lemma nearest_scan_index:
  assumes "nearest_scan l vs (length P) (nv, md, ni) rs = ((nv', md', ni'), rs')"
    and "ni < length P" and "nv = (P @ vs) ! ni"
  shows "ni' < length (P @ vs) \<and> nv' = (P @ vs) ! ni'"
  using assms
proof (induction vs arbitrary: P nv md ni rs)
  case Nil
  then show ?case by auto
next
  case (Cons v vs)
  obtain d rs1 where cd: "calculateDistance l v rs = (d, rs1)"
    by (cases "calculateDistance l v rs")
  from Cons.prems(1) cd
  have "nearest_scan l vs (length (P @ [v])) (v, d, length P) rs1 = ((nv', md', ni'), rs')
        \<or> nearest_scan l vs (length (P @ [v])) (nv, md, ni) rs1 = ((nv', md', ni'), rs')"
    by (simp split: if_splits)
  then show ?case
  proof
    assume "nearest_scan l vs (length (P @ [v])) (v, d, length P) rs1 = ((nv', md', ni'), rs')"
    from Cons.IH [OF this] show ?thesis by simp
  next
    assume "nearest_scan l vs (length (P @ [v])) (nv, md, ni) rs1 = ((nv', md', ni'), rs')"
    from Cons.IH [OF this] Cons.prems(2,3) show ?thesis by (simp add: nth_append)
  qed
qed

lemma pick_nearest_index:
  assumes "remaining \<noteq> []" and "pick_nearest l remaining rs = ((nv, md, ni), rs')"
  shows "ni < length remaining \<and> nv = remaining ! ni"
proof -
  obtain d0 rs1 where cd: "calculateDistance l (remaining ! 0) rs = (d0, rs1)"
    by (cases "calculateDistance l (remaining ! 0) rs")
  let ?P = "take 1 remaining"
  have P: "?P @ drop 1 remaining = remaining" and lenP: "length ?P = 1"
    using assms(1) by (simp_all add: Suc_leI)
  from assms(2) cd have "nearest_scan l (drop 1 remaining) 1 (remaining ! 0, d0, 0) rs1
                          = ((nv, md, ni), rs')"
    by (simp add: pick_nearest_def)
  then have "nearest_scan l (drop 1 remaining) (length ?P) (remaining ! 0, d0, 0) rs1
             = ((nv, md, ni), rs')"
    by (simp only: lenP)
  from nearest_scan_index [OF this] show ?thesis
    using assms(1) by (simp add: P lenP)
qed

lemma pick_nearest_shrinks:
  assumes "remaining \<noteq> []" and "((nv, md, ni), rs') = pick_nearest l remaining rs"
  shows "length (splice1 ni remaining) < length remaining"
  using pick_nearest_index [OF assms(1) assms(2) [symmetric]] assms(1) by simp

termination nn_loop
  by (relation "measure (\<lambda>(ordered, remaining, rs). length remaining)")
     (auto intro: pick_nearest_shrinks)

declare nn_loop.simps [simp del]

lemma nn_loop_mset:
  "mset (fst (nn_loop ordered remaining rs)) = mset ordered + mset remaining"
proof (induction ordered remaining rs rule: nn_loop.induct)
  case (1 ordered remaining rs)
  show ?case
  proof (cases "remaining = []")
    case True
    then show ?thesis by (simp add: nn_loop.simps [of ordered "[]" rs])
  next
    case False
    obtain nv md ni rs' where pn: "pick_nearest (last ordered) remaining rs = ((nv, md, ni), rs')"
      by (metis prod.exhaust)
    from pick_nearest_index [OF False pn] have ni: "ni < length remaining" and nv: "nv = remaining ! ni"
      by simp_all
    from "1.IH" [OF False pn [symmetric] refl refl]
    have "mset (fst (nn_loop (ordered @ [nv]) (splice1 ni remaining) rs'))
          = mset (ordered @ [nv]) + mset (splice1 ni remaining)" .
    moreover have "mset remaining = add_mset nv (mset (splice1 ni remaining))"
      using mset_splice1 [OF ni] nv by simp
    ultimately show ?thesis
      using False pn by (simp add: nn_loop.simps [of ordered remaining rs])
  qed
qed

lemma nn_loop_prefix:
  "\<exists>out. fst (nn_loop ordered remaining rs) = ordered @ out"
proof (induction ordered remaining rs rule: nn_loop.induct)
  case (1 ordered remaining rs)
  show ?case
  proof (cases "remaining = []")
    case True
    then show ?thesis by (simp add: nn_loop.simps [of ordered "[]" rs])
  next
    case False
    obtain nv md ni rs' where pn: "pick_nearest (last ordered) remaining rs = ((nv, md, ni), rs')"
      by (metis prod.exhaust)
    from "1.IH" [OF False pn [symmetric] refl refl] obtain out where
      "fst (nn_loop (ordered @ [nv]) (splice1 ni remaining) rs') = (ordered @ [nv]) @ out" ..
    with False pn show ?thesis
      by (simp add: nn_loop.simps [of ordered remaining rs])
  qed
qed

subsection \<open>The greedy choice\<close>

lemma calculateDistance_vdist:
  "has_coords a \<Longrightarrow> has_coords b \<Longrightarrow> calculateDistance a b rs = (vdist a b, rs)"
  by (auto simp: has_coords_def vdist_def)

lemma nth_snoc_cases:
  assumes "j < length (P @ [v])" and "j < length P \<Longrightarrow> Q (P ! j)" and "Q v"
  shows "Q ((P @ [v]) ! j)"
  using assms by (cases "j < length P") (auto simp: nth_append)

lemma nearest_scan_min:
  assumes "nearest_scan l vs (length P) (nv, md, ni) rs = ((nv', md', ni'), rs')"
    and "has_coords l" and "\<forall>x \<in> set vs. has_coords x"
    and "ni < length P" and "md = vdist l nv"
    and "\<forall>j < length P. md \<le> vdist l (P ! j)" and "\<forall>j < ni. md < vdist l (P ! j)"
  shows "rs' = rs \<and> md' = vdist l nv'
         \<and> (\<forall>j < length (P @ vs). vdist l nv' \<le> vdist l ((P @ vs) ! j))
         \<and> (\<forall>j < ni'. vdist l nv' < vdist l ((P @ vs) ! j))"
  using assms
proof (induction vs arbitrary: P nv md ni rs)
  case Nil
  then show ?case by auto
next
  case (Cons v vs)
  have cd: "calculateDistance l v rs = (vdist l v, rs)"
    using Cons.prems(2,3) by (simp add: calculateDistance_vdist)
  have cvs: "\<forall>x \<in> set vs. has_coords x"
    using Cons.prems(3) by simp
  show ?case
  proof (cases "vdist l v < md")
    case True
    with Cons.prems(1) cd
    have run: "nearest_scan l vs (length (P @ [v])) (v, vdist l v, length P) rs = ((nv', md', ni'), rs')"
      by simp
    have lt: "\<forall>j < length P. vdist l v < vdist l ((P @ [v]) ! j)"
    proof (intro allI impI)
      fix j
      assume j: "j < length P"
      with Cons.prems(6) have "md \<le> vdist l (P ! j)"
        by simp
      with True j show "vdist l v < vdist l ((P @ [v]) ! j)"
        by (simp add: nth_append)
    qed
    have le: "\<forall>j < length (P @ [v]). vdist l v \<le> vdist l ((P @ [v]) ! j)"
    proof (intro allI impI)
      fix j
      assume "j < length (P @ [v])"
      then show "vdist l v \<le> vdist l ((P @ [v]) ! j)"
      proof (rule nth_snoc_cases [where Q = "\<lambda>x. vdist l v \<le> vdist l x"])
        assume j: "j < length P"
        with lt have "vdist l v < vdist l ((P @ [v]) ! j)"
          by blast
        with j show "vdist l v \<le> vdist l (P ! j)"
          by (simp add: nth_append)
      qed simp
    qed
    have "length P < length (P @ [v])"
      by simp
    from Cons.IH [OF run Cons.prems(2) cvs this refl le lt] show ?thesis
      by simp
  next
    case False
    with Cons.prems(1) cd
    have run: "nearest_scan l vs (length (P @ [v])) (nv, md, ni) rs = ((nv', md', ni'), rs')"
      by simp
    have le: "\<forall>j < length (P @ [v]). md \<le> vdist l ((P @ [v]) ! j)"
    proof (intro allI impI)
      fix j
      assume "j < length (P @ [v])"
      then show "md \<le> vdist l ((P @ [v]) ! j)"
      proof (rule nth_snoc_cases [where Q = "\<lambda>x. md \<le> vdist l x"])
        assume "j < length P"
        with Cons.prems(6) show "md \<le> vdist l (P ! j)"
          by simp
      qed (use False in simp)
    qed
    have lt: "\<forall>j < ni. md < vdist l ((P @ [v]) ! j)"
    proof (intro allI impI)
      fix j
      assume "j < ni"
      with Cons.prems(4) have "j < length P"
        by simp
      with \<open>j < ni\<close> Cons.prems(7) show "md < vdist l ((P @ [v]) ! j)"
        by (simp add: nth_append)
    qed
    have "ni < length (P @ [v])"
      using Cons.prems(4) by simp
    from Cons.IH [OF run Cons.prems(2) cvs this Cons.prems(5) le lt] show ?thesis
      by simp
  qed
qed

lemma pick_nearest_min:
  assumes "remaining \<noteq> []" and "pick_nearest l remaining rs = ((nv, md, ni), rs')"
    and "has_coords l" and "\<forall>x \<in> set remaining. has_coords x"
  shows "rs' = rs \<and> (\<forall>x \<in> set remaining. vdist l nv \<le> vdist l x)
         \<and> (\<forall>j < ni. vdist l nv < vdist l (remaining ! j))"
proof -
  have c0: "has_coords (remaining ! 0)"
    using assms(1,4) by simp
  let ?P = "take 1 remaining"
  have P: "?P @ drop 1 remaining = remaining" and lenP: "length ?P = 1"
    using assms(1) by (simp_all add: Suc_leI)
  from assms(2,3) c0 have "nearest_scan l (drop 1 remaining) 1 (remaining ! 0, vdist l (remaining ! 0), 0) rs
                          = ((nv, md, ni), rs')"
    by (simp add: pick_nearest_def calculateDistance_vdist)
  then have run: "nearest_scan l (drop 1 remaining) (length ?P)
                    (remaining ! 0, vdist l (remaining ! 0), 0) rs = ((nv, md, ni), rs')"
    by (simp only: lenP)
  have "\<forall>x \<in> set (drop 1 remaining). has_coords x"
    using assms(4) by (auto dest: in_set_dropD)
  from nearest_scan_min [OF run assms(3) this] assms(1)
  have m: "rs' = rs \<and> (\<forall>j < length remaining. vdist l nv \<le> vdist l (remaining ! j))
           \<and> (\<forall>j < ni. vdist l nv < vdist l (remaining ! j))"
    by (simp add: P lenP)
  then show ?thesis
    by (auto simp: in_set_conv_nth)
qed

lemma nn_loop_greedy:
  assumes "ordered \<noteq> []" and "has_coords (last ordered)" and "\<forall>x \<in> set remaining. has_coords x"
  shows "\<exists>out. nn_loop ordered remaining rs = (ordered @ out, rs) \<and> greedy_from (last ordered) out"
  using assms
proof (induction ordered remaining rs rule: nn_loop.induct)
  case (1 ordered remaining rs)
  show ?case
  proof (cases "remaining = []")
    case True
    then show ?thesis by (simp add: nn_loop.simps [of ordered "[]" rs])
  next
    case False
    obtain nv md ni rs' where pn: "pick_nearest (last ordered) remaining rs = ((nv, md, ni), rs')"
      by (metis prod.exhaust)
    from pick_nearest_index [OF False pn] have ni: "ni < length remaining" and nv: "nv = remaining ! ni"
      by simp_all
    from pick_nearest_min [OF False pn "1.prems"(2,3)]
    have rs': "rs' = rs" and near: "\<forall>x \<in> set remaining. vdist (last ordered) nv \<le> vdist (last ordered) x"
      by simp_all
    have nv_in: "nv \<in> set remaining"
      using ni nv by simp
    have rest_coords: "\<forall>x \<in> set (splice1 ni remaining). has_coords x"
      using "1.prems"(3) set_splice1_subset [of ni remaining] by blast
    have c_nv: "has_coords (last (ordered @ [nv]))"
      using nv_in "1.prems"(3) by simp
    have ne: "ordered @ [nv] \<noteq> []"
      by simp
    from "1.IH" [OF False pn [symmetric] refl refl ne c_nv rest_coords]
    obtain out where run: "nn_loop (ordered @ [nv]) (splice1 ni remaining) rs' = ((ordered @ [nv]) @ out, rs')"
      and gr0: "greedy_from (last (ordered @ [nv])) out"
      by blast
    have gr: "greedy_from nv out"
      using gr0 by simp
    have "mset out = mset (splice1 ni remaining)"
      using nn_loop_mset [of "ordered @ [nv]" "splice1 ni remaining" rs'] run by simp
    then have "set out \<subseteq> set remaining"
      using set_splice1_subset [of ni remaining] by (metis set_mset_mset)
    with near have "\<forall>y \<in> set out. vdist (last ordered) nv \<le> vdist (last ordered) y"
      by blast
    with gr have "greedy_from (last ordered) (nv # out)"
      by simp
    moreover have "nn_loop ordered remaining rs = (ordered @ nv # out, rs)"
      using False pn run by (simp add: nn_loop.simps [of ordered remaining rs] rs')
    ultimately show ?thesis by blast
  qed
qed

subsection \<open>Properties of the optimiser\<close>

lemma optimizeVenueOrder_mset:
  "mset (fst (optimizeVenueOrder vs p rs)) = mset vs
   \<and> (vs \<noteq> [] \<longrightarrow> hd (fst (optimizeVenueOrder vs p rs)) = hd vs)"
proof (cases "length vs \<le> 2")
  case True
  then show ?thesis by (simp add: optimizeVenueOrder_def)
next
  case False
  then have ne: "vs \<noteq> []" by auto
  have split: "mset [vs ! 0] + mset (drop 1 vs) = mset vs"
    using ne by (cases vs) simp_all
  obtain out where pre: "fst (nn_loop [vs ! 0] (drop 1 vs) rs) = [vs ! 0] @ out"
    using nn_loop_prefix by blast
  have "mset (fst (nn_loop [vs ! 0] (drop 1 vs) rs)) = mset vs"
    using split by (simp only: nn_loop_mset)
  moreover have "hd (fst (nn_loop [vs ! 0] (drop 1 vs) rs)) = hd vs"
    using pre ne by (simp add: hd_conv_nth)
  ultimately show ?thesis
    using False by (simp add: optimizeVenueOrder_def)
qed

lemma line_route_order:
  "optimizeVenueOrder [sample_venue 1 ''Museum'' 90 (0, 0), sample_venue 2 ''Cafe'' 80 (10, 0),
                       sample_venue 3 ''Park'' 70 (1, 0)] default_prefs rs
   = ([sample_venue 1 ''Museum'' 90 (0, 0), sample_venue 3 ''Park'' 70 (1, 0),
       sample_venue 2 ''Cafe'' 80 (10, 0)], rs)"
  by (simp add: optimizeVenueOrder_def nn_loop.simps pick_nearest_def calculateDistance_def
                planar_dist_def splice1_def sample_venue_def)

text \<open>
  The optimiser returns a permutation of the selected venues that starts with the
  first (highest-weighted) one, and leaves a list of at most two venues as it is.
\<close>

theorem optimizeVenueOrder_perm:
  "mset (fst (optimizeVenueOrder vs p rs)) = mset vs
   \<and> (vs \<noteq> [] \<longrightarrow> hd (fst (optimizeVenueOrder vs p rs)) = hd vs)
   \<and> (length vs \<le> 2 \<longrightarrow> fst (optimizeVenueOrder vs p rs) = vs)"
proof (cases "length vs \<le> 2")
  case True
  then show ?thesis by (simp add: optimizeVenueOrder_def)
next
  case False
  then have ne: "vs \<noteq> []" by auto
  have split: "mset [vs ! 0] + mset (drop 1 vs) = mset vs"
    using ne by (cases vs) simp_all
  obtain out where pre: "fst (nn_loop [vs ! 0] (drop 1 vs) rs) = [vs ! 0] @ out"
    using nn_loop_prefix by blast
  have m: "mset (fst (nn_loop [vs ! 0] (drop 1 vs) rs)) = mset vs"
    using split by (simp only: nn_loop_mset)
  have h: "hd (fst (nn_loop [vs ! 0] (drop 1 vs) rs)) = hd vs"
    using pre ne by (simp add: hd_conv_nth)
  show ?thesis
    using False m h by (simp add: optimizeVenueOrder_def)
qed

theorem optimizeVenueOrder_perm_witness:
  "fst (optimizeVenueOrder [sample_venue 1 ''Museum'' 90 (0, 0), sample_venue 2 ''Cafe'' 80 (10, 0),
                            sample_venue 3 ''Park'' 70 (1, 0)] default_prefs (sconst 0))
     = [sample_venue 1 ''Museum'' 90 (0, 0), sample_venue 3 ''Park'' 70 (1, 0),
        sample_venue 2 ''Cafe'' 80 (10, 0)]
   \<and> hd [sample_venue 1 ''Museum'' 90 (0, 0), sample_venue 3 ''Park'' 70 (1, 0),
          sample_venue 2 ''Cafe'' 80 (10, 0)] = sample_venue 1 ''Museum'' 90 (0, 0)"
  using optimizeVenueOrder_perm [of "[sample_venue 1 ''Museum'' 90 (0, 0), sample_venue 2 ''Cafe'' 80 (10, 0),
                                     sample_venue 3 ''Park'' 70 (1, 0)]" default_prefs "sconst 0"]
  unfolding line_route_order by simp

text \<open>
  C9: with every venue placed, the order is the greedy nearest-neighbour order from the
  first venue, and no random number is drawn.
\<close>

theorem optimizeVenueOrder_greedy:
  assumes "\<forall>v \<in> set vs. has_coords v" and "vs \<noteq> []"
  shows "\<exists>out. optimizeVenueOrder vs p rs = (hd vs # out, rs) \<and> greedy_from (hd vs) out"
proof (cases "length vs \<le> 2")
  case True
  then have "vs = [hd vs] \<or> (\<exists>b. vs = [hd vs, b])"
    using assms(2) by (cases vs rule: remdups_adj.cases) auto
  then show ?thesis
    using True by (auto simp: optimizeVenueOrder_def)
next
  case False
  then have ne: "vs \<noteq> []" by auto
  have c0: "has_coords (last [vs ! 0])"
    using assms(1) ne by simp
  have "\<forall>x \<in> set (drop 1 vs). has_coords x"
    using assms(1) by (auto dest: in_set_dropD)
  from nn_loop_greedy [OF _ c0 this, of rs]
  obtain out where "nn_loop [vs ! 0] (drop 1 vs) rs = ([vs ! 0] @ out, rs)" and "greedy_from (vs ! 0) out"
    by auto
  moreover have "hd vs = vs ! 0"
    using ne by (simp add: hd_conv_nth)
  ultimately show ?thesis
    using False by (simp add: optimizeVenueOrder_def)
qed

theorem optimizeVenueOrder_greedy_witness:
  "optimizeVenueOrder [sample_venue 1 ''Museum'' 90 (0, 0), sample_venue 2 ''Cafe'' 80 (10, 0),
                       sample_venue 3 ''Park'' 70 (1, 0)] default_prefs (sconst 0)
     = ([sample_venue 1 ''Museum'' 90 (0, 0), sample_venue 3 ''Park'' 70 (1, 0),
         sample_venue 2 ''Cafe'' 80 (10, 0)], sconst 0)
   \<and> greedy_from (sample_venue 1 ''Museum'' 90 (0, 0))
        [sample_venue 3 ''Park'' 70 (1, 0), sample_venue 2 ''Cafe'' 80 (10, 0)]"
proof -
  have "\<forall>v \<in> set [sample_venue 1 ''Museum'' 90 (0, 0), sample_venue 2 ''Cafe'' 80 (10, 0),
                   sample_venue 3 ''Park'' 70 (1, 0)]. has_coords v"
    by (simp add: has_coords_def sample_venue_def)
  from optimizeVenueOrder_greedy [OF this, of default_prefs "sconst 0"]
  show ?thesis
    unfolding line_route_order by auto
qed

text \<open>
  C40: every pass of the \<open>while\<close> loop splices out an index inside \<open>remaining\<close>, so the
  list shrinks by one and the loop ends after as many passes as there were venues left.
\<close>

theorem nn_loop_pass_shrinks:
  assumes "remaining \<noteq> []" and "pick_nearest l remaining rs = ((nv, md, ni), rs')"
  shows "ni < length remaining \<and> nv = remaining ! ni
         \<and> length (splice1 ni remaining) = length remaining - 1"
  using pick_nearest_index [OF assms] by simp

theorem nn_loop_pass_shrinks_witness:
  "pick_nearest (sample_venue 1 ''Museum'' 90 (0, 0))
     [sample_venue 2 ''Cafe'' 80 (10, 0), sample_venue 3 ''Park'' 70 (1, 0)] (sconst 0)
     = ((sample_venue 3 ''Park'' 70 (1, 0), 1, 1), sconst 0)
   \<and> length (splice1 1 [sample_venue 2 ''Cafe'' 80 (10, 0), sample_venue 3 ''Park'' 70 (1, 0)]) = 1"
proof -
  have pn: "pick_nearest (sample_venue 1 ''Museum'' 90 (0, 0))
     [sample_venue 2 ''Cafe'' 80 (10, 0), sample_venue 3 ''Park'' 70 (1, 0)] (sconst 0)
     = ((sample_venue 3 ''Park'' 70 (1, 0), 1, 1), sconst 0)"
    by (simp add: pick_nearest_def calculateDistance_def planar_dist_def sample_venue_def)
  from nn_loop_pass_shrinks [OF _ pn] pn show ?thesis
    by simp
qed

end
