(* ===== verification/Timing.thy ===== *)
theory Timing
  imports Venues
begin

text \<open>
  The timing engine of \<open>generateRoute\<close> in
  \<open>src/culturis-studio/src/components/RoutePlanner.js\<close>: the wall clock \<open>addMinutes\<close>
  works on, the dwell time \<open>getEstimatedTime\<close>, the leg time
  \<open>getEstimatedTravelTime\<close>, the popularity jitter of the affinity, the note text of
  \<open>generateVenueNotes\<close>, and the \<open>map\<close> over the ordered venues that annotates each
  with its order, arrival time, dwell and travel minutes while a running clock advances.
  A clock value is the parsed form of the \<open>"h:mm AM"\<close> strings of \<open>getCurrentTime\<close>:
  the hour and minute numbers and whether the period is \<open>PM\<close>.
\<close>

subsection \<open>The clock\<close>

record clock =
  hours :: int
  mins :: int
  pm :: bool

text \<open>\<open>addMinutes(time, minutes)\<close>, with JavaScript's \<open>%\<close> and \<open>Math.floor\<close>.\<close>

definition addMinutes :: "clock \<Rightarrow> int \<Rightarrow> clock" where
  "addMinutes time minutes =
     (let totalMinutes = js_rem (hours time) 12 * 60 + mins time + minutes
                         + (if pm time then 12 * 60 else 0);
          newHours = js_rem (totalMinutes div 60) 24;
          newMins = js_rem totalMinutes 60;
          displayHours = (if newHours = 0 then 12 else if newHours > 12 then newHours - 12 else newHours)
      in \<lparr>hours = displayHours, mins = newMins, pm = (newHours \<ge> 12)\<rparr>)"

text \<open>A clock as \<open>toLocaleTimeString\<close> prints it: hour 1 to 12, minute 0 to 59.\<close>

definition clock_ok :: "clock \<Rightarrow> bool" where
  "clock_ok t \<longleftrightarrow> 1 \<le> hours t \<and> hours t \<le> 12 \<and> 0 \<le> mins t \<and> mins t < 60"

definition minute_of_day :: "clock \<Rightarrow> int" where
  "minute_of_day t = (hours t mod 12) * 60 + mins t + (if pm t then 720 else 0)"

subsection \<open>Dwell and travel times\<close>

definition baseTimes :: "(string \<times> real) list" where
  "baseTimes =
     [(''Restaurant'', 90), (''Cafe'', 45), (''Bar'', 60), (''Art Museum'', 120),
      (''Museum'', 90), (''Market'', 60), (''Park'', 45), (''Event Venue'', 120),
      (''Gallery'', 75), (''Shop'', 30), (''Historical Site'', 60)]"

definition paceMultipliers :: "pace_opt \<Rightarrow> real" where
  "paceMultipliers p = (case p of PQuick \<Rightarrow> 0.7 | Relaxed \<Rightarrow> 1.0 | Thorough \<Rightarrow> 1.3)"

definition durationMultipliers :: "duration_opt \<Rightarrow> real" where
  "durationMultipliers d = (case d of DQuick \<Rightarrow> 0.8 | HalfDay \<Rightarrow> 1.0 | FullDay \<Rightarrow> 1.2)"

text \<open>
  \<open>baseTimes[venueType] || 60\<close>, then the Qloo adjustments when \<open>venue.qloo_data\<close> is
  present: \<open>\<times>1.2\<close> for a popularity above 0.999, \<open>\<times>1.1\<close> for more than three keywords.
\<close>

definition getEstimatedTime :: "string option \<Rightarrow> pace_opt \<Rightarrow> venue \<Rightarrow> duration_opt \<Rightarrow> int" where
  "getEstimatedTime venueType paceOpt venue durationOpt =
     (let baseTime = (case venueType of
                        None \<Rightarrow> 60
                      | Some t \<Rightarrow> (case map_of baseTimes t of Some b \<Rightarrow> b | None \<Rightarrow> 60));
          baseTime1 = (case qloo_data venue of
                         None \<Rightarrow> baseTime
                       | Some q \<Rightarrow>
                           (case popularity q of
                              Some p \<Rightarrow> if p > 0.999 then baseTime * 1.2 else baseTime
                            | None \<Rightarrow> baseTime));
          baseTime2 = (case qloo_data venue of
                         None \<Rightarrow> baseTime1
                       | Some q \<Rightarrow>
                           (case qkeywords q of
                              Some ks \<Rightarrow> if length ks > 3 then baseTime1 * 1.1 else baseTime1
                            | None \<Rightarrow> baseTime1))
      in round (baseTime2 * paceMultipliers paceOpt * durationMultipliers durationOpt))"

text \<open>The coordinate substituted for a venue without one (\<open>|| [40.7589, -73.9851]\<close>).\<close>

definition default_coord :: coord where
  "default_coord = (40.7589, -73.9851)"

text \<open>
  \<open>getEstimatedTravelTime(fromVenue, toVenue)\<close>: a random 10 to 24 minutes when either
  venue is missing, else the planar distance \<open>\<times>1000\<close>, rounded, plus 10, clamped to
  \<open>[5, 30]\<close>.
\<close>

definition getEstimatedTravelTime :: "venue option \<Rightarrow> venue option \<Rightarrow> rng \<Rightarrow> int \<times> rng" where
  "getEstimatedTravelTime fromVenue toVenue rs =
     (case (fromVenue, toVenue) of
        (Some f, Some t) \<Rightarrow>
          (let p = (case coordinates f of Some c \<Rightarrow> c | None \<Rightarrow> default_coord);
               q = (case coordinates t of Some c \<Rightarrow> c | None \<Rightarrow> default_coord);
               distance = planar_dist p q
           in (max 5 (min 30 (round (distance * 1000) + 10)), rs))
      | _ \<Rightarrow> (case random_draw rs of (r, rs') \<Rightarrow> (\<lfloor>r * 15\<rfloor> + 10, rs')))"

subsection \<open>Affinity jitter\<close>

text \<open>
  The displayed affinity: for a truthy popularity above 0.9999 it drops by
  \<open>Math.floor(Math.random() * 10)\<close> but not below 70; below 0.995 it rises by
  \<open>Math.floor(Math.random() * 8)\<close> but not above 95.
\<close>

definition adjustAffinity :: "venue \<Rightarrow> rng \<Rightarrow> real \<times> rng" where
  "adjustAffinity venue rs =
     (case qloo_data venue of
        None \<Rightarrow> (affinity venue, rs)
      | Some q \<Rightarrow>
          (case popularity q of
             None \<Rightarrow> (affinity venue, rs)
           | Some p \<Rightarrow>
               if p = 0 then (affinity venue, rs)
               else if p > 0.9999 then
                 (case random_draw rs of
                    (r, rs') \<Rightarrow> (max 70 (affinity venue - of_int \<lfloor>r * 10\<rfloor>), rs'))
               else if p < 0.995 then
                 (case random_draw rs of
                    (r, rs') \<Rightarrow> (min 95 (affinity venue + of_int \<lfloor>r * 8\<rfloor>), rs'))
               else (affinity venue, rs)))"

subsection \<open>Notes\<close>

text \<open>
  \<open>generateVenueNotes(venue, focus)\<close>. Both object literals of the source are evaluated
  whole before one entry is picked, and each reads \<open>venue.type\<close>, so a venue without a
  type throws whatever the focus.
\<close>

text \<open>The \<open>focusNotes\<close> entry for a venue without keywords.\<close>

definition focus_note :: "string \<Rightarrow> focus_opt \<Rightarrow> string" where
  "focus_note ty focusOpt =
     (case focusOpt of
        Diverse \<Rightarrow> ''Experience the unique atmosphere of this '' @ js_lower ty
      | Food \<Rightarrow>
          if js_includes ty ''Restaurant'' \<or> js_includes ty ''Cafe''
          then ''Perfect spot for culinary exploration'' else ''Great for a quick break''
      | Arts \<Rightarrow>
          if js_includes ty ''Museum'' \<or> js_includes ty ''Art''
          then ''Immerse yourself in the cultural offerings'' else ''Appreciate the creative atmosphere''
      | Culture \<Rightarrow> ''Discover what makes this '' @ js_lower ty @ '' special to locals'')"

definition generateVenueNotes :: "venue \<Rightarrow> focus_opt \<Rightarrow> js_error + string" where
  "generateVenueNotes venue focusOpt =
     (case vtype venue of
        None \<Rightarrow> Inl TypeError
      | Some ty \<Rightarrow>
          (case (case qloo_data venue of None \<Rightarrow> None | Some q \<Rightarrow> qkeywords q) of
             Some ks \<Rightarrow>
               if ks \<noteq> [] then
                 (let kws = take 3 ks; joined = js_join '', '' kws in
                  Inr (case focusOpt of
                         Diverse \<Rightarrow> ''Known for '' @ joined @ '' - a perfect cultural stop''
                       | Food \<Rightarrow>
                           if js_includes ty ''Restaurant'' \<or> js_includes ty ''Cafe''
                           then ''Celebrated for '' @ joined
                           else ''Great atmosphere featuring '' @ kws ! 0
                       | Arts \<Rightarrow>
                           if js_includes ty ''Museum'' \<or> js_includes ty ''Art''
                           then ''Features '' @ joined @ '' - don't miss it!''
                           else ''Cultural spot known for '' @ kws ! 0
                       | Culture \<Rightarrow> ''Local favorite known for '' @ joined))
               else Inr (focus_note ty focusOpt)
           | None \<Rightarrow> Inr (focus_note ty focusOpt)))"

subsection \<open>Route stops and the itinerary\<close>

text \<open>
  A stop is the venue spread into a new object with the itinerary fields added
  (\<open>{...venue, affinity, order, arrivalTime, estimatedTime, travelTime, notes}\<close>):
  a record extension of \<open>venue\<close>.
\<close>

record route_stop = venue +
  order :: nat
  arrivalTime :: clock
  estimatedTime :: int
  travelTime :: int
  stopNotes :: string

definition mk_stop :: "venue \<Rightarrow> real \<Rightarrow> nat \<Rightarrow> clock \<Rightarrow> int \<Rightarrow> int \<Rightarrow> string \<Rightarrow> route_stop" where
  "mk_stop v a i arr et tt n = venue.extend (v\<lparr>affinity := a\<rparr>) (route_stop.fields i arr et tt n)"

text \<open>
  The \<open>optimizedVenues.map((venue, index) => ...)\<close> of \<open>generateRoute\<close>, with the
  running \<open>currentTime\<close> threaded through: from the second stop on, the clock first
  advances by the travel time from the previous venue (the arrival time), then by the
  dwell time. The result is the stops, the final clock and the random source; a note
  that throws aborts the whole map.
\<close>

fun itinerary :: "route_prefs \<Rightarrow> venue option \<Rightarrow> nat \<Rightarrow> clock \<Rightarrow> venue list \<Rightarrow> rng
                   \<Rightarrow> js_error + route_stop list \<times> clock \<times> rng" where
  "itinerary prefs previousVenue index currentTime [] rs = Inr ([], currentTime, rs)"
| "itinerary prefs previousVenue index currentTime (venue # vs) rs =
     (case (if index > 0
            then (case getEstimatedTravelTime previousVenue (Some venue) rs of
                    (travel, rs') \<Rightarrow> (addMinutes currentTime travel, rs'))
            else (currentTime, rs)) of
        (arrival, rs1) \<Rightarrow>
          (let venueTime = getEstimatedTime (vtype venue) (pace prefs) venue (duration prefs);
               departure = addMinutes arrival venueTime
           in case adjustAffinity venue rs1 of
                (adjustedAffinity, rs2) \<Rightarrow>
                  (case (if index = 0 then (0, rs2)
                         else getEstimatedTravelTime previousVenue (Some venue) rs2) of
                     (travel2, rs3) \<Rightarrow>
                       (case generateVenueNotes venue (focus prefs) of
                          Inl e \<Rightarrow> Inl e
                        | Inr notes \<Rightarrow>
                            (case itinerary prefs (Some venue) (Suc index) departure vs rs3 of
                               Inl e \<Rightarrow> Inl e
                             | Inr (rest, finalTime, rs4) \<Rightarrow>
                                 Inr (mk_stop venue adjustedAffinity (Suc index) arrival venueTime
                                        travel2 notes # rest, finalTime, rs4))))))"

text \<open>\<open>totalTime\<close>: the \<open>reduce\<close> over the stops.\<close>

definition totalTime :: "route_stop list \<Rightarrow> int" where
  "totalTime stops = sum_list (map (\<lambda>s. estimatedTime s + travelTime s) stops)"

text \<open>A placed gallery with Qloo popularity \<open>p\<close> and no keywords, for the jitter scenarios.\<close>

definition qloo_venue :: "real \<Rightarrow> real \<Rightarrow> venue" where
  "qloo_venue a p = (sample_venue 7 ''Gallery'' a (0, 0))\<lparr>qloo_data := Some \<lparr>popularity = Some p, qkeywords = None\<rparr>\<rparr>"

subsection \<open>Clock arithmetic\<close>

lemma js_rem_hours: "clock_ok t \<Longrightarrow> js_rem (hours t) 12 = hours t mod 12"
  by (simp add: clock_ok_def js_rem_nonneg)

lemma day_split: "(T div 60 mod 24) * 60 + T mod 60 = T mod (1440::int)"
  using mod_mult2_eq' [of T 60 24] by simp

lemma display_hours:
  fixes nh :: int
  assumes "0 \<le> nh" "nh < 24"
  shows "((if nh = 0 then 12 else if nh > 12 then nh - 12 else nh) mod 12) * 60
         + (if nh \<ge> 12 then 720 else 0) = nh * 60"
proof (cases "nh = 0")
  case True
  then show ?thesis by simp
next
  case nz: False
  show ?thesis
  proof (cases "nh > 12")
    case True
    have "nh mod 12 = ((nh - 12) + 12) mod 12"
      by simp
    also have "\<dots> = (nh - 12) mod 12"
      by (rule mod_add_self2)
    also have "\<dots> = nh - 12"
      using assms True by (intro mod_pos_pos_trivial) simp_all
    finally have "nh mod 12 = nh - 12" .
    with True nz show ?thesis by simp
  next
    case False
    show ?thesis
    proof (cases "nh = 12")
      case True
      then show ?thesis by simp
    next
      case ne: False
      with False assms have "nh mod 12 = nh"
        by simp
      with nz False ne show ?thesis by simp
    qed
  qed
qed

lemma minute_of_day_bounds: "clock_ok t \<Longrightarrow> 0 \<le> minute_of_day t \<and> minute_of_day t < 1440"
  by (auto simp: clock_ok_def minute_of_day_def)

lemma addMinutes_spec:
  assumes "clock_ok t" and "0 \<le> m"
  shows "clock_ok (addMinutes t m) \<and> minute_of_day (addMinutes t m) = (minute_of_day t + m) mod 1440"
proof -
  define T where "T = minute_of_day t + m"
  have T0: "0 \<le> T"
    using minute_of_day_bounds [OF assms(1)] assms(2) by (simp add: T_def)
  have tot: "js_rem (hours t) 12 * 60 + mins t + m + (if pm t then 12 * 60 else 0) = T"
    using assms(1) by (simp add: T_def minute_of_day_def js_rem_hours)
  define nh where "nh = T div 60 mod 24"
  have nh: "js_rem (T div 60) 24 = nh" and nh0: "0 \<le> nh" and nh24: "nh < 24"
    using T0 by (simp_all add: nh_def js_rem_nonneg)
  have nm: "js_rem T 60 = T mod 60"
    using T0 by (simp add: js_rem_nonneg)
  have a: "addMinutes t m = \<lparr>hours = (if nh = 0 then 12 else if nh > 12 then nh - 12 else nh),
                              mins = T mod 60, pm = (nh \<ge> 12)\<rparr>"
    unfolding addMinutes_def Let_def tot nh nm ..
  have ok: "clock_ok (addMinutes t m)"
    using nh0 nh24 by (auto simp: a clock_ok_def)
  have "minute_of_day (addMinutes t m) = nh * 60 + T mod 60"
    using display_hours [OF nh0 nh24] by (simp add: a minute_of_day_def)
  also have "\<dots> = T mod 1440"
    using day_split [of T] by (simp add: nh_def)
  finally show ?thesis
    using ok by (simp add: T_def)
qed

lemma div_mod_60:
  fixes x m :: int
  assumes "0 \<le> m" "m < 60"
  shows "(x * 60 + m) div 60 = x" and "(x * 60 + m) mod 60 = m"
  using assms by simp_all

lemma clock_decomp:
  assumes "clock_ok c"
  shows "mins c = minute_of_day c mod 60 \<and> (pm c \<longleftrightarrow> 720 \<le> minute_of_day c)
         \<and> hours c = (if minute_of_day c div 60 mod 12 = 0 then 12 else minute_of_day c div 60 mod 12)"
proof -
  define k where "k = hours c mod 12"
  define X where "X = k + (if pm c then 12 else 0)"
  have k: "0 \<le> k" "k < 12"
    by (simp_all add: k_def)
  have mi: "0 \<le> mins c" "mins c < 60"
    using assms by (simp_all add: clock_ok_def)
  have M: "minute_of_day c = X * 60 + mins c"
    by (simp add: minute_of_day_def X_def k_def distrib_right)
  have dm: "minute_of_day c mod 60 = mins c" "minute_of_day c div 60 = X"
    using div_mod_60 [OF mi, of X] by (simp_all add: M)
  have X12: "X mod 12 = k"
    using k by (simp add: X_def)
  have pmc: "pm c \<longleftrightarrow> 720 \<le> minute_of_day c"
    using M mi k by (cases "pm c") (simp_all add: X_def)
  have h: "hours c = (if k = 0 then 12 else k)"
    using assms by (cases "hours c = 12") (auto simp: clock_ok_def k_def)
  show ?thesis
    using dm X12 pmc h by simp
qed

lemma clock_eqI:
  assumes "clock_ok a" and "clock_ok b" and "minute_of_day a = minute_of_day b"
  shows "a = b"
proof (rule clock.equality)
  show "hours a = hours b" and "mins a = mins b" and "pm a = pm b"
    using clock_decomp [OF assms(1)] clock_decomp [OF assms(2)] assms(3) by simp_all
  show "clock.more a = clock.more b" by simp
qed

lemma mk_stop_sel [simp]:
  "order (mk_stop v a i arr et tt n) = i"
  "arrivalTime (mk_stop v a i arr et tt n) = arr"
  "estimatedTime (mk_stop v a i arr et tt n) = et"
  "travelTime (mk_stop v a i arr et tt n) = tt"
  "stopNotes (mk_stop v a i arr et tt n) = n"
  "affinity (mk_stop v a i arr et tt n) = a"
  "vid (mk_stop v a i arr et tt n) = vid v"
  "vtype (mk_stop v a i arr et tt n) = vtype v"
  "coordinates (mk_stop v a i arr et tt n) = coordinates v"
  by (simp_all add: mk_stop_def venue.defs route_stop.defs)

lemma addMinutes_ok: "clock_ok t \<Longrightarrow> 0 \<le> m \<Longrightarrow> clock_ok (addMinutes t m)"
  using addMinutes_spec by blast

lemma addMinutes_add:
  assumes "clock_ok t" "0 \<le> a" "0 \<le> b"
  shows "addMinutes (addMinutes t a) b = addMinutes t (a + b)"
proof (rule clock_eqI)
  have ta: "clock_ok (addMinutes t a)" using addMinutes_spec [OF assms(1,2)] by blast
  show "clock_ok (addMinutes (addMinutes t a) b)" using addMinutes_spec [OF ta assms(3)] by blast
  show "clock_ok (addMinutes t (a + b))" using addMinutes_spec [OF assms(1)] assms(2,3) by simp
  show "minute_of_day (addMinutes (addMinutes t a) b) = minute_of_day (addMinutes t (a + b))"
    using addMinutes_spec [OF ta assms(3)] addMinutes_spec [OF assms(1,2)]
          addMinutes_spec [OF assms(1), of "a + b"] assms(2,3)
    by (simp add: mod_add_left_eq add.assoc)
qed

lemma addMinutes_0: "clock_ok t \<Longrightarrow> addMinutes t 0 = t"
  by (rule clock_eqI) (simp_all add: addMinutes_spec minute_of_day_bounds)

lemma travel_some:
  "getEstimatedTravelTime (Some f) (Some t) rs =
     (max 5 (min 30 (round (planar_dist (case coordinates f of Some c \<Rightarrow> c | None \<Rightarrow> default_coord)
                                         (case coordinates t of Some c \<Rightarrow> c | None \<Rightarrow> default_coord) * 1000) + 10)), rs)"
  by (simp add: getEstimatedTravelTime_def)

lemma round_nonneg: "0 \<le> (x::real) \<Longrightarrow> 0 \<le> round x"
  by (simp add: round_def)

lemma travel_some_bounds:
  "10 \<le> fst (getEstimatedTravelTime (Some f) (Some t) rs)
   \<and> fst (getEstimatedTravelTime (Some f) (Some t) rs) \<le> 30
   \<and> snd (getEstimatedTravelTime (Some f) (Some t) rs) = rs"
proof -
  let ?d = "planar_dist (case coordinates f of Some c \<Rightarrow> c | None \<Rightarrow> default_coord)
                         (case coordinates t of Some c \<Rightarrow> c | None \<Rightarrow> default_coord)"
  have "0 \<le> round (?d * 1000)"
    by (rule round_nonneg) simp
  then show ?thesis
    by (simp add: travel_some)
qed

lemma baseTimes_range: "map_of baseTimes t = Some b \<Longrightarrow> 30 \<le> b \<and> b \<le> 120"
  by (auto simp: baseTimes_def split: if_splits)

lemma round_bounds:
  assumes "16.8 \<le> (x::real)" and "x \<le> 247.104"
  shows "17 \<le> round x \<and> round x \<le> 247"
  using assms by (simp add: round_def le_floor_iff floor_le_iff)

lemma baseTime_range:
  "30 \<le> (case venueType of None \<Rightarrow> 60 | Some t \<Rightarrow> (case map_of baseTimes t of Some b \<Rightarrow> b | None \<Rightarrow> 60))
   \<and> (case venueType of None \<Rightarrow> 60 | Some t \<Rightarrow> (case map_of baseTimes t of Some b \<Rightarrow> b | None \<Rightarrow> (60::real))) \<le> 120"
  by (auto dest: baseTimes_range split: option.splits)

lemma getEstimatedTime_scaled:
  "\<exists>b. 30 \<le> b \<and> b \<le> 158.4
       \<and> getEstimatedTime ty p v d = round (b * paceMultipliers p * durationMultipliers d)"
proof -
  define b0 where "b0 = (case ty of None \<Rightarrow> 60 | Some t \<Rightarrow> (case map_of baseTimes t of Some b \<Rightarrow> b | None \<Rightarrow> (60::real)))"
  define b1 where "b1 = (case qloo_data v of None \<Rightarrow> b0 | Some q \<Rightarrow>
                           (case popularity q of Some p \<Rightarrow> if p > 0.999 then b0 * 1.2 else b0 | None \<Rightarrow> b0))"
  define b2 where "b2 = (case qloo_data v of None \<Rightarrow> b1 | Some q \<Rightarrow>
                           (case qkeywords q of Some ks \<Rightarrow> if length ks > 3 then b1 * 1.1 else b1 | None \<Rightarrow> b1))"
  have r0: "30 \<le> b0 \<and> b0 \<le> 120"
    unfolding b0_def by (rule baseTime_range)
  have r1: "b0 \<le> b1 \<and> b1 \<le> b0 * 1.2"
    using r0 by (auto simp: b1_def split: option.splits)
  have r2: "b1 \<le> b2 \<and> b2 \<le> b1 * 1.1"
    using r0 r1 by (auto simp: b2_def split: option.splits)
  have "getEstimatedTime ty p v d = round (b2 * paceMultipliers p * durationMultipliers d)"
    unfolding getEstimatedTime_def Let_def b2_def b1_def b0_def by (rule refl)
  moreover have "30 \<le> b2 \<and> b2 \<le> 158.4"
    using r0 r1 r2 by linarith
  ultimately show ?thesis by blast
qed

lemma getEstimatedTime_range:
  "17 \<le> getEstimatedTime ty p v d \<and> getEstimatedTime ty p v d \<le> 247"
proof -
  obtain b where b: "30 \<le> b" "b \<le> 158.4"
    and eq: "getEstimatedTime ty p v d = round (b * paceMultipliers p * durationMultipliers d)"
    using getEstimatedTime_scaled by blast
  have "16.8 \<le> b * paceMultipliers p * durationMultipliers d
        \<and> b * paceMultipliers p * durationMultipliers d \<le> 247.104"
    using b by (cases p; cases d) (simp_all add: paceMultipliers_def durationMultipliers_def)
  then show ?thesis
    unfolding eq by (intro round_bounds) simp_all
qed

lemma generateVenueNotes_isl: "isl (generateVenueNotes v f) \<longleftrightarrow> vtype v = None"
  by (auto simp: generateVenueNotes_def Let_def split: option.splits)

lemma itinerary_Cons_shape:
  "\<exists>arrival rs1 aff rs2 tr rs3.
     (if 0 < i then (case getEstimatedTravelTime prev (Some v) rs of (travel, rs') \<Rightarrow> (addMinutes t travel, rs'))
      else (t, rs)) = (arrival, rs1)
   \<and> adjustAffinity v rs1 = (aff, rs2)
   \<and> (if i = 0 then (0, rs2) else getEstimatedTravelTime prev (Some v) rs2) = (tr, rs3)
   \<and> itinerary p prev i t (v # vs) rs =
       (case generateVenueNotes v (focus p) of
          Inl e \<Rightarrow> Inl e
        | Inr n \<Rightarrow>
            (case itinerary p (Some v) (Suc i)
                    (addMinutes arrival (getEstimatedTime (vtype v) (pace p) v (duration p))) vs rs3 of
               Inl e \<Rightarrow> Inl e
             | Inr (rest, tf, rs4) \<Rightarrow>
                 Inr (mk_stop v aff (Suc i) arrival (getEstimatedTime (vtype v) (pace p) v (duration p))
                        tr n # rest, tf, rs4)))"
proof -
  obtain arrival rs1 where A:
    "(if 0 < i then (case getEstimatedTravelTime prev (Some v) rs of (travel, rs') \<Rightarrow> (addMinutes t travel, rs'))
      else (t, rs)) = (arrival, rs1)"
    by (metis prod.exhaust)
  obtain aff rs2 where B: "adjustAffinity v rs1 = (aff, rs2)"
    by (metis prod.exhaust)
  obtain tr rs3 where C: "(if i = 0 then (0, rs2) else getEstimatedTravelTime prev (Some v) rs2) = (tr, rs3)"
    by (metis prod.exhaust)
  have "itinerary p prev i t (v # vs) rs =
       (case generateVenueNotes v (focus p) of
          Inl e \<Rightarrow> Inl e
        | Inr n \<Rightarrow>
            (case itinerary p (Some v) (Suc i)
                    (addMinutes arrival (getEstimatedTime (vtype v) (pace p) v (duration p))) vs rs3 of
               Inl e \<Rightarrow> Inl e
             | Inr (rest, tf, rs4) \<Rightarrow>
                 Inr (mk_stop v aff (Suc i) arrival (getEstimatedTime (vtype v) (pace p) v (duration p))
                        tr n # rest, tf, rs4)))"
    by (simp only: itinerary.simps A B C Let_def prod.case)
  with A B C show ?thesis by blast
qed

lemma itinerary_throws_iff:
  "isl (itinerary p prev i t vs rs) \<longleftrightarrow> (\<exists>v \<in> set vs. vtype v = None)"
proof (induction vs arbitrary: prev i t rs)
  case Nil
  then show ?case by simp
next
  case (Cons v vs)
  from itinerary_Cons_shape [where i = i and prev = prev and v = v and rs = rs and t = t and p = p and vs = vs] obtain arrival rs3 aff tr where
    eq: "itinerary p prev i t (v # vs) rs =
       (case generateVenueNotes v (focus p) of
          Inl e \<Rightarrow> Inl e
        | Inr n \<Rightarrow>
            (case itinerary p (Some v) (Suc i)
                    (addMinutes arrival (getEstimatedTime (vtype v) (pace p) v (duration p))) vs rs3 of
               Inl e \<Rightarrow> Inl e
             | Inr (rest, tf, rs4) \<Rightarrow>
                 Inr (mk_stop v aff (Suc i) arrival (getEstimatedTime (vtype v) (pace p) v (duration p))
                        tr n # rest, tf, rs4)))"
    by blast
  have ih: "isl (itinerary p (Some v) (Suc i)
                  (addMinutes arrival (getEstimatedTime (vtype v) (pace p) v (duration p))) vs rs3)
            \<longleftrightarrow> (\<exists>v \<in> set vs. vtype v = None)"
    by (rule Cons.IH)
  show ?case
  proof (cases "generateVenueNotes v (focus p)")
    case (Inl e)
    then have "vtype v = None"
      using generateVenueNotes_isl by (metis isl_def)
    with Inl eq show ?thesis by simp
  next
    case (Inr n)
    then have "vtype v \<noteq> None"
      using generateVenueNotes_isl by (metis sum.disc(2))
    with Inr eq ih show ?thesis
      by (auto split: sum.splits prod.splits)
  qed
qed

lemma first_leg:
  fixes i :: nat
  assumes "i = 0 \<or> prev \<noteq> None" and "clock_ok t"
    and "(if 0 < i then (case getEstimatedTravelTime prev (Some v) rs of (travel, rs') \<Rightarrow> (addMinutes t travel, rs'))
          else (t, rs)) = (arrival, rs1)"
    and "(if i = 0 then (0, rs2) else getEstimatedTravelTime prev (Some v) rs2) = (tr, rs3)"
  shows "arrival = addMinutes t tr \<and> rs1 = rs \<and> rs3 = rs2 \<and> 0 \<le> tr"
proof (cases "i = 0")
  case True
  from assms(3) True have "arrival = t" "rs1 = rs"
    by simp_all
  moreover from assms(4) True have "tr = 0" "rs3 = rs2"
    by simp_all
  ultimately show ?thesis
    using assms(2) by (simp add: addMinutes_0)
next
  case False
  with assms(1) obtain pv where prev: "prev = Some pv"
    by auto
  have b1: "10 \<le> fst (getEstimatedTravelTime (Some pv) (Some v) rs)
            \<and> snd (getEstimatedTravelTime (Some pv) (Some v) rs) = rs"
    using travel_some_bounds by blast
  have b2: "snd (getEstimatedTravelTime (Some pv) (Some v) rs2) = rs2"
    using travel_some_bounds by blast
  have same: "fst (getEstimatedTravelTime (Some pv) (Some v) rs2) = fst (getEstimatedTravelTime (Some pv) (Some v) rs)"
    by (simp add: travel_some)
  from assms(3,4) False prev b1 b2 same show ?thesis
    by (auto split: prod.splits)
qed

lemma totalTime_Cons [simp]: "totalTime (s # ss) = estimatedTime s + travelTime s + totalTime ss"
  by (simp add: totalTime_def)

lemma totalTime_Nil [simp]: "totalTime [] = 0"
  by (simp add: totalTime_def)

lemma totalTime_nonneg:
  "\<forall>s \<in> set ss. 0 \<le> estimatedTime s \<and> 0 \<le> travelTime s \<Longrightarrow> 0 \<le> totalTime ss"
  by (induction ss) auto

lemma itinerary_clock:
  assumes "itinerary p prev i t vs rs = Inr (stops, tf, rs')"
    and "clock_ok t" and "i = 0 \<or> prev \<noteq> None"
  shows "tf = addMinutes t (totalTime stops)
         \<and> (\<forall>k < length stops. arrivalTime (stops ! k) = addMinutes t (totalTime (take k stops) + travelTime (stops ! k)))
         \<and> (\<forall>s \<in> set stops. 0 \<le> estimatedTime s \<and> 0 \<le> travelTime s)"
  using assms
proof (induction vs arbitrary: prev i t rs stops tf rs')
  case Nil
  then show ?case by (auto simp: addMinutes_0)
next
  case (Cons v vs)
  let ?et = "getEstimatedTime (vtype v) (pace p) v (duration p)"
  from itinerary_Cons_shape [where i = i and prev = prev and v = v and rs = rs and t = t and p = p and vs = vs]
  obtain arrival rs1 aff rs2 tr rs3 where
    A: "(if 0 < i then (case getEstimatedTravelTime prev (Some v) rs of (travel, rs') \<Rightarrow> (addMinutes t travel, rs'))
         else (t, rs)) = (arrival, rs1)"
    and C: "(if i = 0 then (0, rs2) else getEstimatedTravelTime prev (Some v) rs2) = (tr, rs3)"
    and eq: "itinerary p prev i t (v # vs) rs =
       (case generateVenueNotes v (focus p) of
          Inl e \<Rightarrow> Inl e
        | Inr n \<Rightarrow>
            (case itinerary p (Some v) (Suc i) (addMinutes arrival ?et) vs rs3 of
               Inl e \<Rightarrow> Inl e
             | Inr (rest, tf, rs4) \<Rightarrow> Inr (mk_stop v aff (Suc i) arrival ?et tr n # rest, tf, rs4)))"
    by blast
  from first_leg [OF Cons.prems(3,2) A C]
  have arr: "arrival = addMinutes t tr" and tr0: "0 \<le> tr"
    by simp_all
  obtain n rest where n: "generateVenueNotes v (focus p) = Inr n"
    and rest: "itinerary p (Some v) (Suc i) (addMinutes arrival ?et) vs rs3 = Inr (rest, tf, rs')"
    and stops: "stops = mk_stop v aff (Suc i) arrival ?et tr n # rest"
    using Cons.prems(1) eq by (auto split: sum.splits prod.splits)
  have et0: "0 \<le> ?et"
    using getEstimatedTime_range [of "vtype v" "pace p" v "duration p"] by simp
  have dep: "addMinutes arrival ?et = addMinutes t (tr + ?et)"
    using arr addMinutes_add [OF Cons.prems(2) tr0 et0] by simp
  have dep_ok: "clock_ok (addMinutes arrival ?et)"
    using dep addMinutes_ok [OF Cons.prems(2)] tr0 et0 by simp
  from Cons.IH [OF rest dep_ok] have
    tf: "tf = addMinutes (addMinutes arrival ?et) (totalTime rest)"
    and arrs: "\<forall>k < length rest. arrivalTime (rest ! k)
                 = addMinutes (addMinutes arrival ?et) (totalTime (take k rest) + travelTime (rest ! k))"
    and nn: "\<forall>s \<in> set rest. 0 \<le> estimatedTime s \<and> 0 \<le> travelTime s"
    by simp_all
  have shift: "addMinutes (addMinutes arrival ?et) x = addMinutes t (?et + tr + x)" if "0 \<le> x" for x
    using addMinutes_add [OF Cons.prems(2), of "tr + ?et" x] tr0 et0 that dep by (simp add: ac_simps)
  have tot: "tf = addMinutes t (totalTime stops)"
    using tf shift [OF totalTime_nonneg [OF nn]] stops by (simp add: ac_simps)
  have "\<forall>k < length stops. arrivalTime (stops ! k) = addMinutes t (totalTime (take k stops) + travelTime (stops ! k))"
  proof (intro allI impI)
    fix k
    assume k: "k < length stops"
    show "arrivalTime (stops ! k) = addMinutes t (totalTime (take k stops) + travelTime (stops ! k))"
    proof (cases k)
      case 0
      then show ?thesis using stops arr by simp
    next
      case (Suc j)
      with k stops have j: "j < length rest" by simp
      have "0 \<le> totalTime (take j rest)"
        using nn by (intro totalTime_nonneg) (auto dest: in_set_takeD)
      moreover have "0 \<le> travelTime (rest ! j)"
        using nn nth_mem [OF j] by blast
      ultimately have nnj: "0 \<le> totalTime (take j rest) + travelTime (rest ! j)"
        by simp
      show ?thesis
        using arrs j shift [OF nnj] stops Suc by (simp add: ac_simps)
    qed
  qed
  moreover have "\<forall>s \<in> set stops. 0 \<le> estimatedTime s \<and> 0 \<le> travelTime s"
    using nn stops tr0 et0 by simp
  ultimately show ?case using tot by blast
qed

lemma itinerary_shape:
  assumes "itinerary p prev i t vs rs = Inr (stops, tf, rs')"
  shows "map order stops = [Suc i..<Suc i + length vs] \<and> map vid stops = map vid vs
         \<and> map vtype stops = map vtype vs \<and> map coordinates stops = map coordinates vs"
  using assms
proof (induction vs arbitrary: prev i t rs stops tf rs')
  case Nil
  then show ?case by simp
next
  case (Cons v vs)
  from itinerary_Cons_shape [where i = i and prev = prev and v = v and rs = rs and t = t and p = p and vs = vs]
  obtain arrival aff tr rs3 where
    eq: "itinerary p prev i t (v # vs) rs =
       (case generateVenueNotes v (focus p) of
          Inl e \<Rightarrow> Inl e
        | Inr n \<Rightarrow>
            (case itinerary p (Some v) (Suc i)
                    (addMinutes arrival (getEstimatedTime (vtype v) (pace p) v (duration p))) vs rs3 of
               Inl e \<Rightarrow> Inl e
             | Inr (rest, tf, rs4) \<Rightarrow>
                 Inr (mk_stop v aff (Suc i) arrival (getEstimatedTime (vtype v) (pace p) v (duration p))
                        tr n # rest, tf, rs4)))"
    by blast
  obtain n rest where
    rest: "itinerary p (Some v) (Suc i)
             (addMinutes arrival (getEstimatedTime (vtype v) (pace p) v (duration p))) vs rs3 = Inr (rest, tf, rs')"
    and stops: "stops = mk_stop v aff (Suc i) arrival (getEstimatedTime (vtype v) (pace p) v (duration p)) tr n # rest"
    using Cons.prems eq by (auto split: sum.splits prod.splits)
  from Cons.IH [OF rest] stops show ?case
    by (simp add: upt_rec)
qed


lemma itinerary_bounds:
  assumes "itinerary p prev i t vs rs = Inr (stops, tf, rs')" and "i = 0 \<or> prev \<noteq> None"
  shows "(\<forall>s \<in> set stops. 17 \<le> estimatedTime s \<and> estimatedTime s \<le> 247
                         \<and> 0 \<le> travelTime s \<and> travelTime s \<le> 30)
         \<and> (i = 0 \<and> stops \<noteq> [] \<longrightarrow> travelTime (hd stops) = 0)"
  using assms
proof (induction vs arbitrary: prev i t rs stops tf rs')
  case Nil
  then show ?case by simp
next
  case (Cons v vs)
  let ?et = "getEstimatedTime (vtype v) (pace p) v (duration p)"
  from itinerary_Cons_shape [where i = i and prev = prev and v = v and rs = rs and t = t and p = p and vs = vs]
  obtain arrival rs1 aff rs2 tr rs3 where
    C: "(if i = 0 then (0, rs2) else getEstimatedTravelTime prev (Some v) rs2) = (tr, rs3)"
    and eq: "itinerary p prev i t (v # vs) rs =
       (case generateVenueNotes v (focus p) of
          Inl e \<Rightarrow> Inl e
        | Inr n \<Rightarrow>
            (case itinerary p (Some v) (Suc i) (addMinutes arrival ?et) vs rs3 of
               Inl e \<Rightarrow> Inl e
             | Inr (rest, tf, rs4) \<Rightarrow> Inr (mk_stop v aff (Suc i) arrival ?et tr n # rest, tf, rs4)))"
    by blast
  obtain n rest where
    rest: "itinerary p (Some v) (Suc i) (addMinutes arrival ?et) vs rs3 = Inr (rest, tf, rs')"
    and stops: "stops = mk_stop v aff (Suc i) arrival ?et tr n # rest"
    using Cons.prems(1) eq by (auto split: sum.splits prod.splits)
  have tr: "0 \<le> tr \<and> tr \<le> 30 \<and> (i = 0 \<longrightarrow> tr = 0)"
  proof (cases "i = 0")
    case True
    then show ?thesis using C by simp
  next
    case False
    with Cons.prems(2) obtain pv where "prev = Some pv" by auto
    with C False travel_some_bounds [of pv v rs2] show ?thesis by auto
  qed
  have et: "17 \<le> ?et \<and> ?et \<le> 247"
    by (rule getEstimatedTime_range)
  from Cons.IH [OF rest] have "\<forall>s \<in> set rest. 17 \<le> estimatedTime s \<and> estimatedTime s \<le> 247
                         \<and> 0 \<le> travelTime s \<and> travelTime s \<le> 30"
    by simp
  with tr et stops show ?case by simp
qed

subsection \<open>Properties of the timing engine\<close>

text \<open>
  C10: on a well-formed 12-hour clock and a non-negative number of minutes, \<open>addMinutes\<close>
  returns the one well-formed clock whose minute of the day is the old one plus the minutes,
  modulo a day.
\<close>

lemma addMinutes_correct:
  assumes "clock_ok t" and "0 \<le> m"
  shows "(clock_ok c \<and> minute_of_day c = (minute_of_day t + m) mod 1440) \<longleftrightarrow> c = addMinutes t m"
  using addMinutes_spec [OF assms] clock_eqI by metis

lemma addMinutes_correct_witness:
  "clock_ok \<lparr>hours = 11, mins = 30, pm = False\<rparr> \<and> (0::int) \<le> 45
   \<and> addMinutes \<lparr>hours = 11, mins = 30, pm = False\<rparr> 45 = \<lparr>hours = 12, mins = 15, pm = True\<rparr>"
proof -
  have ok: "clock_ok \<lparr>hours = 11, mins = 30, pm = False\<rparr>" by (simp add: clock_ok_def)
  have "clock_ok \<lparr>hours = 12, mins = 15, pm = True\<rparr>
        \<and> minute_of_day \<lparr>hours = 12, mins = 15, pm = True\<rparr>
          = (minute_of_day \<lparr>hours = 11, mins = 30, pm = False\<rparr> + 45) mod 1440"
    by (simp add: clock_ok_def minute_of_day_def)
  then have "\<lparr>hours = 12, mins = 15, pm = True\<rparr> = addMinutes \<lparr>hours = 11, mins = 30, pm = False\<rparr> 45"
    using addMinutes_correct [OF ok, of 45] by simp
  with ok show ?thesis by simp
qed

text \<open>
  Between two given venues the leg time is the scaled planar distance plus 10,
  capped at 30, and never draws a random number; it is at least 10, so the lower clamp to
  5 minutes never takes effect.
\<close>

lemma getEstimatedTravelTime_known:
  "getEstimatedTravelTime (Some f) (Some t) rs =
     (min 30 (round (planar_dist (case coordinates f of Some c \<Rightarrow> c | None \<Rightarrow> default_coord)
                                 (case coordinates t of Some c \<Rightarrow> c | None \<Rightarrow> default_coord) * 1000) + 10), rs)
   \<and> 10 \<le> fst (getEstimatedTravelTime (Some f) (Some t) rs)"
proof -
  have "0 \<le> round (planar_dist (case coordinates f of Some c \<Rightarrow> c | None \<Rightarrow> default_coord)
                                 (case coordinates t of Some c \<Rightarrow> c | None \<Rightarrow> default_coord) * 1000)"
    by (rule round_nonneg) simp
  then show ?thesis by (simp add: travel_some)
qed

text \<open>
  A venue without coordinates is placed at the default coordinate rather than
  given a random travel time: next to a venue at that coordinate the leg is always exactly
  10 minutes.
\<close>

lemma travel_missing_coords:
  assumes "coordinates f = None" and "coordinates t = Some default_coord"
  shows "getEstimatedTravelTime (Some f) (Some t) rs = (10, rs)"
  using assms by (simp add: travel_some round_def)

lemma travel_missing_coords_witness:
  "getEstimatedTravelTime (Some (untyped_venue\<lparr>coordinates := None\<rparr>))
     (Some ((sample_venue 1 ''Museum'' 90 default_coord))) (sconst 0.5) = (10, sconst 0.5)"
  by (rule travel_missing_coords) (simp_all add: sample_venue_def)

text \<open>
  Every dwell time lies between 17 and 247 minutes, and both bounds are reached
  (a shop visited quickly on a quick tour; a popular, keyword-rich art museum visited
  thoroughly on a full day).
\<close>

lemma getEstimatedTime_tight:
  "17 \<le> getEstimatedTime ty p v d \<and> getEstimatedTime ty p v d \<le> 247
   \<and> getEstimatedTime (Some ''Shop'') PQuick (sample_venue 1 ''Shop'' 50 (0, 0)) DQuick = 17
   \<and> getEstimatedTime (Some ''Art Museum'') Thorough
       ((sample_venue 2 ''Art Museum'' 90 (0, 0))\<lparr>qloo_data := Some \<lparr>popularity = Some 1, qkeywords = Some [''a'', ''b'', ''c'', ''d'']\<rparr>\<rparr>)
       FullDay = 247"
  using getEstimatedTime_range [of ty p v d]
  by (simp add: getEstimatedTime_def baseTimes_def paceMultipliers_def durationMultipliers_def
                sample_venue_def round_def floor_eq_iff)

text \<open>
  The popularity jitter keeps an affinity inside [70, 95] within that range, moves
  it by less than 10 points, and leaves a well-behaved random source well-behaved.
\<close>

lemma adjustAffinity_range:
  assumes "rng_ok rs" and "70 \<le> affinity v" and "affinity v \<le> 95"
  shows "70 \<le> fst (adjustAffinity v rs) \<and> fst (adjustAffinity v rs) \<le> 95
         \<and> \<bar>fst (adjustAffinity v rs) - affinity v\<bar> < 10 \<and> rng_ok (snd (adjustAffinity v rs))"
proof -
  have r: "0 \<le> shd rs \<and> shd rs < 1 \<and> rng_ok (stl rs)"
    using random_draw_ok [OF assms(1)] by (simp add: random_draw_def)
  then have f10: "0 \<le> \<lfloor>shd rs * 10\<rfloor> \<and> \<lfloor>shd rs * 10\<rfloor> \<le> 9"
    and f8: "0 \<le> \<lfloor>shd rs * 8\<rfloor> \<and> \<lfloor>shd rs * 8\<rfloor> \<le> 7"
    by (simp_all add: floor_le_iff)
  from f10 have f10': "0 \<le> real_of_int \<lfloor>shd rs * 10\<rfloor> \<and> real_of_int \<lfloor>shd rs * 10\<rfloor> \<le> 9"
    by linarith
  from f8 have f8': "0 \<le> real_of_int \<lfloor>shd rs * 8\<rfloor> \<and> real_of_int \<lfloor>shd rs * 8\<rfloor> \<le> 7"
    by linarith
  show ?thesis
    using assms r
    apply (auto simp: adjustAffinity_def random_draw_def split: option.splits)
    apply (insert f10' f8', linarith)+
    done
qed

lemma adjustAffinity_range_witness:
  "rng_ok (sconst 0.5) \<and> 70 \<le> affinity (qloo_venue 90 0.5) \<and> affinity (qloo_venue 90 0.5) \<le> 95
   \<and> fst (adjustAffinity (qloo_venue 90 0.5) (sconst 0.5)) = 94"
  using adjustAffinity_range [of "sconst 0.5" "qloo_venue 90 0.5"]
  by (simp add: qloo_venue_def sample_venue_def adjustAffinity_def random_draw_def)

text \<open>
  Outside [70, 95] the jitter can move an affinity the wrong way: the raising
  branch lowers an affinity of 98 to 95, and the lowering branch raises one of 50 to 70.
\<close>

lemma adjustAffinity_wrong_direction:
  assumes "rng_ok rs"
  shows "fst (adjustAffinity (qloo_venue 98 0.5) rs) = 95 \<and> fst (adjustAffinity (qloo_venue 50 1) rs) = 70"
proof -
  have r: "0 \<le> shd rs \<and> shd rs < 1"
    using random_draw_ok [OF assms] by (simp add: random_draw_def)
  then have "0 \<le> \<lfloor>shd rs * 8\<rfloor> \<and> 0 \<le> \<lfloor>shd rs * 10\<rfloor>"
    by simp
  then have fl: "0 \<le> real_of_int \<lfloor>shd rs * 8\<rfloor> \<and> 0 \<le> real_of_int \<lfloor>shd rs * 10\<rfloor>"
    by linarith
  show ?thesis
    by (simp add: adjustAffinity_def qloo_venue_def sample_venue_def random_draw_def) (insert fl, linarith)
qed

lemma adjustAffinity_wrong_direction_witness:
  "fst (adjustAffinity (qloo_venue 98 0.5) (sconst 0)) = 95"
  using adjustAffinity_wrong_direction [of "sconst 0"] by simp

text \<open>
  The itinerary of a single Museum stop at a relaxed pace on a half day, starting at
  10:00 AM, stays 90 minutes, arrives at 10:00 AM with no travel, and ends at 11:30 AM.
\<close>

lemma itinerary_museum_scenario:
  "itinerary default_prefs None 0 \<lparr>hours = 10, mins = 0, pm = False\<rparr> [sample_venue 1 ''Museum'' 90 (0, 0)] rs
   = Inr ([mk_stop (sample_venue 1 ''Museum'' 90 (0, 0)) 90 1 \<lparr>hours = 10, mins = 0, pm = False\<rparr> 90 0
             ''Experience the unique atmosphere of this museum''],
          \<lparr>hours = 11, mins = 30, pm = False\<rparr>, rs)"
proof -
  let ?v = "sample_venue (Suc 0) ''Museum'' 90 (0, 0)"
  have low: "js_lower ''Museum'' = ''museum''"
    by (simp add: js_lower_def js_lower_char_def char_of_def bit_0)
  have n: "generateVenueNotes ?v Diverse = Inr ''Experience the unique atmosphere of this museum''"
    by (simp add: generateVenueNotes_def focus_note_def sample_venue_def low)
  have e: "getEstimatedTime (vtype ?v) Relaxed ?v HalfDay = 90"
    by (simp add: getEstimatedTime_def sample_venue_def baseTimes_def paceMultipliers_def
                  durationMultipliers_def)
  have a: "adjustAffinity ?v rs = (90, rs)"
    by (simp add: adjustAffinity_def sample_venue_def)
  have c: "addMinutes \<lparr>hours = 10, mins = 0, pm = False\<rparr> 90 = \<lparr>hours = 11, mins = 30, pm = False\<rparr>"
    by (simp add: addMinutes_def js_rem_def)
  show ?thesis
    by (simp add: default_prefs_def n e a c Let_def)
qed

end
