(* ===== verification/Planner.thy ===== *)
theory Planner
  imports Selection Optimizer Timing
begin

text \<open>
  The route planner component (\<open>src/culturis-studio/src/components/RoutePlanner.js\<close>):
  \<open>generateRoute\<close> composes the selection, the order optimiser and the itinerary into the
  \<open>plannedRoute\<close> object, and the component's state (\<open>step\<close>, \<open>venueCount\<close>,
  \<open>plannedRoute\<close>, \<open>isGenerating\<close>, \<open>routePreferences\<close>) changes through the handlers
  of the three views \<open>select\<close>, \<open>plan\<close> and \<open>refine\<close>. The three \<open>getCurrentTime()\<close>
  reads of \<open>generateRoute\<close> (the running clock, \<open>startTime\<close> and the base of
  \<open>endTime\<close>) are separate inputs.
\<close>

subsection \<open>The planned route\<close>

record planned_route =
  rvenues :: "route_stop list"
  totalDuration :: int
  startTime :: clock
  endTime :: clock
  preferences :: route_prefs

text \<open>
  The body of the \<open>try\<close> block of \<open>generateRoute\<close>: select, order, annotate, total.
  A thrown \<open>TypeError\<close> is the \<open>Inl\<close> result; the random numbers drawn before it are
  not tracked.
\<close>

definition generateRoute :: "venue list \<Rightarrow> nat \<Rightarrow> route_prefs \<Rightarrow> clock \<Rightarrow> clock \<Rightarrow> clock \<Rightarrow> rng
                              \<Rightarrow> js_error + planned_route \<times> rng" where
  "generateRoute venues venueCount routePreferences now1 now2 now3 rs =
     (case selectVenues venues venueCount routePreferences of
        Inl e \<Rightarrow> Inl e
      | Inr selectedVenues \<Rightarrow>
          (case optimizeVenueOrder selectedVenues routePreferences rs of
             (optimizedVenues, rs1) \<Rightarrow>
               (case itinerary routePreferences None 0 now1 optimizedVenues rs1 of
                  Inl e \<Rightarrow> Inl e
                | Inr (routeWithDetails, _, rs2) \<Rightarrow>
                    (let total = totalTime routeWithDetails
                     in Inr (\<lparr>rvenues = routeWithDetails, totalDuration = total, startTime = now2,
                               endTime = addMinutes now3 total, preferences = routePreferences\<rparr>, rs2)))))"

subsection \<open>The component state\<close>

datatype planner_view = SelectStep | PlanStep | RefineStep

text \<open>What the component hands to its parent: \<open>onUpdateRoute(plannedRoute)\<close> and \<open>onClose()\<close>.\<close>

datatype planner_output = UpdateRoute planned_route | CloseRequest

record planner_state =
  step :: planner_view
  venueCount :: nat
  plannedRoute :: "planned_route option"
  isGenerating :: bool
  routePreferences :: route_prefs
  rand :: rng
  outbox :: "planner_output list"

text \<open>The initial state: \<open>plannedRoute\<close> starts as \<open>[]\<close>, which has no \<open>venues\<close>: \<open>None\<close>.\<close>

definition init_planner :: "rng \<Rightarrow> planner_state" where
  "init_planner rs =
     \<lparr>step = SelectStep, venueCount = 3, plannedRoute = None, isGenerating = False,
      routePreferences = default_prefs, rand = rs, outbox = []\<rparr>"

text \<open>
  The user's actions. A control exists only in the view that renders it, so an action
  outside its view leaves the state unchanged. \<open>GenerateClick\<close> carries the three clock
  reads of \<open>getCurrentTime()\<close>.
\<close>

datatype planner_event =
    ChooseCount nat
  | SetDuration duration_opt
  | SetPace pace_opt
  | SetFocus focus_opt
  | GenerateClick clock clock clock
  | ModifyPlan
  | UseRoute
  | CloseClick

text \<open>
  \<open>generateRoute\<close> as a handler: on success the route is stored and the view moves to
  \<open>plan\<close>; a thrown error is caught and logged, and the view stays. \<open>isGenerating\<close> is
  reset in the \<open>finally\<close> block; the body awaits nothing, so no render sees it set.
\<close>

definition planner_generate :: "venue list \<Rightarrow> clock \<Rightarrow> clock \<Rightarrow> clock \<Rightarrow> planner_state \<Rightarrow> planner_state" where
  "planner_generate venues now1 now2 now3 s =
     (case generateRoute venues (venueCount s) (routePreferences s) now1 now2 now3 (rand s) of
        Inl _ \<Rightarrow> s\<lparr>isGenerating := False\<rparr>
      | Inr (r, rs') \<Rightarrow> s\<lparr>plannedRoute := Some r, step := PlanStep, rand := rs', isGenerating := False\<rparr>)"

fun planner_step :: "venue list \<Rightarrow> planner_event \<Rightarrow> planner_state \<Rightarrow> planner_state" where
  "planner_step venues (ChooseCount n) s =
     (if step s = SelectStep \<and> n \<in> set [2, 3, 4, 5, 6] then s\<lparr>venueCount := n\<rparr> else s)"
| "planner_step venues (SetDuration d) s =
     (if step s = SelectStep then s\<lparr>routePreferences := (routePreferences s)\<lparr>duration := d\<rparr>\<rparr> else s)"
| "planner_step venues (SetPace p) s =
     (if step s = SelectStep then s\<lparr>routePreferences := (routePreferences s)\<lparr>pace := p\<rparr>\<rparr> else s)"
| "planner_step venues (SetFocus f) s =
     (if step s = SelectStep then s\<lparr>routePreferences := (routePreferences s)\<lparr>focus := f\<rparr>\<rparr> else s)"
| "planner_step venues (GenerateClick now1 now2 now3) s =
     (if step s = SelectStep \<and> \<not> isGenerating s then planner_generate venues now1 now2 now3 s else s)"
| "planner_step venues ModifyPlan s =
     (if step s = PlanStep \<and> plannedRoute s \<noteq> None then s\<lparr>step := SelectStep\<rparr> else s)"
| "planner_step venues UseRoute s =
     (case plannedRoute s of
        Some r \<Rightarrow> if step s = PlanStep then s\<lparr>outbox := outbox s @ [UpdateRoute r], step := RefineStep\<rparr> else s
      | None \<Rightarrow> s)"
| "planner_step venues CloseClick s = s\<lparr>outbox := outbox s @ [CloseRequest]\<rparr>"

text \<open>
  The clock reads an event may carry: \<open>toLocaleTimeString\<close> prints a well-formed clock.
\<close>

fun event_ok :: "planner_event \<Rightarrow> bool" where
  "event_ok (GenerateClick now1 now2 now3) \<longleftrightarrow> clock_ok now1 \<and> clock_ok now2 \<and> clock_ok now3"
| "event_ok _ \<longleftrightarrow> True"

inductive planner_reach :: "venue list \<Rightarrow> rng \<Rightarrow> planner_state \<Rightarrow> bool" for venues rs0 where
  init: "planner_reach venues rs0 (init_planner rs0)"
| step: "planner_reach venues rs0 s \<Longrightarrow> event_ok e \<Longrightarrow> planner_reach venues rs0 (planner_step venues e s)"

text \<open>
  A route as the plan view shows it: stops numbered from 1, at most seven of them, the
  first without travel, every clock well formed, dwell and leg times inside their ranges,
  and the total the sum of the stops' minutes.
\<close>

definition route_ok :: "planned_route \<Rightarrow> bool" where
  "route_ok r \<longleftrightarrow>
     map order (rvenues r) = [1..<Suc (length (rvenues r))] \<and> length (rvenues r) \<le> 7
     \<and> totalDuration r = totalTime (rvenues r) \<and> 0 \<le> totalDuration r
     \<and> clock_ok (startTime r) \<and> clock_ok (endTime r)
     \<and> (rvenues r \<noteq> [] \<longrightarrow> travelTime (hd (rvenues r)) = 0)
     \<and> (\<forall>s \<in> set (rvenues r). clock_ok (arrivalTime s)
          \<and> 17 \<le> estimatedTime s \<and> estimatedTime s \<le> 247 \<and> 0 \<le> travelTime s \<and> travelTime s \<le> 30)"

definition planner_inv :: "planner_state \<Rightarrow> bool" where
  "planner_inv s \<longleftrightarrow>
     2 \<le> venueCount s \<and> venueCount s \<le> 6 \<and> \<not> isGenerating s
     \<and> (step s \<noteq> SelectStep \<longrightarrow> plannedRoute s \<noteq> None)
     \<and> (\<forall>r. plannedRoute s = Some r \<longrightarrow> route_ok r)
     \<and> (\<forall>r. UpdateRoute r \<in> set (outbox s) \<longrightarrow> route_ok r)"

text \<open>Scenario inputs: a 10:00 AM clock read and two typed venues at one place.\<close>

definition ten_am :: clock where
  "ten_am = \<lparr>hours = 10, mins = 0, pm = False\<rparr>"

definition two_pool :: "venue list" where
  "two_pool = [sample_venue 1 ''Museum'' 90 (0, 0), sample_venue 2 ''Cafe'' 80 (0, 0)]"

subsection \<open>Lemmas\<close>

lemma generateRoute_Inr:
  assumes "generateRoute vs n prefs now1 now2 now3 rs = Inr (r, rs')"
  obtains sel ord rs1 tf where "selectVenues vs n prefs = Inr sel"
    and "optimizeVenueOrder sel prefs rs = (ord, rs1)"
    and "itinerary prefs None 0 now1 ord rs1 = Inr (rvenues r, tf, rs')"
    and "totalDuration r = totalTime (rvenues r)" and "startTime r = now2"
    and "endTime r = addMinutes now3 (totalDuration r)" and "preferences r = prefs"
  using assms
  by (auto simp: generateRoute_def Let_def split: sum.splits prod.splits)

lemma generateRoute_isl:
  "isl (generateRoute vs n prefs now1 now2 now3 rs)
   \<longleftrightarrow> isl (selectVenues vs n prefs) \<or> (\<exists>v \<in> set (projr (selectVenues vs n prefs)). vtype v = None)"
proof (cases "selectVenues vs n prefs")
  case (Inl e)
  then show ?thesis by (simp add: generateRoute_def)
next
  case (Inr sel)
  obtain ord rs1 where o: "optimizeVenueOrder sel prefs rs = (ord, rs1)"
    by (metis prod.exhaust)
  have "set ord = set sel"
    using optimizeVenueOrder_mset [of sel prefs rs] o by (metis fst_conv mset_eq_setD)
  then have "isl (itinerary prefs None 0 now1 ord rs1) \<longleftrightarrow> (\<exists>v \<in> set sel. vtype v = None)"
    by (simp add: itinerary_throws_iff)
  then show ?thesis
    using Inr o by (auto simp: generateRoute_def Let_def split: sum.splits prod.splits)
qed

lemma adjustedVenueCount_le7: "n \<le> 6 \<Longrightarrow> adjustedVenueCount d n m \<le> 7"
  by (cases d) (simp_all add: adjustedVenueCount_def)

lemma generateRoute_ok:
  assumes gen: "generateRoute vs n prefs now1 now2 now3 rs = Inr (r, rs')"
    and n: "n \<le> 6" and c1: "clock_ok now1" and c2: "clock_ok now2" and c3: "clock_ok now3"
  shows "route_ok r"
proof -
  obtain sel ord rs1 tf where sel: "selectVenues vs n prefs = Inr sel"
    and o: "optimizeVenueOrder sel prefs rs = (ord, rs1)"
    and it: "itinerary prefs None 0 now1 ord rs1 = Inr (rvenues r, tf, rs')"
    and tot: "totalDuration r = totalTime (rvenues r)" and st: "startTime r = now2"
    and en: "endTime r = addMinutes now3 (totalDuration r)"
    using gen by (rule generateRoute_Inr)
  have len_ord: "length ord = length sel"
    using optimizeVenueOrder_mset [of sel prefs rs] o by (metis fst_conv size_mset)
  have "length sel \<le> 7"
    using sel adjustedVenueCount_le7 [OF n, of "duration prefs" "length vs"]
    by (auto simp: selectVenues_spec split: if_splits)
  moreover have shape: "map order (rvenues r) = [1..<Suc (length (rvenues r))]"
    using itinerary_shape [OF it] by (metis length_map length_upt diff_Suc_Suc minus_nat.diff_0 One_nat_def plus_1_eq_Suc)
  moreover have len: "length (rvenues r) = length ord"
    using itinerary_shape [OF it] by (metis length_map)
  moreover have clk: "tf = addMinutes now1 (totalTime (rvenues r))
         \<and> (\<forall>k < length (rvenues r). arrivalTime (rvenues r ! k)
              = addMinutes now1 (totalTime (take k (rvenues r)) + travelTime (rvenues r ! k)))
         \<and> (\<forall>s \<in> set (rvenues r). 0 \<le> estimatedTime s \<and> 0 \<le> travelTime s)"
    using itinerary_clock [OF it c1] by simp
  moreover have bnd: "(\<forall>s \<in> set (rvenues r). 17 \<le> estimatedTime s \<and> estimatedTime s \<le> 247
                         \<and> 0 \<le> travelTime s \<and> travelTime s \<le> 30)
         \<and> (rvenues r \<noteq> [] \<longrightarrow> travelTime (hd (rvenues r)) = 0)"
    using itinerary_bounds [OF it] by simp
  moreover have nn: "0 \<le> totalTime (rvenues r)"
    using clk totalTime_nonneg by blast
  moreover have "\<forall>s \<in> set (rvenues r). clock_ok (arrivalTime s)"
  proof
    fix s
    assume "s \<in> set (rvenues r)"
    then obtain k where k: "k < length (rvenues r)" and s: "s = rvenues r ! k"
      by (metis in_set_conv_nth)
    have "0 \<le> totalTime (take k (rvenues r))"
      using clk by (intro totalTime_nonneg) (auto dest: in_set_takeD)
    moreover have "0 \<le> travelTime s"
      using clk s k nth_mem by blast
    ultimately show "clock_ok (arrivalTime s)"
      using clk k s addMinutes_ok [OF c1] by simp
  qed
  ultimately show ?thesis
    using len_ord tot st en c2 addMinutes_ok [OF c3] by (simp add: route_ok_def)
qed

lemma planner_generate_inv:
  assumes inv: "planner_inv s" and "clock_ok now1" "clock_ok now2" "clock_ok now3"
  shows "planner_inv (planner_generate vs now1 now2 now3 s)"
proof (cases "generateRoute vs (venueCount s) (routePreferences s) now1 now2 now3 (rand s)")
  case (Inl e)
  then show ?thesis using inv by (simp add: planner_generate_def planner_inv_def)
next
  case (Inr x)
  obtain r rs' where x: "x = (r, rs')" by (cases x)
  have "venueCount s \<le> 6" using inv by (simp add: planner_inv_def)
  from generateRoute_ok [OF Inr [unfolded x] this assms(2-4)] have "route_ok r" .
  then show ?thesis
    using inv Inr x by (auto simp: planner_generate_def planner_inv_def)
qed

lemma planner_step_inv:
  assumes inv: "planner_inv s" and ev: "event_ok e"
  shows "planner_inv (planner_step vs e s)"
proof (cases e)
  case (GenerateClick now1 now2 now3)
  then show ?thesis
    using inv ev planner_generate_inv [OF inv, of now1 now2 now3 vs] by simp
next
  case UseRoute
  then show ?thesis
    using inv by (auto simp: planner_inv_def split: option.splits)
qed (use inv in \<open>auto simp: planner_inv_def\<close>)



text \<open>
  C5: a generated route visits exactly the selected venues, once each, numbered 1 to n,
  and starts at the highest-weighted one.
\<close>

lemma generateRoute_stops:
  assumes "generateRoute vs n prefs now1 now2 now3 rs = Inr (r, rs')"
  shows "\<exists>sel. selectVenues vs n prefs = Inr sel
           \<and> mset (map vid (rvenues r)) = mset (map vid sel)
           \<and> map order (rvenues r) = [1..<Suc (length sel)]
           \<and> (sel \<noteq> [] \<longrightarrow> vid (hd (rvenues r)) = vid (hd sel))"
proof -
  obtain sel ord rs1 tf where sel: "selectVenues vs n prefs = Inr sel"
    and o: "optimizeVenueOrder sel prefs rs = (ord, rs1)"
    and it: "itinerary prefs None 0 now1 ord rs1 = Inr (rvenues r, tf, rs')"
    using assms by (rule generateRoute_Inr)
  have om: "mset ord = mset sel" and oh: "sel \<noteq> [] \<longrightarrow> hd ord = hd sel"
    using optimizeVenueOrder_mset [of sel prefs rs] o by simp_all
  have sh: "map order (rvenues r) = [1..<Suc (length ord)]" "map vid (rvenues r) = map vid ord"
    using itinerary_shape [OF it] by simp_all
  have "mset (map vid (rvenues r)) = mset (map vid sel)"
    using sh(2) om by (metis mset_map)
  moreover have "length ord = length sel"
    using om by (metis size_mset)
  moreover have "sel \<noteq> [] \<longrightarrow> vid (hd (rvenues r)) = vid (hd sel)"
    using sh(2) oh \<open>length ord = length sel\<close> by (metis hd_map length_0_conv list.map_disc_iff)
  ultimately show ?thesis
    using sel sh(1) by auto
qed

lemma generateRoute_length:
  assumes "generateRoute vs n prefs now1 now2 now3 rs = Inr (r, rs')"
  shows "\<exists>sel. selectVenues vs n prefs = Inr sel \<and> length (rvenues r) = length sel"
proof -
  obtain sel ord rs1 tf where sel: "selectVenues vs n prefs = Inr sel"
    and o: "optimizeVenueOrder sel prefs rs = (ord, rs1)"
    and it: "itinerary prefs None 0 now1 ord rs1 = Inr (rvenues r, tf, rs')"
    using assms by (rule generateRoute_Inr)
  have "length ord = length sel"
    using optimizeVenueOrder_mset [of sel prefs rs] o by (metis fst_conv size_mset)
  moreover have "length (rvenues r) = length ord"
    using itinerary_shape [OF it] by (metis length_map)
  ultimately show ?thesis using sel by simp
qed

lemma two_pool_select: "selectVenues two_pool 2 default_prefs = Inr two_pool"
  by (simp add: selectVenues_spec two_pool_def sample_venue_def default_prefs_def
                spec_weight_def adjustedVenueCount_def)

lemma two_pool_generates:
  obtains r rs' where "generateRoute two_pool 2 default_prefs now1 now2 now3 rs = Inr (r, rs')"
    and "length (rvenues r) = 2"
proof -
  have "\<not> isl (generateRoute two_pool 2 default_prefs now1 now2 now3 rs)"
    using generateRoute_isl two_pool_select by (simp add: two_pool_def sample_venue_def)
  then obtain r rs' where g: "generateRoute two_pool 2 default_prefs now1 now2 now3 rs = Inr (r, rs')"
    by (cases "generateRoute two_pool 2 default_prefs now1 now2 now3 rs") auto
  moreover have "length (rvenues r) = 2"
    using generateRoute_length [OF g] two_pool_select by (simp add: two_pool_def)
  ultimately show ?thesis by (rule that)
qed

lemma ten_am_ok [simp]: "clock_ok ten_am"
  by (simp add: ten_am_def clock_ok_def)

lemma generateRoute_stops_witness:
  "\<exists>r rs'. generateRoute two_pool 2 default_prefs ten_am ten_am ten_am (sconst 0) = Inr (r, rs')
     \<and> map order (rvenues r) = [1, 2] \<and> mset (map vid (rvenues r)) = {#1, 2#} \<and> vid (hd (rvenues r)) = 1"
proof -
  obtain r rs' where g: "generateRoute two_pool 2 default_prefs ten_am ten_am ten_am (sconst 0) = Inr (r, rs')"
    by (rule two_pool_generates)
  from generateRoute_stops [OF g] two_pool_select g show ?thesis
    by (auto simp: two_pool_def sample_venue_def)
qed

lemma totalTime_append: "totalTime (xs @ ys) = totalTime xs + totalTime ys"
  by (simp add: totalTime_def)

text \<open>
  C6: each stop's arrival is the first clock read plus the minutes of all earlier stops
  and of its own leg; the first stop arrives at that read with no travel; the start time
  is the second read and the end time the third read plus the total.
\<close>

lemma generateRoute_timeline:
  assumes gen: "generateRoute vs n prefs now1 now2 now3 rs = Inr (r, rs')" and c1: "clock_ok now1"
  shows "startTime r = now2 \<and> totalDuration r = totalTime (rvenues r)
         \<and> endTime r = addMinutes now3 (totalDuration r)
         \<and> (\<forall>k < length (rvenues r). arrivalTime (rvenues r ! k)
               = addMinutes now1 (totalTime (take k (rvenues r)) + travelTime (rvenues r ! k)))
         \<and> (rvenues r \<noteq> [] \<longrightarrow> arrivalTime (hd (rvenues r)) = now1 \<and> travelTime (hd (rvenues r)) = 0)"
proof -
  obtain sel ord rs1 tf where it: "itinerary prefs None 0 now1 ord rs1 = Inr (rvenues r, tf, rs')"
    and "totalDuration r = totalTime (rvenues r)" and "startTime r = now2"
    and "endTime r = addMinutes now3 (totalDuration r)"
    using gen by (rule generateRoute_Inr)
  moreover have arr: "\<forall>k < length (rvenues r). arrivalTime (rvenues r ! k)
               = addMinutes now1 (totalTime (take k (rvenues r)) + travelTime (rvenues r ! k))"
    using itinerary_clock [OF it c1] by simp
  moreover have t0: "rvenues r \<noteq> [] \<longrightarrow> travelTime (hd (rvenues r)) = 0"
    using itinerary_bounds [OF it] by simp
  moreover have "rvenues r \<noteq> [] \<longrightarrow> arrivalTime (hd (rvenues r)) = now1"
    using arr t0 addMinutes_0 [OF c1] by (auto simp: hd_conv_nth)
  ultimately show ?thesis by blast
qed

text \<open>
  When the clock reads agree, the route ends when the visit of its last stop ends.
\<close>

lemma generateRoute_end_departure:
  assumes gen: "generateRoute vs n prefs now1 now2 now3 rs = Inr (r, rs')" and c1: "clock_ok now1"
    and same: "now3 = now1" and ne: "rvenues r \<noteq> []"
  shows "endTime r = addMinutes (arrivalTime (last (rvenues r))) (estimatedTime (last (rvenues r)))"
proof -
  obtain sel ord rs1 tf where it: "itinerary prefs None 0 now1 ord rs1 = Inr (rvenues r, tf, rs')"
    and tot: "totalDuration r = totalTime (rvenues r)" and en: "endTime r = addMinutes now3 (totalDuration r)"
    using gen by (rule generateRoute_Inr)
  let ?st = "rvenues r" and ?k = "length (rvenues r) - 1"
  have k: "?k < length ?st" and lst: "last ?st = ?st ! ?k"
    using ne by (simp_all add: last_conv_nth)
  have clk: "\<forall>k < length ?st. arrivalTime (?st ! k) = addMinutes now1 (totalTime (take k ?st) + travelTime (?st ! k))"
    and nn: "\<forall>s \<in> set ?st. 0 \<le> estimatedTime s \<and> 0 \<le> travelTime s"
    using itinerary_clock [OF it c1] by simp_all
  have split: "?st = take ?k ?st @ [last ?st]"
    using ne by (metis append_butlast_last_id butlast_conv_take)
  have "0 \<le> totalTime (take ?k ?st)"
    using nn by (intro totalTime_nonneg) (auto dest: in_set_takeD)
  moreover have "0 \<le> travelTime (last ?st)"
    using nn ne by simp
  ultimately have a0: "0 \<le> totalTime (take ?k ?st) + travelTime (last ?st)"
    by simp
  have e0: "0 \<le> estimatedTime (last ?st)"
    using nn ne by simp
  have "addMinutes (arrivalTime (last ?st)) (estimatedTime (last ?st))
        = addMinutes now1 (totalTime (take ?k ?st) + travelTime (last ?st) + estimatedTime (last ?st))"
    using clk k lst addMinutes_add [OF c1 a0 e0] by simp
  also have "totalTime (take ?k ?st) + travelTime (last ?st) + estimatedTime (last ?st) = totalTime ?st"
    by (subst (3) split) (simp add: totalTime_append)
  finally show ?thesis
    using en tot same by simp
qed

lemma generateRoute_timeline_witness:
  "\<exists>r rs'. generateRoute two_pool 2 default_prefs ten_am
              \<lparr>hours = 10, mins = 1, pm = False\<rparr> ten_am (sconst 0) = Inr (r, rs')
     \<and> clock_ok ten_am \<and> arrivalTime (hd (rvenues r)) = ten_am \<and> travelTime (hd (rvenues r)) = 0
     \<and> startTime r = \<lparr>hours = 10, mins = 1, pm = False\<rparr>"
proof -
  obtain r rs' where g: "generateRoute two_pool 2 default_prefs ten_am
              \<lparr>hours = 10, mins = 1, pm = False\<rparr> ten_am (sconst 0) = Inr (r, rs')"
    and l: "length (rvenues r) = 2"
    by (rule two_pool_generates)
  from generateRoute_timeline [OF g ten_am_ok] l g show ?thesis
    by auto
qed

lemma generateRoute_end_departure_witness:
  "\<exists>r rs'. generateRoute two_pool 2 default_prefs ten_am ten_am ten_am (sconst 0) = Inr (r, rs')
     \<and> rvenues r \<noteq> []
     \<and> endTime r = addMinutes (arrivalTime (last (rvenues r))) (estimatedTime (last (rvenues r)))"
proof -
  obtain r rs' where g: "generateRoute two_pool 2 default_prefs ten_am ten_am ten_am (sconst 0) = Inr (r, rs')"
    and l: "length (rvenues r) = 2"
    by (rule two_pool_generates)
  have ne: "rvenues r \<noteq> []" using l by auto
  from generateRoute_end_departure [OF g ten_am_ok refl ne] g ne show ?thesis
    by auto
qed

text \<open>
  C12: generating a route fails exactly when the pool has an untyped venue and either the
  focus is not diverse or that venue is among the selected ones.
\<close>

lemma generateRoute_throws:
  "isl (generateRoute vs n prefs now1 now2 now3 rs)
   \<longleftrightarrow> (\<exists>v \<in> set vs. vtype v = None
          \<and> (focus prefs \<noteq> Diverse
             \<or> v \<in> set (take (adjustedVenueCount (duration prefs) n (length vs))
                            (sort_key (\<lambda>v. - spec_weight (focus prefs) v) vs))))"
proof -
  have mem: "v \<in> set (take k (sort_key f vs)) \<Longrightarrow> v \<in> set vs" for v k and f :: "venue \<Rightarrow> real"
    by (metis in_set_takeD set_sort)
  show ?thesis
    by (auto simp: generateRoute_isl selectVenues_spec intro: mem)
qed

lemma generateRoute_throws_witness:
  "isl (generateRoute [untyped_venue, sample_venue 1 ''Museum'' 90 (0, 0)] 2 default_prefs
          ten_am ten_am ten_am (sconst 0))"
  by (simp add: generateRoute_throws untyped_venue_def sample_venue_def default_prefs_def
                adjustedVenueCount_def spec_weight_def)

end
