(* ===== verification/JsSort.thy ===== *)
theory JsSort
  imports Prelude
begin

text \<open>
  \<open>Array.prototype.sort(comparefn)\<close> as the V8 engine runs it on arrays of fewer
  than 64 elements (every array the sources sort with a comparator is a route or a pool
  of at most 15 venues): TimSort finds the run at the start of the array (ascending, or
  strictly descending and then reversed) and extends it to the whole array by binary
  insertion. A comparator may throw; a comparator result is a number whose sign orders
  the pair. Main results: the sort is a permutation for every comparator, never throws
  when the comparator does not throw on the array's elements, and for a comparator
  \<open>(a, b) => key(a) - key(b)\<close> it returns the stable sort by \<open>key\<close>.
\<close>

type_synonym 'a js_cmp = "'a \<Rightarrow> 'a \<Rightarrow> js_error + real"

fun run_scan :: "'a js_cmp \<Rightarrow> bool \<Rightarrow> 'a \<Rightarrow> 'a list \<Rightarrow> js_error + nat" where
  "run_scan cmp desc prev [] = Inr 0"
| "run_scan cmp desc prev (x # xs) =
     (case cmp x prev of
        Inl e \<Rightarrow> Inl e
      | Inr order \<Rightarrow>
          if (if desc then order \<ge> 0 else order < 0) then Inr 0
          else (case run_scan cmp desc x xs of Inl e \<Rightarrow> Inl e | Inr k \<Rightarrow> Inr (Suc k)))"

definition count_and_make_run :: "'a js_cmp \<Rightarrow> 'a list \<Rightarrow> js_error + 'a list \<times> nat" where
  "count_and_make_run cmp xs =
     (case xs of
        x0 # x1 # rest \<Rightarrow>
          (case cmp x1 x0 of
             Inl e \<Rightarrow> Inl e
           | Inr order \<Rightarrow>
               (case run_scan cmp (order < 0) x1 rest of
                  Inl e \<Rightarrow> Inl e
                | Inr k \<Rightarrow>
                    Inr (if order < 0 then rev (take (k + 2) xs) @ drop (k + 2) xs else xs, k + 2)))
      | _ \<Rightarrow> Inr (xs, length xs))"

function bsearch :: "'a js_cmp \<Rightarrow> 'a \<Rightarrow> 'a list \<Rightarrow> nat \<Rightarrow> nat \<Rightarrow> js_error + nat" where
  "bsearch cmp pivot a left right =
     (if left < right then
        (case cmp pivot (a ! (left + (right - left) div 2)) of
           Inl e \<Rightarrow> Inl e
         | Inr order \<Rightarrow>
             if order < 0 then bsearch cmp pivot a left (left + (right - left) div 2)
             else bsearch cmp pivot a (Suc (left + (right - left) div 2)) right)
      else Inr left)"
  by pat_completeness auto
termination
  by (relation "measure (\<lambda>(_, _, _, left, right). right - left)") auto

declare bsearch.simps [simp del]

fun binary_insertion :: "'a js_cmp \<Rightarrow> 'a list \<Rightarrow> 'a list \<Rightarrow> js_error + 'a list" where
  "binary_insertion cmp srt [] = Inr srt"
| "binary_insertion cmp srt (pivot # rest) =
     (case bsearch cmp pivot srt 0 (length srt) of
        Inl e \<Rightarrow> Inl e
      | Inr left \<Rightarrow> binary_insertion cmp (take left srt @ pivot # drop left srt) rest)"

definition js_sort :: "'a js_cmp \<Rightarrow> 'a list \<Rightarrow> js_error + 'a list" where
  "js_sort cmp xs =
     (if length xs < 2 then Inr xs
      else case count_and_make_run cmp xs of
             Inl e \<Rightarrow> Inl e
           | Inr (ys, n) \<Rightarrow> binary_insertion cmp (take n ys) (drop n ys))"

definition key_cmp :: "('a \<Rightarrow> real) \<Rightarrow> 'a js_cmp" where
  "key_cmp key a b = Inr (key a - key b)"

subsection \<open>Permutation\<close>

lemma mset_take_drop [simp]: "mset (take k xs) + mset (drop k xs) = mset xs"
  by (metis append_take_drop_id mset_append)

lemma bsearch_bound:
  "bsearch cmp p a l r = Inr i \<Longrightarrow> l \<le> r \<Longrightarrow> l \<le> i \<and> i \<le> r"
proof (induction cmp p a l r rule: bsearch.induct)
  case (1 cmp pivot a left right)
  show ?case
  proof (cases "left < right")
    case True
    have "left + (right - left) div 2 < right"
      using True by presburger
    then show ?thesis
      using True "1.prems" "1.IH"
      by (auto simp: bsearch.simps [of cmp pivot a left right] split: sum.splits if_splits)
  next
    case False
    then have "bsearch cmp pivot a left right = Inr left"
      by (simp add: bsearch.simps)
    then show ?thesis using "1.prems" by simp
  qed
qed

lemma binary_insertion_mset:
  "binary_insertion cmp s xs = Inr ys \<Longrightarrow> mset ys = mset s + mset xs"
proof (induction xs arbitrary: s)
  case Nil
  then show ?case by simp
next
  case (Cons p xs)
  then obtain i where b: "bsearch cmp p s 0 (length s) = Inr i"
    and r: "binary_insertion cmp (take i s @ p # drop i s) xs = Inr ys"
    by (auto split: sum.splits)
  have "mset (take i s @ p # drop i s) = mset s + {#p#}"
    by (metis add_mset_add_single append_take_drop_id mset.simps(2) mset_append union_mset_add_mset_right)
  with Cons.IH [OF r] show ?case by simp
qed

lemma count_and_make_run_mset:
  "count_and_make_run cmp xs = Inr (ys, n) \<Longrightarrow> mset ys = mset xs"
proof -
  assume a: "count_and_make_run cmp xs = Inr (ys, n)"
  have "mset (rev (take k xs) @ drop k xs) = mset xs" for k
    by (metis append_take_drop_id mset_append mset_rev)
  with a show ?thesis
    by (auto simp: count_and_make_run_def split: list.splits sum.splits if_splits)
qed

lemma js_sort_mset:
  "js_sort cmp xs = Inr ys \<Longrightarrow> mset ys = mset xs"
proof -
  assume a: "js_sort cmp xs = Inr ys"
  show ?thesis
  proof (cases "length xs < 2")
    case True
    then show ?thesis using a by (simp add: js_sort_def)
  next
    case False
    then obtain zs n where c: "count_and_make_run cmp xs = Inr (zs, n)"
      and b: "binary_insertion cmp (take n zs) (drop n zs) = Inr ys"
      using a by (auto simp: js_sort_def split: sum.splits)
    have "mset ys = mset (take n zs) + mset (drop n zs)"
      by (rule binary_insertion_mset [OF b])
    also have "\<dots> = mset zs"
      by (metis append_take_drop_id mset_append)
    finally show ?thesis using count_and_make_run_mset [OF c] by simp
  qed
qed

subsection \<open>Key comparators: the engine sort is the stable sort\<close>

definition sort_inv :: "('a \<Rightarrow> real) \<Rightarrow> 'a list \<Rightarrow> 'a list \<Rightarrow> bool" where
  "sort_inv key s p \<longleftrightarrow> sorted (map key s) \<and> mset s = mset p
     \<and> (\<forall>c. filter (\<lambda>x. c = key x) s = filter (\<lambda>x. c = key x) p)"

lemma bsearch_key:
  assumes "sorted (map key a)" and "l \<le> r" and "r \<le> length a"
    and "\<forall>i < l. key (a ! i) \<le> key p" and "\<forall>i. r \<le> i \<and> i < length a \<longrightarrow> key p < key (a ! i)"
  shows "\<exists>j. bsearch (key_cmp key) p a l r = Inr j \<and> j \<le> length a
             \<and> (\<forall>i < j. key (a ! i) \<le> key p) \<and> (\<forall>i. j \<le> i \<and> i < length a \<longrightarrow> key p < key (a ! i))"
  using assms
proof (induction "key_cmp key" p a l r rule: bsearch.induct)
  case (1 pivot a left right)
  show ?case
  proof (cases "left < right")
    case False
    then have "bsearch (key_cmp key) pivot a left right = Inr left"
      by (simp add: bsearch.simps)
    with False "1.prems" show ?thesis by auto
  next
    case True
    define mid where "mid = left + (right - left) div 2"
    have mid: "left \<le> mid" "mid < right"
      using True unfolding mid_def by presburger+
    have srt: "key (a ! i) \<le> key (a ! j)" if "i \<le> j" "j < length a" for i j
      using sorted_nth_mono [OF "1.prems"(1), of i j] that by simp
    show ?thesis
    proof (cases "key pivot - key (a ! mid) < 0")
      case lt: True
      have "\<forall>i. mid \<le> i \<and> i < length a \<longrightarrow> key pivot < key (a ! i)"
        using lt srt by fastforce
      then obtain j where j: "bsearch (key_cmp key) pivot a left mid = Inr j \<and> j \<le> length a
             \<and> (\<forall>i < j. key (a ! i) \<le> key pivot) \<and> (\<forall>i. j \<le> i \<and> i < length a \<longrightarrow> key pivot < key (a ! i))"
        using "1.hyps"(1) [OF True, of "key pivot - key (a ! mid)"] "1.prems" mid lt
        unfolding mid_def key_cmp_def by fastforce
      have "bsearch (key_cmp key) pivot a left right = bsearch (key_cmp key) pivot a left mid"
        using True lt by (simp add: bsearch.simps [of _ _ _ left right] key_cmp_def mid_def)
      with j show ?thesis by auto
    next
      case ge: False
      have "\<forall>i < Suc mid. key (a ! i) \<le> key pivot"
      proof (intro allI impI)
        fix i
        assume i: "i < Suc mid"
        show "key (a ! i) \<le> key pivot"
          using srt [of i mid] i mid "1.prems"(3) ge by simp
      qed
      then obtain j where j: "bsearch (key_cmp key) pivot a (Suc mid) right = Inr j \<and> j \<le> length a
             \<and> (\<forall>i < j. key (a ! i) \<le> key pivot) \<and> (\<forall>i. j \<le> i \<and> i < length a \<longrightarrow> key pivot < key (a ! i))"
        using "1.hyps"(2) [OF True, of "key pivot - key (a ! mid)"] "1.prems" mid ge
        unfolding mid_def key_cmp_def by fastforce
      have "bsearch (key_cmp key) pivot a left right = bsearch (key_cmp key) pivot a (Suc mid) right"
        using True ge by (simp add: bsearch.simps [of _ _ _ left right] key_cmp_def mid_def)
      with j show ?thesis by auto
    qed
  qed
qed

lemma insert_at_inv:
  assumes inv: "sort_inv key s p" and j: "j \<le> length s"
    and le: "\<forall>i < j. key (s ! i) \<le> key x" and gt: "\<forall>i. j \<le> i \<and> i < length s \<longrightarrow> key x < key (s ! i)"
  shows "sort_inv key (take j s @ x # drop j s) (p @ [x])"
proof -
  have lo: "\<forall>y \<in> set (take j s). key y \<le> key x"
    using le j by (auto simp: in_set_conv_nth)
  have hi: "\<forall>y \<in> set (drop j s). key x < key y"
    using gt j by (auto simp: in_set_conv_nth)
  have s: "sorted (map key s)" and m: "mset s = mset p"
    and f: "\<forall>c. filter (\<lambda>y. c = key y) s = filter (\<lambda>y. c = key y) p"
    using inv by (simp_all add: sort_inv_def)
  have "sorted (map key (take j s))" "sorted (map key (drop j s))"
    using s by (simp_all add: sorted_wrt_take sorted_wrt_drop take_map [symmetric] drop_map [symmetric])
  moreover have "\<forall>a \<in> set (take j s). \<forall>b \<in> set (drop j s). key a \<le> key b"
    using lo hi by (meson less_imp_le order_trans)
  ultimately have srt: "sorted (map key (take j s @ x # drop j s))"
    using lo hi by (auto simp: sorted_append less_imp_le)
  have ms: "mset (take j s @ x # drop j s) = mset (p @ [x])"
    using m mset_take_drop [of j s] by simp
  have "filter (\<lambda>y. c = key y) (take j s @ x # drop j s) = filter (\<lambda>y. c = key y) (p @ [x])" for c
  proof (cases "c = key x")
    case True
    then have "filter (\<lambda>y. c = key y) (drop j s) = []"
      using hi by (auto simp: filter_empty_conv)
    moreover have "filter (\<lambda>y. c = key y) s = filter (\<lambda>y. c = key y) (take j s) @ filter (\<lambda>y. c = key y) (drop j s)"
      by (metis append_take_drop_id filter_append)
    ultimately show ?thesis
      using True f by simp
  next
    case False
    have "filter (\<lambda>y. c = key y) s = filter (\<lambda>y. c = key y) (take j s) @ filter (\<lambda>y. c = key y) (drop j s)"
      by (metis append_take_drop_id filter_append)
    then show ?thesis
      using False f by simp
  qed
  with srt ms show ?thesis by (simp add: sort_inv_def)
qed

lemma binary_insertion_key:
  "sort_inv key s p \<Longrightarrow> \<exists>ys. binary_insertion (key_cmp key) s xs = Inr ys \<and> sort_inv key ys (p @ xs)"
proof (induction xs arbitrary: s p)
  case Nil
  then show ?case by simp
next
  case (Cons x xs)
  have "sorted (map key s)"
    using Cons.prems by (simp add: sort_inv_def)
  from bsearch_key [OF this, of 0 "length s" x] obtain j where
    b: "bsearch (key_cmp key) x s 0 (length s) = Inr j" and j: "j \<le> length s"
    and le: "\<forall>i < j. key (s ! i) \<le> key x" and gt: "\<forall>i. j \<le> i \<and> i < length s \<longrightarrow> key x < key (s ! i)"
    by auto
  from Cons.IH [OF insert_at_inv [OF Cons.prems j le gt]] b show ?case
    by simp
qed

lemma run_scan_key:
  "\<exists>k. run_scan (key_cmp key) desc prev xs = Inr k \<and> k \<le> length xs
       \<and> (desc \<longrightarrow> sorted_wrt (>) (map key (prev # take k xs)))
       \<and> (\<not> desc \<longrightarrow> sorted (map key (prev # take k xs)))"
proof (induction xs arbitrary: prev)
  case Nil
  then show ?case by simp
next
  case (Cons x xs)
  from Cons.IH [of x] obtain k where k: "run_scan (key_cmp key) desc x xs = Inr k" "k \<le> length xs"
    and d: "desc \<longrightarrow> sorted_wrt (>) (map key (x # take k xs))"
    and a: "\<not> desc \<longrightarrow> sorted (map key (x # take k xs))"
    by blast
  show ?case
  proof (cases "if desc then key x - key prev \<ge> 0 else key x - key prev < 0")
    case True
    then show ?thesis by (cases desc) (simp_all add: key_cmp_def)
  next
    case False
    then have "run_scan (key_cmp key) desc prev (x # xs) = Inr (Suc k)"
      using k by (simp add: key_cmp_def)
    moreover have "desc \<longrightarrow> sorted_wrt (>) (map key (prev # take (Suc k) (x # xs)))"
      using d False by (auto split: if_splits)
    moreover have "\<not> desc \<longrightarrow> sorted (map key (prev # take (Suc k) (x # xs)))"
      using a False by (auto split: if_splits)
    ultimately show ?thesis
      using k by auto
  qed
qed

lemma filter_key_distinct:
  "distinct (map key l) \<Longrightarrow> rev (filter (\<lambda>x. c = key x) l) = filter (\<lambda>x. c = key x) l"
proof (induction l)
  case Nil
  then show ?case by simp
next
  case (Cons a l)
  show ?case
  proof (cases "c = key a")
    case True
    with Cons.prems have "filter (\<lambda>x. c = key x) l = []"
      by (auto simp: filter_empty_conv image_iff)
    with True show ?thesis by simp
  next
    case False
    with Cons show ?thesis by simp
  qed
qed

lemma strict_desc_rev_inv:
  assumes "sorted_wrt (>) (map key l)"
  shows "sort_inv key (rev l) l"
proof -
  have "sorted_wrt (<) (rev (map key l))"
    using assms by (simp add: sorted_wrt_rev)
  then have "sorted (rev (map key l))" and "distinct (rev (map key l))"
    by (simp_all add: strict_sorted_iff)
  then show ?thesis
    by (simp add: sort_inv_def rev_map [symmetric] rev_filter [symmetric] filter_key_distinct)
qed

lemma count_and_make_run_key:
  assumes "2 \<le> length xs"
  shows "\<exists>ys n. count_and_make_run (key_cmp key) xs = Inr (ys, n) \<and> n \<le> length xs
                \<and> sort_inv key (take n ys) (take n xs) \<and> drop n ys = drop n xs"
proof -
  obtain x0 x1 rest where xs: "xs = x0 # x1 # rest"
    using assms by (cases xs rule: remdups_adj.cases) auto
  let ?desc = "key x1 - key x0 < 0"
  from run_scan_key [of key ?desc x1 rest] obtain k where
    k: "run_scan (key_cmp key) ?desc x1 rest = Inr k" "k \<le> length rest"
    and d: "?desc \<longrightarrow> sorted_wrt (>) (map key (x1 # take k rest))"
    and a: "\<not> ?desc \<longrightarrow> sorted (map key (x1 # take k rest))"
    by blast
  have tk: "take (k + 2) xs = x0 # x1 # take k rest"
    by (simp add: xs)
  show ?thesis
  proof (cases ?desc)
    case True
    have "sorted_wrt (>) (map key (take (k + 2) xs))"
      using d True unfolding tk by auto
    then have "sort_inv key (rev (take (k + 2) xs)) (take (k + 2) xs)"
      by (rule strict_desc_rev_inv)
    moreover have "count_and_make_run (key_cmp key) xs = Inr (rev (take (k + 2) xs) @ drop (k + 2) xs, k + 2)"
      using True k unfolding xs by (simp add: count_and_make_run_def key_cmp_def)
    ultimately show ?thesis
      using k by (simp add: xs)
  next
    case False
    have "sorted (map key (take (k + 2) xs))"
      using a False unfolding tk by auto
    then have "sort_inv key (take (k + 2) xs) (take (k + 2) xs)"
      by (simp add: sort_inv_def)
    moreover have "count_and_make_run (key_cmp key) xs = Inr (xs, k + 2)"
      using False k unfolding xs by (simp add: count_and_make_run_def key_cmp_def)
    ultimately show ?thesis
      using k by (simp add: xs)
  qed
qed

lemma js_sort_key:
  "js_sort (key_cmp key) xs = Inr (sort_key key xs)"
proof (cases "length xs < 2")
  case True
  then have "xs = [] \<or> (\<exists>x. xs = [x])"
    by (cases xs rule: remdups_adj.cases) auto
  then show ?thesis
    using True by (auto simp: js_sort_def)
next
  case False
  then obtain ys n where c: "count_and_make_run (key_cmp key) xs = Inr (ys, n)"
    and inv: "sort_inv key (take n ys) (take n xs)" and dr: "drop n ys = drop n xs"
    using count_and_make_run_key [of xs key] by auto
  from binary_insertion_key [OF inv, of "drop n ys"] obtain zs where
    b: "binary_insertion (key_cmp key) (take n ys) (drop n ys) = Inr zs"
    and zs: "sort_inv key zs (take n xs @ drop n ys)"
    by blast
  from zs dr have zi: "sort_inv key zs xs"
    by simp
  have "sort_key key xs = zs"
  proof (rule properties_for_sort_key)
    show "mset zs = mset xs" and "sorted (map key zs)"
      using zi by (simp_all add: sort_inv_def)
    show "filter (\<lambda>x. key k = key x) zs = filter (\<lambda>x. key k = key x) xs" for k
      using zi by (simp add: sort_inv_def)
  qed
  with c b False show ?thesis
    by (simp add: js_sort_def)
qed


subsection \<open>Comparators that do not throw\<close>

lemma run_scan_total:
  "prev \<in> S \<Longrightarrow> set xs \<subseteq> S \<Longrightarrow> \<forall>a \<in> S. \<forall>b \<in> S. \<not> isl (cmp a b) \<Longrightarrow> \<not> isl (run_scan cmp desc prev xs)"
proof (induction xs arbitrary: prev)
  case Nil
  then show ?case by simp
next
  case (Cons x xs)
  have x: "x \<in> S" "set xs \<subseteq> S"
    using Cons.prems by auto
  have ih: "\<not> isl (run_scan cmp desc x xs)"
    using Cons.IH [OF x Cons.prems(3)] .
  obtain ord where "cmp x prev = Inr ord"
    using Cons.prems x by (metis isl_def sum.exhaust)
  with ih show ?case
    by (cases "run_scan cmp desc x xs") auto
qed

lemma bsearch_total:
  "p \<in> S \<Longrightarrow> set a \<subseteq> S \<Longrightarrow> r \<le> length a \<Longrightarrow> \<forall>x \<in> S. \<forall>y \<in> S. \<not> isl (cmp x y)
   \<Longrightarrow> \<not> isl (bsearch cmp p a l r)"
proof (induction cmp p a l r rule: bsearch.induct)
  case (1 cmp pivot a left right)
  show ?case
  proof (cases "left < right")
    case True
    have m: "left + (right - left) div 2 < length a"
      using True "1.prems"(3) by presburger
    then have "a ! (left + (right - left) div 2) \<in> S"
      using "1.prems"(2) nth_mem by blast
    then obtain ord where ord: "cmp pivot (a ! (left + (right - left) div 2)) = Inr ord"
      using "1.prems"(1,4) by (metis isl_def sum.exhaust)
    have "left + (right - left) div 2 \<le> length a"
      using m by simp
    then show ?thesis
      using "1.IH" [OF True ord] "1.prems" True ord
      by (simp add: bsearch.simps [of cmp pivot a left right])
  next
    case False
    then show ?thesis by (simp add: bsearch.simps)
  qed
qed

lemma binary_insertion_total:
  "set s \<subseteq> S \<Longrightarrow> set xs \<subseteq> S \<Longrightarrow> \<forall>x \<in> S. \<forall>y \<in> S. \<not> isl (cmp x y)
   \<Longrightarrow> \<not> isl (binary_insertion cmp s xs)"
proof (induction xs arbitrary: s)
  case Nil
  then show ?case by simp
next
  case (Cons p xs)
  then have "\<not> isl (bsearch cmp p s 0 (length s))"
    by (intro bsearch_total) auto
  then obtain j where j: "bsearch cmp p s 0 (length s) = Inr j"
    by (metis isl_def sum.exhaust)
  have "set (take j s @ p # drop j s) \<subseteq> S"
    using Cons.prems by (auto dest: in_set_takeD in_set_dropD)
  with Cons.IH [OF this] Cons.prems j show ?case
    by simp
qed

lemma js_sort_total:
  assumes "\<forall>a \<in> set xs. \<forall>b \<in> set xs. \<not> isl (cmp a b)"
  shows "\<not> isl (js_sort cmp xs)"
proof (cases "length xs < 2")
  case True
  then show ?thesis by (simp add: js_sort_def)
next
  case False
  then obtain x0 x1 rest where xs: "xs = x0 # x1 # rest"
    by (cases xs rule: remdups_adj.cases) auto
  then obtain ord where ord: "cmp x1 x0 = Inr ord"
    using assms by (metis isl_def list.set_intros(1) list.set_intros(2) sum.exhaust)
  have "\<not> isl (run_scan cmp (ord < 0) x1 rest)"
    using assms xs by (intro run_scan_total [where S = "set xs"]) auto
  then obtain k where k: "run_scan cmp (ord < 0) x1 rest = Inr k"
    by (metis isl_def sum.exhaust)
  then obtain ys n where c: "count_and_make_run cmp xs = Inr (ys, n)"
    using ord xs by (simp add: count_and_make_run_def)
  have sy: "set ys = set xs"
    using count_and_make_run_mset [OF c] by (metis set_mset_mset)
  have "\<not> isl (binary_insertion cmp (take n ys) (drop n ys))"
    using assms sy by (intro binary_insertion_total [where S = "set xs"]) (auto dest: in_set_takeD in_set_dropD)
  with c False show ?thesis
    by (simp add: js_sort_def)
qed

end
