(* ===== verification/Overlay.thy ===== *)
theory Overlay
  imports JsSort Timing
begin

text \<open>
  The route overlay of the 2D map (\<open>src/culturis-studio/src/components/RouteOverlay.js\<close>):
  the overlay's own re-ordering \<open>calculateOptimalRoute\<close>, the Haversine
  \<open>calculateDistance\<close>, \<open>calculateRouteMetrics\<close>, the markers of
  \<open>createVenueMarkers\<close>, and the \<open>useEffect\<close> that recomputes all of them and stores
  them in the component's state. \<open>Simple2DMapView.js\<close> hands it the planned route's stops
  with \<open>coords\<close> copied from \<open>coordinates\<close>.
\<close>

record overlay_venue =
  oname :: string
  oaffinity :: real
  coords :: "coord option"

text \<open>\<open>currentRoute.venues.map(v => ({...v, coords: v.coordinates}))\<close>.\<close>

definition overlay_of_stop :: "route_stop \<Rightarrow> overlay_venue" where
  "overlay_of_stop s = \<lparr>oname = vname s, oaffinity = affinity s, coords = coordinates s\<rparr>"

subsection \<open>Re-ordering\<close>

text \<open>
  The centre of the list, computed inside the comparator: \<open>v.coords[0]\<close> of a venue
  without coordinates throws.
\<close>

definition overlay_center :: "overlay_venue list \<Rightarrow> js_error + coord" where
  "overlay_center venueList =
     (case js_map (\<lambda>v. case coords v of None \<Rightarrow> Inl TypeError | Some c \<Rightarrow> Inr c) venueList of
        Inl e \<Rightarrow> Inl e
      | Inr cs \<Rightarrow> Inr (sum_list (map fst cs) / real (length venueList),
                     sum_list (map snd cs) / real (length venueList)))"

text \<open>
  The comparator: affinity first when the affinities differ by more than 5, else the
  distance from the centre.
\<close>

definition overlay_cmp :: "overlay_venue list \<Rightarrow> overlay_venue js_cmp" where
  "overlay_cmp venueList a b =
     (if \<bar>oaffinity a - oaffinity b\<bar> > 5 then Inr (oaffinity b - oaffinity a)
      else (case overlay_center venueList of
              Inl e \<Rightarrow> Inl e
            | Inr c \<Rightarrow>
                (case (coords a, coords b) of
                   (Some p, Some q) \<Rightarrow> Inr (planar_dist c p - planar_dist c q)
                 | _ \<Rightarrow> Inl TypeError)))"

definition calculateOptimalRoute :: "overlay_venue list \<Rightarrow> js_error + overlay_venue list" where
  "calculateOptimalRoute venueList =
     (if length venueList < 2 then Inr venueList
      else (case js_sort (overlay_cmp venueList) venueList of
              Inl e \<Rightarrow> Inl e
            | Inr sortedVenues \<Rightarrow> Inr (take (min 6 (length sortedVenues)) sortedVenues)))"

text \<open>
  Three placed venues on one parallel: \<open>A\<close> nearest the centre of the three,
  \<open>C\<close> farthest, with affinities 82, 86 and 90.
\<close>

definition venue_A :: overlay_venue where
  "venue_A = \<lparr>oname = ''A'', oaffinity = 82, coords = Some (0, 0)\<rparr>"

definition venue_B :: overlay_venue where
  "venue_B = \<lparr>oname = ''B'', oaffinity = 86, coords = Some (-2, 0)\<rparr>"

definition venue_C :: overlay_venue where
  "venue_C = \<lparr>oname = ''C'', oaffinity = 90, coords = Some (5, 0)\<rparr>"

subsection \<open>Distance and metrics\<close>

text \<open>\<open>calculateDistance(coord1, coord2)\<close>: the Haversine distance in metres.\<close>

definition haversine :: "coord \<Rightarrow> coord \<Rightarrow> real" where
  "haversine coord1 coord2 =
     (let R = 6371000;
          phi1 = fst coord1 * pi / 180;
          phi2 = fst coord2 * pi / 180;
          dPhi = (fst coord2 - fst coord1) * pi / 180;
          dLambda = (snd coord2 - snd coord1) * pi / 180;
          a = sin (dPhi / 2) * sin (dPhi / 2) + cos phi1 * cos phi2 * sin (dLambda / 2) * sin (dLambda / 2);
          c = 2 * js_atan2 (sqrt a) (sqrt (1 - a))
      in R * c)"

text \<open>The quantity \<open>a\<close> of the formula, in radians, for the analysis of \<open>haversine\<close>.\<close>

definition haversine_a :: "real \<Rightarrow> real \<Rightarrow> real \<Rightarrow> real" where
  "haversine_a p q u = sin ((q - p) / 2) * sin ((q - p) / 2) + cos p * cos q * sin u * sin u"

text \<open>The \<open>for\<close> loop of \<open>calculateRouteMetrics\<close> over consecutive stops.\<close>

function distance_loop :: "overlay_venue list \<Rightarrow> nat \<Rightarrow> real \<Rightarrow> js_error + real" where
  "distance_loop routeVenues i totalDistance =
     (if i < length routeVenues - 1 then
        (case (coords (routeVenues ! i), coords (routeVenues ! Suc i)) of
           (Some p, Some q) \<Rightarrow> distance_loop routeVenues (Suc i) (totalDistance + haversine p q)
         | _ \<Rightarrow> Inl TypeError)
      else Inr totalDistance)"
  by pat_completeness auto
termination
  by (relation "measure (\<lambda>(rv, i, _). length rv - i)") auto

declare distance_loop.simps [simp del]

definition calculateRouteMetrics :: "overlay_venue list \<Rightarrow> js_error + real \<times> real" where
  "calculateRouteMetrics routeVenues =
     (if length routeVenues < 2 then Inr (0, 0)
      else (case distance_loop routeVenues 0 0 of
              Inl e \<Rightarrow> Inl e
            | Inr totalDistance \<Rightarrow>
                (let walkingTime = totalDistance / 1000 / 5 * 60;
                     venueTime = real (length routeVenues) * 15
                 in Inr (totalDistance, walkingTime + venueTime))))"

text \<open>The reference: the sum of the legs between consecutive coordinates.\<close>

fun legs_distance :: "coord list \<Rightarrow> real" where
  "legs_distance (p # q # rest) = haversine p q + legs_distance (q # rest)"
| "legs_distance _ = 0"

subsection \<open>Markers\<close>

datatype marker_kind = StartMarker | EndMarker | Waypoint

record overlay_marker =
  mpos :: "coord option"
  mkind :: marker_kind
  mnumber :: nat
  mposition :: string

text \<open>
  \<open>createVenueMarkers\<close>: the marker's badge shows \<open>index + 1\<close>, its popup
  \<open>Start\<close>, \<open>End\<close> or \<open>Stop ${index}\<close>.
\<close>

definition venue_marker :: "nat \<Rightarrow> nat \<Rightarrow> overlay_venue \<Rightarrow> overlay_marker" where
  "venue_marker n index venue =
     (let isStart = (index = 0); isEnd = (index = n - 1)
      in \<lparr>mpos = coords venue,
          mkind = (if isStart then StartMarker else if isEnd then EndMarker else Waypoint),
          mnumber = index + 1,
          mposition = (if isStart then ''Start'' else if isEnd then ''End'' else ''Stop '' @ nat_str index)\<rparr>)"

definition createVenueMarkers :: "overlay_venue list \<Rightarrow> overlay_marker list" where
  "createVenueMarkers routeVenues =
     map (\<lambda>(index, v). venue_marker (length routeVenues) index v) (enumerate 0 routeVenues)"

subsection \<open>The component state and its effect\<close>

text \<open>
  The state hooks and layer refs. A state value that is an array carries an
  allocation tag: React compares state with \<open>Object.is\<close>, so a freshly built array is a
  new value even when its contents are equal. \<open>alloc\<close> is the next tag.
\<close>

record overlay_state =
  oroute :: "(nat \<times> overlay_venue list) option"
  routeDistance :: real
  routeTime :: real
  routeLayer :: "coord option list option"
  markersLayer :: "overlay_marker list option"
  routeReports :: "(overlay_venue list \<times> real \<times> real) list"
  alloc :: nat

definition overlay_init :: overlay_state where
  "overlay_init =
     \<lparr>oroute = None, routeDistance = 0, routeTime = 0, routeLayer = None, markersLayer = None,
      routeReports = [], alloc = 0\<rparr>"

text \<open>
  The first \<open>useEffect\<close>: clear everything for fewer than two venues; otherwise
  re-order, measure, store, draw the polyline and markers, and report through
  \<open>onRouteCalculated\<close>. An exception escapes the effect.
\<close>

definition overlay_effect :: "overlay_venue list \<Rightarrow> overlay_state \<Rightarrow> js_error + overlay_state" where
  "overlay_effect venues s =
     (if length venues < 2 then Inr (s\<lparr>oroute := None, routeLayer := None, markersLayer := None\<rparr>)
      else (case calculateOptimalRoute venues of
              Inl e \<Rightarrow> Inl e
            | Inr optimizedVenues \<Rightarrow>
                (case calculateRouteMetrics optimizedVenues of
                   Inl e \<Rightarrow> Inl e
                 | Inr (distance, time) \<Rightarrow>
                     Inr (s\<lparr>oroute := Some (alloc s, optimizedVenues), routeDistance := distance,
                            routeTime := time,
                            routeLayer := (if length optimizedVenues < 2 then routeLayer s
                                           else Some (map coords optimizedVenues)),
                            markersLayer := Some (createVenueMarkers optimizedVenues),
                            routeReports := routeReports s @ [(optimizedVenues, distance, time)],
                            alloc := Suc (alloc s)\<rparr>))))"

text \<open>
  A state update re-renders the component when a hook's new value is not
  \<open>Object.is\<close>-equal to the old one.
\<close>

definition overlay_rerenders :: "overlay_state \<Rightarrow> overlay_state \<Rightarrow> bool" where
  "overlay_rerenders s s' \<longleftrightarrow>
     oroute s \<noteq> oroute s' \<or> routeDistance s \<noteq> routeDistance s' \<or> routeTime s \<noteq> routeTime s'"

text \<open>Every allocation tag held in the state was handed out before \<open>alloc\<close>.\<close>

definition overlay_tags_ok :: "overlay_state \<Rightarrow> bool" where
  "overlay_tags_ok s \<longleftrightarrow> (case oroute s of None \<Rightarrow> True | Some (i, _) \<Rightarrow> i < alloc s)"

text \<open>
  The effect's dependency list holds \<open>calculateOptimalRoute\<close> and the other helpers,
  which are new closures on every render, so the effect runs after every render.
  \<open>overlay_renders n\<close> is the state after \<open>n\<close> render-and-effect rounds.
\<close>

fun overlay_renders :: "nat \<Rightarrow> overlay_venue list \<Rightarrow> overlay_state \<Rightarrow> js_error + overlay_state" where
  "overlay_renders 0 venues s = Inr s"
| "overlay_renders (Suc n) venues s =
     (case overlay_effect venues s of Inl e \<Rightarrow> Inl e | Inr s' \<Rightarrow> overlay_renders n venues s')"


subsection \<open>Lemmas\<close>

lemma haversine_self [simp]: "haversine c c = 0"
  by (simp add: haversine_def Let_def)

lemma sin_sq_swap: "sin ((x - y) * c) * sin ((x - y) * c) = sin ((y - x) * c) * sin ((y - x) * (c::real))"
proof -
  have "(x - y) * c = - ((y - x) * c)" by (simp add: algebra_simps)
  then show ?thesis by (simp only: sin_minus)
qed

lemma haversine_commute: "haversine p q = haversine q p"
proof -
  have e1: "(fst q - fst p) * pi / 180 / 2 = (fst q - fst p) * (pi / 360)"
    and e2: "(fst p - fst q) * pi / 180 / 2 = (fst p - fst q) * (pi / 360)"
    and e3: "(snd q - snd p) * pi / 180 / 2 = (snd q - snd p) * (pi / 360)"
    and e4: "(snd p - snd q) * pi / 180 / 2 = (snd p - snd q) * (pi / 360)"
    by simp_all
  show ?thesis
    unfolding haversine_def Let_def e1 e2 e3 e4
    using sin_sq_swap [of "fst q" "fst p" "pi / 360"] sin_sq_swap [of "snd q" "snd p" "pi / 360"]
    by (simp add: ac_simps)
qed

lemma haversine_a_range:
  fixes p q :: real and u :: real
  assumes "- (pi / 2) \<le> p" "p \<le> pi / 2" "- (pi / 2) \<le> q" "q \<le> pi / 2"
  shows "0 \<le> sin ((q - p) / 2) * sin ((q - p) / 2) + cos p * cos q * sin u * sin u
         \<and> sin ((q - p) / 2) * sin ((q - p) / 2) + cos p * cos q * sin u * sin u \<le> 1"
proof -
  let ?s = "sin ((q - p) / 2)"
  have cp: "0 \<le> cos p" and cq: "0 \<le> cos q"
    using assms by (simp_all add: cos_ge_zero)
  have su: "0 \<le> sin u * sin u" "sin u * sin u \<le> 1"
    using abs_sin_le_one [of u] by (simp_all add: abs_le_iff mult_le_one)
    (metis abs_mult_self_eq abs_sin_le_one mult_le_one abs_ge_zero)
  have cc: "0 \<le> cos p * cos q" using cp cq by simp
  have "cos p * cos q = (cos (p - q) + cos (p + q)) / 2"
    by (rule cos_times_cos)
  moreover have "cos (p - q) = 1 - 2 * (?s * ?s)"
  proof -
    have "p - q = 2 * (- ((q - p) / 2))" by (simp add: field_simps)
    then have "cos (p - q) = 1 - 2 * (sin (- ((q - p) / 2)))\<^sup>2"
      by (simp only: cos_double_sin)
    then show ?thesis by (simp add: power2_eq_square)
  qed
  moreover have c1: "cos (p + q) \<le> 1" by (rule cos_le_one)
  ultimately have h: "cos p * cos q = (1 - 2 * (?s * ?s) + cos (p + q)) / 2"
    by simp
  have gen: "A \<le> 1 - S" if "A = (1 - 2 * S + C) / 2" "C \<le> 1" for A S C :: real
    using that by (simp add: field_simps)
  from gen [OF h c1] have "cos p * cos q \<le> 1 - ?s * ?s" .
  moreover have "cos p * cos q * (sin u * sin u) \<le> cos p * cos q"
    using mult_left_le [OF su(2) cc] by simp
  then have "cos p * cos q * sin u * sin u \<le> cos p * cos q"
    by (simp add: mult.assoc)
  moreover have "0 \<le> cos p * cos q * (sin u * sin u)"
    using mult_nonneg_nonneg [OF cc su(1)] .
  then have "0 \<le> cos p * cos q * sin u * sin u"
    by (simp add: mult.assoc)
  ultimately show ?thesis
    by (simp add: add_nonneg_nonneg) 
qed

lemma haversine_eq:
  "haversine c1 c2 =
     6371000 * (2 * js_atan2 (sqrt (haversine_a (fst c1 * pi / 180) (fst c2 * pi / 180) ((snd c2 - snd c1) * pi / 180 / 2)))
                             (sqrt (1 - haversine_a (fst c1 * pi / 180) (fst c2 * pi / 180) ((snd c2 - snd c1) * pi / 180 / 2))))"
proof -
  have e: "(fst c2 - fst c1) * pi / 180 / 2 = (fst c2 * pi / 180 - fst c1 * pi / 180) / 2"
    by (simp add: field_simps)
  show ?thesis
    unfolding haversine_def haversine_a_def Let_def e by (rule refl)
qed

lemma lat_radians:
  assumes "- 90 \<le> x" and "x \<le> (90::real)"
  shows "- (pi / 2) \<le> x * pi / 180 \<and> x * pi / 180 \<le> pi / 2"
proof -
  have "(- 90) * pi \<le> x * pi"
    by (rule mult_right_mono) (use assms in simp_all)
  moreover have "x * pi \<le> 90 * pi"
    by (rule mult_right_mono) (use assms in simp_all)
  ultimately have "(- 90) * pi / 180 \<le> x * pi / 180 \<and> x * pi / 180 \<le> 90 * pi / 180"
    by (simp add: divide_right_mono)
  then show ?thesis by simp
qed

lemma haversine_range:
  assumes "- 90 \<le> fst c1" "fst c1 \<le> 90" "- 90 \<le> fst c2" "fst c2 \<le> 90"
  shows "0 \<le> haversine c1 c2 \<and> haversine c1 c2 \<le> 6371000 * pi"
proof -
  let ?A = "haversine_a (fst c1 * pi / 180) (fst c2 * pi / 180) ((snd c2 - snd c1) * pi / 180 / 2)"
  have "0 \<le> ?A \<and> ?A \<le> 1"
    using haversine_a_range lat_radians [OF assms(1,2)] lat_radians [OF assms(3,4)]
    unfolding haversine_a_def by blast
  then have "0 \<le> js_atan2 (sqrt ?A) (sqrt (1 - ?A)) \<and> js_atan2 (sqrt ?A) (sqrt (1 - ?A)) \<le> pi / 2"
    by (intro js_atan2_nonneg_range) simp_all
  then show ?thesis
    unfolding haversine_eq by simp
qed

lemma haversine_meridian:
  assumes "\<bar>x2 - x1\<bar> < 180"
  shows "haversine (x1, l) (x2, l) = 6371000 * (\<bar>x2 - x1\<bar> * pi / 180)"
proof -
  define t where "t = (x2 * pi / 180 - x1 * pi / 180) / 2"
  have t: "t = (x2 - x1) * (pi / 360)"
    by (simp add: t_def field_simps)
  have t_abs: "\<bar>t\<bar> = \<bar>x2 - x1\<bar> * pi / 360"
    unfolding t abs_mult using pi_gt_zero by simp
  have lt: "\<bar>x2 - x1\<bar> * pi < 180 * pi"
    using assms pi_gt_zero by (rule mult_strict_right_mono)
  have "\<bar>t\<bar> < 180 * pi / 360"
    unfolding t_abs using lt by (rule divide_strict_right_mono) simp
  then have tb: "\<bar>t\<bar> < pi / 2"
    by simp
  have A: "haversine_a (x1 * pi / 180) (x2 * pi / 180) ((l - l) * pi / 180 / 2) = sin t * sin t"
    by (simp add: haversine_a_def t_def)
  have cpos: "0 < cos t"
    using tb by (intro cos_gt_zero_pi) simp_all
  have s1: "sqrt (sin t * sin t) = sin \<bar>t\<bar>"
  proof (cases "0 \<le> t")
    case True
    then have "0 \<le> sin t" using tb by (intro sin_ge_zero) simp_all
    then show ?thesis using True by (simp add: real_sqrt_mult_self)
  next
    case False
    then have "0 \<le> sin (- t)" using tb by (intro sin_ge_zero) simp_all
    then show ?thesis using False by (simp add: real_sqrt_mult_self)
  qed
  have s2: "sqrt (1 - sin t * sin t) = cos \<bar>t\<bar>"
  proof -
    have "1 - sin t * sin t = cos t * cos t"
      using sin_cos_squared_add3 [of t] by linarith
    then show ?thesis using cpos by (simp add: real_sqrt_mult_self abs_of_pos)
  qed
  have cabs: "0 < cos \<bar>t\<bar>" using cpos by simp
  have at: "arctan (tan \<bar>t\<bar>) = \<bar>t\<bar>"
    using tb by (intro arctan_tan) simp_all
  have "js_atan2 (sin \<bar>t\<bar>) (cos \<bar>t\<bar>) = arctan (sin \<bar>t\<bar> / cos \<bar>t\<bar>)"
    by (simp only: js_atan2_def if_P [OF cabs])
  also have "\<dots> = \<bar>t\<bar>"
    using at by (simp only: tan_def)
  finally have j: "js_atan2 (sin \<bar>t\<bar>) (cos \<bar>t\<bar>) = \<bar>t\<bar>" .
  have "haversine (x1, l) (x2, l) = 6371000 * (2 * js_atan2 (sqrt (sin t * sin t)) (sqrt (1 - sin t * sin t)))"
    by (simp only: haversine_eq fst_conv snd_conv A)
  also have "\<dots> = 6371000 * (2 * \<bar>t\<bar>)"
    by (simp only: s1 s2 j)
  finally show ?thesis
    using t_abs by simp
qed

lemma distance_loop_legs:
  assumes "\<forall>v \<in> set rv. coords v \<noteq> None"
  shows "distance_loop rv i t = Inr (t + legs_distance (drop i (map (\<lambda>v. the (coords v)) rv)))"
  using assms
proof (induction rv i t rule: distance_loop.induct)
  case (1 rv i t)
  show ?case
  proof (cases "i < length rv - 1")
    case True
    then have i: "i < length rv" "Suc i < length rv" by simp_all
    obtain p q where p: "coords (rv ! i) = Some p" and q: "coords (rv ! Suc i) = Some q"
      using "1.prems" i nth_mem by blast
    have d: "drop i (map (\<lambda>v. the (coords v)) rv) = p # drop (Suc i) (map (\<lambda>v. the (coords v)) rv)"
      using i p Cons_nth_drop_Suc [of i "map (\<lambda>v. the (coords v)) rv"] by simp
    have d2: "drop (Suc i) (map (\<lambda>v. the (coords v)) rv) = q # drop (Suc (Suc i)) (map (\<lambda>v. the (coords v)) rv)"
      using i q Cons_nth_drop_Suc [of "Suc i" "map (\<lambda>v. the (coords v)) rv"] by simp
    have step: "distance_loop rv i t = distance_loop rv (Suc i) (t + haversine p q)"
      using True p q by (simp add: distance_loop.simps [of rv i t])
    have ih: "distance_loop rv (Suc i) (t + haversine p q)
              = Inr (t + haversine p q + legs_distance (drop (Suc i) (map (\<lambda>v. the (coords v)) rv)))"
      using "1.IH" [OF True] p q "1.prems" by simp
    show ?thesis
      using step ih d d2 by simp
  next
    case False
    then have "length (drop i (map (\<lambda>v. the (coords v)) rv)) \<le> 1" by simp
    then have "legs_distance (drop i (map (\<lambda>v. the (coords v)) rv)) = 0"
      by (cases "drop i (map (\<lambda>v. the (coords v)) rv)" rule: remdups_adj.cases) auto
    with False show ?thesis
      by (simp add: distance_loop.simps [of rv i t])
  qed
qed

lemma overlay_center_total:
  assumes "\<forall>v \<in> set vl. coords v \<noteq> None"
  shows "\<not> isl (overlay_center vl)"
proof -
  have "\<not> isl (js_map (\<lambda>v. case coords v of None \<Rightarrow> Inl TypeError | Some c \<Rightarrow> Inr c) vl)"
    unfolding js_map_isl using assms by (auto split: option.splits)
  then show ?thesis
    by (auto simp: overlay_center_def split: sum.splits)
qed

lemma overlay_cmp_total:
  assumes "\<forall>v \<in> set vl. coords v \<noteq> None" and "a \<in> set vl" and "b \<in> set vl"
  shows "\<not> isl (overlay_cmp vl a b)"
proof -
  obtain c where "overlay_center vl = Inr c"
    using overlay_center_total [OF assms(1)] by (metis isl_def sum.exhaust)
  moreover obtain p q where "coords a = Some p" "coords b = Some q"
    using assms by blast
  ultimately show ?thesis
    by (simp add: overlay_cmp_def)
qed

lemma calculateOptimalRoute_total:
  assumes "\<forall>v \<in> set vl. coords v \<noteq> None"
  shows "\<not> isl (calculateOptimalRoute vl)"
proof -
  have "\<forall>a \<in> set vl. \<forall>b \<in> set vl. \<not> isl (overlay_cmp vl a b)"
    using overlay_cmp_total [OF assms] by blast
  then have "\<not> isl (js_sort (overlay_cmp vl) vl)"
    by (rule js_sort_total)
  then show ?thesis
    by (auto simp: calculateOptimalRoute_def split: sum.splits)
qed

lemma calculateOptimalRoute_shape:
  assumes "calculateOptimalRoute vl = Inr r"
  shows "mset r \<subseteq># mset vl \<and> length r = (if length vl < 2 then length vl else min 6 (length vl))"
proof (cases "length vl < 2")
  case True
  then show ?thesis using assms by (simp add: calculateOptimalRoute_def)
next
  case False
  then obtain srt where s: "js_sort (overlay_cmp vl) vl = Inr srt" and r: "r = take (min 6 (length srt)) srt"
    using assms by (auto simp: calculateOptimalRoute_def split: sum.splits)
  have m: "mset srt = mset vl"
    by (rule js_sort_mset [OF s])
  then have "length srt = length vl"
    by (metis size_mset)
  moreover have "mset r \<subseteq># mset srt"
    unfolding r by (metis append_take_drop_id mset_append mset_subset_eq_add_left)
  ultimately show ?thesis
    using False m r by simp
qed

lemma calculateRouteMetrics_legs:
  assumes "\<forall>v \<in> set rv. coords v \<noteq> None"
  shows "calculateRouteMetrics rv =
           (if length rv < 2 then Inr (0, 0)
            else Inr (legs_distance (map (\<lambda>v. the (coords v)) rv),
                      legs_distance (map (\<lambda>v. the (coords v)) rv) * 3 / 250 + real (length rv) * 15))"
  using distance_loop_legs [OF assms, of 0 0] by (simp add: calculateRouteMetrics_def Let_def)

lemma createVenueMarkers_nth:
  "k < length rv \<Longrightarrow> createVenueMarkers rv ! k = venue_marker (length rv) k (rv ! k)"
  by (simp add: createVenueMarkers_def nth_enumerate_eq)

lemma overlay_effect_step:
  assumes n: "2 \<le> length venues" and c: "\<forall>v \<in> set venues. coords v \<noteq> None"
    and t: "overlay_tags_ok s"
  shows "\<exists>s'. overlay_effect venues s = Inr s' \<and> overlay_rerenders s s' \<and> overlay_tags_ok s'"
proof -
  obtain ov where ov: "calculateOptimalRoute venues = Inr ov"
    using calculateOptimalRoute_total [OF c] by (metis isl_def sum.exhaust)
  have "set ov \<subseteq> set venues"
    using calculateOptimalRoute_shape [OF ov] by (metis mset_subset_eqD set_mset_mset subsetI)
  then have cov: "\<forall>v \<in> set ov. coords v \<noteq> None"
    using c by blast
  obtain d t' where m: "calculateRouteMetrics ov = Inr (d, t')"
    using calculateRouteMetrics_legs [OF cov] by (auto split: if_splits)
  let ?s' = "s\<lparr>oroute := Some (alloc s, ov), routeDistance := d, routeTime := t',
               routeLayer := (if length ov < 2 then routeLayer s else Some (map coords ov)),
               markersLayer := Some (createVenueMarkers ov),
               routeReports := routeReports s @ [(ov, d, t')], alloc := Suc (alloc s)\<rparr>"
  have "overlay_effect venues s = Inr ?s'"
    using n ov m by (simp add: overlay_effect_def)
  moreover have "oroute s \<noteq> Some (alloc s, ov)"
    using t by (auto simp: overlay_tags_ok_def)
  then have "overlay_rerenders s ?s'"
    by (simp add: overlay_rerenders_def)
  moreover have "overlay_tags_ok ?s'"
    by (simp add: overlay_tags_ok_def)
  ultimately show ?thesis by blast
qed

lemma overlay_renders_tags:
  assumes "2 \<le> length venues" and "\<forall>v \<in> set venues. coords v \<noteq> None" and "overlay_tags_ok s"
  shows "\<exists>s'. overlay_renders n venues s = Inr s' \<and> overlay_tags_ok s'"
  using assms(3)
proof (induction n arbitrary: s)
  case 0
  then show ?case by simp
next
  case (Suc n)
  from overlay_effect_step [OF assms(1,2) Suc.prems] obtain s1 where
    e: "overlay_effect venues s = Inr s1" and t1: "overlay_tags_ok s1"
    by blast
  from Suc.IH [OF t1] e show ?case by simp
qed

text \<open>
  C13: the overlay's effect never settles: with two or more placed venues, after any number
  of render-and-effect rounds the effect runs again and stores a fresh route array, so
  React schedules yet another render.
\<close>

lemma overlay_never_settles:
  assumes "2 \<le> length venues" and "\<forall>v \<in> set venues. coords v \<noteq> None"
  shows "\<exists>s s'. overlay_renders n venues overlay_init = Inr s \<and> overlay_effect venues s = Inr s'
                \<and> overlay_rerenders s s'"
proof -
  have "overlay_tags_ok overlay_init"
    by (simp add: overlay_tags_ok_def overlay_init_def)
  from overlay_renders_tags [OF assms this, of n] obtain s where
    r: "overlay_renders n venues overlay_init = Inr s" and t: "overlay_tags_ok s"
    by blast
  from overlay_effect_step [OF assms t] r show ?thesis by blast
qed

lemma overlay_never_settles_witness:
  "\<exists>s s'. overlay_renders 3 [\<lparr>oname = ''A'', oaffinity = 90, coords = Some (0, 0)\<rparr>,
                                \<lparr>oname = ''B'', oaffinity = 80, coords = Some (0, 1)\<rparr>] overlay_init = Inr s
          \<and> overlay_effect [\<lparr>oname = ''A'', oaffinity = 90, coords = Some (0, 0)\<rparr>,
                            \<lparr>oname = ''B'', oaffinity = 80, coords = Some (0, 1)\<rparr>] s = Inr s'
          \<and> overlay_rerenders s s'"
  by (rule overlay_never_settles) simp_all

lemma abc_center:
  "overlay_center [venue_A, venue_B, venue_C] = Inr (1, 0)"
  "overlay_center [venue_C, venue_A, venue_B] = Inr (1, 0)"
  "overlay_center [venue_B, venue_C, venue_A] = Inr (1, 0)"
  by (simp_all add: overlay_center_def venue_A_def venue_B_def venue_C_def)

lemma abc_dist:
  "planar_dist (1, 0) (0, 0) = 1" "planar_dist (1, 0) (-2, 0) = 3" "planar_dist (1, 0) (5, 0) = 4"
proof -
  have "sqrt 9 = 3" "sqrt 16 = 4" by (rule real_sqrt_unique; simp)+
  then show "planar_dist (1, 0) (0, 0) = 1" "planar_dist (1, 0) (-2, 0) = 3" "planar_dist (1, 0) (5, 0) = 4"
    by (simp_all add: planar_dist_def)
qed

lemma abc_cmp:
  assumes "set l = {venue_A, venue_B, venue_C}" and "overlay_center l = Inr (1, 0)"
  shows "overlay_cmp l venue_A venue_B = Inr (-2) \<and> overlay_cmp l venue_B venue_A = Inr 2
       \<and> overlay_cmp l venue_B venue_C = Inr (-1) \<and> overlay_cmp l venue_C venue_B = Inr 1
       \<and> overlay_cmp l venue_C venue_A = Inr (-8) \<and> overlay_cmp l venue_A venue_C = Inr 8"
  using assms(2) abc_dist by (simp add: overlay_cmp_def venue_A_def venue_B_def venue_C_def)

text \<open>
  The overlay's comparator is not a consistent ordering (A before B, B before C,
  C before A), and the overlay returns each rotation of these three venues unchanged: its
  route order depends on the order it is given, not on the venues.
\<close>

lemma overlay_order_depends_on_input:
  "overlay_cmp [venue_A, venue_B, venue_C] venue_A venue_B = Inr (-2)
   \<and> overlay_cmp [venue_A, venue_B, venue_C] venue_B venue_C = Inr (-1)
   \<and> overlay_cmp [venue_A, venue_B, venue_C] venue_C venue_A = Inr (-8)
   \<and> calculateOptimalRoute [venue_A, venue_B, venue_C] = Inr [venue_A, venue_B, venue_C]
   \<and> calculateOptimalRoute [venue_C, venue_A, venue_B] = Inr [venue_C, venue_A, venue_B]
   \<and> calculateOptimalRoute [venue_B, venue_C, venue_A] = Inr [venue_B, venue_C, venue_A]"
proof -
  note c1 = abc_cmp [of "[venue_A, venue_B, venue_C]"] and c2 = abc_cmp [of "[venue_C, venue_A, venue_B]"]
    and c3 = abc_cmp [of "[venue_B, venue_C, venue_A]"]
  have s: "set [venue_A, venue_B, venue_C] = {venue_A, venue_B, venue_C}"
    "set [venue_C, venue_A, venue_B] = {venue_A, venue_B, venue_C}"
    "set [venue_B, venue_C, venue_A] = {venue_A, venue_B, venue_C}"
    by auto
  show ?thesis
    using c1 [OF s(1) abc_center(1)] c2 [OF s(2) abc_center(2)] c3 [OF s(3) abc_center(3)]
    by (simp add: calculateOptimalRoute_def js_sort_def count_and_make_run_def)
qed

lemma distance_loop_Inr_coords:
  "distance_loop rv i t = Inr d \<Longrightarrow> i < length rv - 1 \<Longrightarrow> i \<le> k \<Longrightarrow> k < length rv \<Longrightarrow> coords (rv ! k) \<noteq> None"
proof (induction rv i t arbitrary: k rule: distance_loop.induct)
  case (1 rv i t)
  obtain p q where p: "coords (rv ! i) = Some p" and q: "coords (rv ! Suc i) = Some q"
    and r: "distance_loop rv (Suc i) (t + haversine p q) = Inr d"
    using "1.prems"(1,2) by (auto simp: distance_loop.simps [of rv i t] split: option.splits)
  show ?case
  proof (cases "k \<le> Suc i")
    case True
    then have "k = i \<or> k = Suc i" using "1.prems"(3) by auto
    then show ?thesis using p q by auto
  next
    case False
    then have "Suc i < length rv - 1" using "1.prems"(4) by simp
    from "1.IH" [OF "1.prems"(2) refl p q r this] False "1.prems"(4)
    show ?thesis by simp
  qed
qed

lemma legs_distance_nonneg:
  "\<forall>c \<in> set cs. - 90 \<le> fst c \<and> fst c \<le> 90 \<Longrightarrow> 0 \<le> legs_distance cs"
proof (induction cs rule: legs_distance.induct)
  case (1 p q rest)
  then show ?case using haversine_range [of p q] by simp
qed simp_all

text \<open>
  The metrics of a route with fewer than two stops are zero; otherwise the distance is
  the sum of the Haversine legs between consecutive stops, non-negative for valid
  latitudes, and the time is 12 minutes per kilometre plus 15 per stop.
\<close>

lemma calculateRouteMetrics_props:
  assumes m: "calculateRouteMetrics rv = Inr (d, t)"
    and lat: "\<forall>v \<in> set rv. \<forall>c. coords v = Some c \<longrightarrow> - 90 \<le> fst c \<and> fst c \<le> 90"
  shows "(length rv < 2 \<longrightarrow> d = 0 \<and> t = 0)
         \<and> (2 \<le> length rv \<longrightarrow> d = legs_distance (map (\<lambda>v. the (coords v)) rv)
                                \<and> t = d * 3 / 250 + 15 * real (length rv) \<and> 0 \<le> d)"
proof (cases "length rv < 2")
  case True
  then show ?thesis using m by (simp add: calculateRouteMetrics_def)
next
  case False
  then obtain d0 where l: "distance_loop rv 0 0 = Inr d0"
    using m by (auto simp: calculateRouteMetrics_def split: sum.splits)
  have c: "\<forall>v \<in> set rv. coords v \<noteq> None"
  proof
    fix v
    assume "v \<in> set rv"
    then obtain k where "k < length rv" "v = rv ! k" by (metis in_set_conv_nth)
    then show "coords v \<noteq> None"
      using distance_loop_Inr_coords [OF l] False by simp
  qed
  have "\<forall>x \<in> set (map (\<lambda>v. the (coords v)) rv). - 90 \<le> fst x \<and> fst x \<le> 90"
    using lat c by auto
  then have "0 \<le> legs_distance (map (\<lambda>v. the (coords v)) rv)"
    by (rule legs_distance_nonneg)
  then show ?thesis
    using m False calculateRouteMetrics_legs [OF c] by (simp add: ac_simps)
qed

lemma calculateRouteMetrics_props_witness:
  "calculateRouteMetrics [\<lparr>oname = ''A'', oaffinity = 90, coords = Some (0, 0)\<rparr>,
                          \<lparr>oname = ''B'', oaffinity = 80, coords = Some (0, 0)\<rparr>] = Inr (0, 30)
   \<and> legs_distance [(0, 0), (0, 0)] = 0"
proof -
  have m: "calculateRouteMetrics [\<lparr>oname = ''A'', oaffinity = 90, coords = Some (0, 0)\<rparr>,
                          \<lparr>oname = ''B'', oaffinity = 80, coords = Some (0, 0)\<rparr>] = Inr (0, 30)"
    by (simp add: calculateRouteMetrics_legs)
  from calculateRouteMetrics_props [OF m] m show ?thesis by simp
qed

text \<open>
  Two stops 1000 m apart along a meridian measure 1000 m and 42 minutes.
\<close>

lemma metrics_one_km:
  "calculateRouteMetrics [\<lparr>oname = ''A'', oaffinity = 90, coords = Some (0, 0)\<rparr>,
                          \<lparr>oname = ''B'', oaffinity = 80, coords = Some (180000 / (6371000 * pi), 0)\<rparr>]
   = Inr (1000, 42)"
proof -
  have "180000 / (6371000 * pi) < 180"
    using pi_ge_two by (simp add: field_simps)
  moreover have "0 < 180000 / (6371000 * pi)"
    by simp
  ultimately have "haversine (0, 0) (180000 / (6371000 * pi), 0) = 1000"
    using haversine_meridian [of "180000 / (6371000 * pi)" 0 0] by simp
  then show ?thesis
    by (simp add: calculateRouteMetrics_legs)
qed

text \<open>
  C31: for valid latitudes the Haversine distance lies between 0 and half the Earth's
  circumference, is symmetric, and is 0 from a point to itself.
\<close>

lemma haversine_props:
  assumes "- 90 \<le> fst c1" "fst c1 \<le> 90" "- 90 \<le> fst c2" "fst c2 \<le> 90"
  shows "0 \<le> haversine c1 c2 \<and> haversine c1 c2 \<le> 6371000 * pi
         \<and> haversine c1 c2 = haversine c2 c1 \<and> haversine c1 c1 = 0"
  using haversine_range [OF assms] haversine_commute by simp

lemma haversine_props_witness:
  "0 \<le> haversine (40, -74) (41, -74) \<and> haversine (40, -74) (41, -74) = haversine (41, -74) (40, -74)"
  using haversine_props [of "(40, -74)" "(41, -74)"] by simp

text \<open>
  An intermediate stop's marker shows number k+1 but its popup says Stop k.
\<close>

lemma marker_label_off_by_one:
  assumes "0 < k" and "Suc k < length rv"
  shows "mkind (createVenueMarkers rv ! k) = Waypoint \<and> mnumber (createVenueMarkers rv ! k) = Suc k
         \<and> mposition (createVenueMarkers rv ! k) = ''Stop '' @ nat_str k"
  using assms by (simp add: createVenueMarkers_nth venue_marker_def Let_def)

lemma marker_label_off_by_one_witness:
  "mnumber (createVenueMarkers [venue_A, venue_B, venue_C] ! 1) = 2
   \<and> mposition (createVenueMarkers [venue_A, venue_B, venue_C] ! 1) = ''Stop 1''"
  using marker_label_off_by_one [of 1 "[venue_A, venue_B, venue_C]"]
  by (simp add: nat_str.simps char_of_def bit_0)

text \<open>
  For more than six venues the overlay keeps six of them, a strict sub-multiset.
\<close>

lemma overlay_drops_stops:
  assumes "calculateOptimalRoute vl = Inr r" and "6 < length vl"
  shows "length r = 6 \<and> mset r \<subset># mset vl"
proof -
  have "mset r \<subseteq># mset vl" and l: "length r = 6"
    using calculateOptimalRoute_shape [OF assms(1)] assms(2) by simp_all
  moreover have "mset r \<noteq> mset vl"
    using l assms(2) by (metis less_irrefl size_mset)
  ultimately show ?thesis by (simp add: subset_mset.less_le)
qed

lemma overlay_drops_stops_witness:
  "calculateOptimalRoute (map (\<lambda>k. \<lparr>oname = ''V'', oaffinity = 100 - 10 * real k, coords = None\<rparr>) [1..<8])
     = Inr (map (\<lambda>k. \<lparr>oname = ''V'', oaffinity = 100 - 10 * real k, coords = None\<rparr>) [1..<7])
   \<and> length (map (\<lambda>k. \<lparr>oname = ''V'', oaffinity = 100 - 10 * real k, coords = None\<rparr>) [1..<7]) = 6"
proof -
  have r: "calculateOptimalRoute (map (\<lambda>k. \<lparr>oname = ''V'', oaffinity = 100 - 10 * real k, coords = None\<rparr>) [1..<8])
     = Inr (map (\<lambda>k. \<lparr>oname = ''V'', oaffinity = 100 - 10 * real k, coords = None\<rparr>) [1..<7])"
    by (simp add: calculateOptimalRoute_def js_sort_def count_and_make_run_def overlay_cmp_def upt_rec)
  from overlay_drops_stops [OF r] r show ?thesis by simp
qed

end
