(* ===== verification/Tastes.thy ===== *)
theory Tastes
  imports Venues
begin

text \<open>
  Taste lists outside the chat: the id-keyed list discipline shared by the selection
  hook (\<open>hooks/useTasteSelection.js\<close>), the catalog hook (\<open>hooks/useTasteCatalog.js\<close>)
  and the taste picker (theory \<open>Picker\<close>). A taste the picker handles is a \<open>seed\<close>: a
  \<open>tag\<close> with the \<open>type\<close> the producer stamps on it (\<open>'local'\<close>, \<open>'remote'\<close>,
  \<open>'trending'\<close>) and the optional \<open>category\<close>, \<open>emoji\<close> and search \<open>score\<close>.
  The hooks' React state is a record; each \<open>useCallback\<close> is a function from the
  state to the new state, and \<open>useEffect\<close> callbacks are recorded in an output list.
  Network answers are the \<open>response\<close> values of the prelude; the Fuse.js index is an
  external library whose hits are an input.
\<close>

record seed = tag +
  ttype :: string
  tcategory :: "string option"
  temoji :: "string option"
  tscore :: "real option"

subsection \<open>Id-keyed taste lists\<close>

text \<open>\<open>prev.find(t => t.id === id)\<close> as a condition: a found object is truthy.\<close>

definition has_id :: "string \<Rightarrow> 'a tag_scheme list \<Rightarrow> bool" where
  "has_id i xs \<longleftrightarrow> (\<exists>t \<in> set xs. tid t = i)"

text \<open>The updater of \<open>addTaste\<close>: an id already present leaves the array (its identity too).\<close>

definition add_taste :: "'a tag_scheme \<Rightarrow> 'a tag_scheme list \<Rightarrow> 'a tag_scheme list" where
  "add_taste taste prev = (if has_id (tid taste) prev then prev else prev @ [taste])"

text \<open>The updater of \<open>removeTaste\<close>: \<open>prev.filter(t => t.id !== tasteId)\<close>.\<close>

definition remove_taste :: "string \<Rightarrow> 'a tag_scheme list \<Rightarrow> 'a tag_scheme list" where
  "remove_taste tasteId prev = filter (\<lambda>t. tid t \<noteq> tasteId) prev"

subsection \<open>The selection hook\<close>

text \<open>
  \<open>useTasteSelection(minSelections, onSelectionChange)\<close>: the state is
  \<open>selectedTastes\<close>; \<open>changes\<close> lists the arguments of the \<open>onSelectionChange\<close> calls
  its effect makes (\<open>notify\<close> says whether a callback was passed). The effect runs on
  mount and whenever \<open>selectedTastes\<close> is a new array: \<open>addTaste\<close> of a present id
  returns \<open>prev\<close> itself, \<open>removeTaste\<close> and \<open>clearSelection\<close> always store a new one.
\<close>

record 'a selection_hook =
  selectedTastes :: "'a list"
  changes :: "'a list list"

datatype 'a selection_op = AddTaste 'a | RemoveTaste string | ClearSelection

definition selection_init :: "bool \<Rightarrow> 'a selection_hook" where
  "selection_init notify = \<lparr>selectedTastes = [], changes = (if notify then [[]] else [])\<rparr>"

definition selection_set :: "bool \<Rightarrow> 'a list \<Rightarrow> 'a selection_hook \<Rightarrow> 'a selection_hook" where
  "selection_set notify sel s =
     s\<lparr>selectedTastes := sel, changes := changes s @ (if notify then [sel] else [])\<rparr>"

fun selection_step :: "bool \<Rightarrow> 'a tag_scheme selection_op \<Rightarrow> 'a tag_scheme selection_hook
                       \<Rightarrow> 'a tag_scheme selection_hook" where
  "selection_step notify (AddTaste taste) s =
     (if has_id (tid taste) (selectedTastes s) then s
      else selection_set notify (selectedTastes s @ [taste]) s)"
| "selection_step notify (RemoveTaste tasteId) s =
     selection_set notify (remove_taste tasteId (selectedTastes s)) s"
| "selection_step notify ClearSelection s = selection_set notify [] s"

text \<open>The values the hook derives from its state.\<close>

definition isTasteSelected :: "string \<Rightarrow> 'a tag_scheme selection_hook \<Rightarrow> bool" where
  "isTasteSelected tasteId s = has_id tasteId (selectedTastes s)"

definition hasMinimumSelections :: "int \<Rightarrow> 'a selection_hook \<Rightarrow> bool" where
  "hasMinimumSelections minSelections s \<longleftrightarrow> minSelections \<le> int (length (selectedTastes s))"

definition remainingSelections :: "int \<Rightarrow> 'a selection_hook \<Rightarrow> int" where
  "remainingSelections minSelections s = max 0 (minSelections - int (length (selectedTastes s)))"

definition getSelectionByType :: "string \<Rightarrow> seed selection_hook \<Rightarrow> seed list" where
  "getSelectionByType ty s = filter (\<lambda>t. ttype t = ty) (selectedTastes s)"

definition getSelectionByCategory :: "string option \<Rightarrow> seed selection_hook \<Rightarrow> seed list" where
  "getSelectionByCategory c s = filter (\<lambda>t. tcategory t = c) (selectedTastes s)"

text \<open>A run of the hook: the operations in the order the renders apply them.\<close>

definition selection_run :: "bool \<Rightarrow> 'a tag_scheme selection_op list \<Rightarrow> 'a tag_scheme selection_hook" where
  "selection_run notify ops = foldl (\<lambda>s op. selection_step notify op s) (selection_init notify) ops"

definition selection_inv :: "bool \<Rightarrow> 'a tag_scheme selection_hook \<Rightarrow> bool" where
  "selection_inv notify s \<longleftrightarrow> distinct (map tid (selectedTastes s))
     \<and> (notify \<longrightarrow> changes s \<noteq> [] \<and> last (changes s) = selectedTastes s)"

subsection \<open>The catalog hook\<close>

text \<open>
  \<open>useTasteCatalog(userLocation)\<close>. The catalog file \<open>/catalog_tags.json\<close> maps each
  category to its items; \<open>Object.entries\<close> keeps the file's order, so the catalog is
  an association list. Items are read for their \<open>id\<close> and \<open>name\<close>.
\<close>

type_synonym catalog = "(string \<times> tag list) list"

text \<open>\<open>allItems\<close>, the list the Fuse index is built over: each item with its category.\<close>

definition allItems :: "catalog \<Rightarrow> (tag \<times> string) list" where
  "allItems catalogData = concat (map (\<lambda>(category, items). map (\<lambda>item. (item, category)) items) catalogData)"

text \<open>A Fuse hit as \<open>searchLocalCatalog\<close> maps it: \<open>{...result.item, type: 'local', score}\<close>.\<close>

definition local_seed :: "(tag \<times> string) \<times> real \<Rightarrow> seed" where
  "local_seed hit =
     \<lparr>tid = tid (fst (fst hit)), tname = tname (fst (fst hit)), ttype = ''local'',
      tcategory = Some (snd (fst hit)), temoji = None, tscore = Some (snd hit)\<rparr>"

record catalog_hook =
  catalog :: catalog
  trendingTastes :: "seed list"
  remoteTastes :: "seed list"
  catLoading :: bool
  catError :: "string option"
  fuseIndex :: "(tag \<times> string) list option"

definition catalog_init :: catalog_hook where
  "catalog_init = \<lparr>catalog = [], trendingTastes = [], remoteTastes = [], catLoading = True,
                    catError = None, fuseIndex = None\<rparr>"

text \<open>\<open>loadCatalog\<close>: a failed fetch or a response that is not ok is caught and reported.\<close>

definition loadCatalog :: "catalog response \<Rightarrow> catalog_hook \<Rightarrow> catalog_hook" where
  "loadCatalog r s =
     (case r of
        RespOk catalogData \<Rightarrow>
          s\<lparr>catalog := catalogData, fuseIndex := Some (allItems catalogData), catError := None,
            catLoading := False\<rparr>
      | _ \<Rightarrow> s\<lparr>catError := Some ''Failed to load taste catalog'', catLoading := False\<rparr>)"

text \<open>
  \<open>fetchTrending\<close>: the first three clusters become trending tastes; a cluster without
  \<open>cluster_name\<close> throws in \<open>toLowerCase\<close>, which the \<open>catch\<close> answers with the
  fallback list, as it answers a failed fetch. A response that is not ok changes nothing.
\<close>

definition trending_id :: "string \<Rightarrow> nat \<Rightarrow> string" where
  "trending_id name index = ''trending_'' @ js_ws_underscore (js_lower name) @ ''_'' @ nat_str index"

definition trending_seed :: "string \<Rightarrow> string \<Rightarrow> seed" where
  "trending_seed i name =
     \<lparr>tid = i, tname = name, ttype = ''trending'', tcategory = Some ''trending'', temoji = None,
      tscore = None\<rparr>"

fun trending_map :: "nat \<Rightarrow> string option list \<Rightarrow> js_error + seed list" where
  "trending_map index [] = Inr []"
| "trending_map index (None # clusters) = Inl TypeError"
| "trending_map index (Some name # clusters) =
     (case trending_map (Suc index) clusters of
        Inl e \<Rightarrow> Inl e
      | Inr ts \<Rightarrow> Inr (trending_seed (trending_id name index) name # ts))"

definition trending_fallback :: "seed list" where
  "trending_fallback =
     [trending_seed ''trending_artisan_coffee'' ''Artisan Coffee'',
      trending_seed ''trending_indie_music'' ''Indie Music'',
      trending_seed ''trending_street_art'' ''Street Art'']"

definition fetchTrending :: "string \<Rightarrow> string option list response \<Rightarrow> catalog_hook \<Rightarrow> catalog_hook" where
  "fetchTrending userLocation r s =
     (if userLocation = [] then s
      else (case r of
              RespOk clusters \<Rightarrow>
                (case trending_map 0 (take 3 clusters) of
                   Inl _ \<Rightarrow> s\<lparr>trendingTastes := trending_fallback\<rparr>
                 | Inr trending \<Rightarrow> s\<lparr>trendingTastes := trending\<rparr>)
            | RespNotOk \<Rightarrow> s
            | FetchRejected \<Rightarrow> s\<lparr>trendingTastes := trending_fallback\<rparr>))"

text \<open>\<open>searchLocalCatalog\<close>: the Fuse hits for the query, once the index exists.\<close>

definition searchLocalCatalog :: "catalog_hook \<Rightarrow> string \<Rightarrow> ((tag \<times> string) \<times> real) list \<Rightarrow> seed list" where
  "searchLocalCatalog s query hits =
     (if fuseIndex s = None \<or> js_trim query = [] then [] else map local_seed hits)"

text \<open>
  \<open>searchRemoteQloo\<close>: up to five entities of an ok response. An entity without an
  \<open>id\<close> (or with the empty one) gets one from its name and \<open>Date.now()\<close>
  (\<open>now\<close>); without a name that throws, and every failure is rethrown as
  \<open>'Search temporarily unavailable'\<close> (the \<open>Inl\<close> message). A missing \<open>name\<close> of
  an entity with an id renders as nothing (the empty name).
\<close>

record qloo_entity =
  eid :: "string option"
  ename :: "string option"
  etype :: "string option"

definition remote_seed :: "nat \<Rightarrow> qloo_entity \<Rightarrow> js_error + seed" where
  "remote_seed now entity =
     (let category = (case etype entity of Some t \<Rightarrow> if t \<noteq> [] then t else ''general'' | None \<Rightarrow> ''general'');
          name = (case ename entity of Some n \<Rightarrow> n | None \<Rightarrow> [])
      in case eid entity of
           Some i \<Rightarrow> if i \<noteq> [] then Inr \<lparr>tid = i, tname = name, ttype = ''remote'',
                                        tcategory = Some category, temoji = None, tscore = None\<rparr>
                   else (case ename entity of
                           None \<Rightarrow> Inl TypeError
                         | Some n \<Rightarrow> Inr \<lparr>tid = ''remote_'' @ js_ws_underscore (js_lower n) @ ''_'' @ nat_str now,
                                          tname = n, ttype = ''remote'', tcategory = Some category,
                                          temoji = None, tscore = None\<rparr>)
         | None \<Rightarrow> (case ename entity of
                     None \<Rightarrow> Inl TypeError
                   | Some n \<Rightarrow> Inr \<lparr>tid = ''remote_'' @ js_ws_underscore (js_lower n) @ ''_'' @ nat_str now,
                                    tname = n, ttype = ''remote'', tcategory = Some category,
                                    temoji = None, tscore = None\<rparr>))"

definition searchRemoteQloo :: "nat \<Rightarrow> qloo_entity list response \<Rightarrow> string + seed list" where
  "searchRemoteQloo now r =
     (case r of
        RespOk entities \<Rightarrow>
          (case js_map (remote_seed now) (take 5 entities) of
             Inl _ \<Rightarrow> Inl ''Search temporarily unavailable''
           | Inr ts \<Rightarrow> Inr ts)
      | RespNotOk \<Rightarrow> Inr []
      | FetchRejected \<Rightarrow> Inl ''Search temporarily unavailable'')"

text \<open>
  \<open>searchTastes\<close>: three or more local hits answer alone; otherwise the remote answer
  is appended, and each remote taste is queued into \<open>remoteTastes\<close> by its own
  updater, applied in order. A remote failure is rethrown to the caller.
\<close>

definition searchTastes :: "string \<Rightarrow> ((tag \<times> string) \<times> real) list \<Rightarrow> nat \<Rightarrow> qloo_entity list response
                            \<Rightarrow> catalog_hook \<Rightarrow> catalog_hook \<times> (string + seed list)" where
  "searchTastes query hits now r s =
     (if js_trim query = [] then (s, Inr [])
      else (let localResults = searchLocalCatalog s query hits in
            if 3 \<le> length localResults then (s, Inr (take 8 localResults))
            else (case searchRemoteQloo now r of
                    Inl e \<Rightarrow> (s, Inl e)
                  | Inr remoteResults \<Rightarrow>
                      (s\<lparr>remoteTastes := foldl (\<lambda>prev taste. add_taste taste prev) (remoteTastes s) remoteResults\<rparr>,
                       Inr (take 8 (localResults @ remoteResults))))))"

definition getCategories :: "catalog_hook \<Rightarrow> string list" where
  "getCategories s = map fst (catalog s)"

definition getTastesByCategory :: "catalog_hook \<Rightarrow> string \<Rightarrow> tag list" where
  "getTastesByCategory s category = (case map_of (catalog s) category of Some items \<Rightarrow> items | None \<Rightarrow> [])"

definition getAllTastes :: "catalog_hook \<Rightarrow> seed list" where
  "getAllTastes s =
     concat (map (\<lambda>(category, items).
                    map (\<lambda>item. \<lparr>tid = tid item, tname = tname item, ttype = ''local'',
                                  tcategory = Some category, temoji = None, tscore = None\<rparr>) items)
                 (catalog s))"

text \<open>
  The hook over time: the two mount effects settle in either order, and searches run
  whenever the caller asks (the returned list goes to the caller).
\<close>

datatype catalog_event =
    CatalogLoaded "catalog response"
  | TrendingLoaded "string option list response"
  | SearchTastes string "((tag \<times> string) \<times> real) list" nat "qloo_entity list response"

fun catalog_step :: "string \<Rightarrow> catalog_event \<Rightarrow> catalog_hook \<Rightarrow> catalog_hook" where
  "catalog_step userLocation (CatalogLoaded r) s = loadCatalog r s"
| "catalog_step userLocation (TrendingLoaded r) s = fetchTrending userLocation r s"
| "catalog_step userLocation (SearchTastes query hits now r) s = fst (searchTastes query hits now r s)"

definition catalog_run :: "string \<Rightarrow> catalog_event list \<Rightarrow> catalog_hook" where
  "catalog_run userLocation evs = foldl (\<lambda>s ev. catalog_step userLocation ev s) catalog_init evs"

text \<open>
  What the hook keeps consistent: the Fuse index, once built, is the catalog's item list;
  trending and remote tastes have distinct ids and carry their producer's type.
\<close>

definition catalog_inv :: "catalog_hook \<Rightarrow> bool" where
  "catalog_inv s \<longleftrightarrow>
     (fuseIndex s = None \<or> fuseIndex s = Some (allItems (catalog s)))
     \<and> distinct (map tid (trendingTastes s)) \<and> (\<forall>t \<in> set (trendingTastes s). ttype t = ''trending'')
     \<and> distinct (map tid (remoteTastes s)) \<and> (\<forall>t \<in> set (remoteTastes s). ttype t = ''remote'')"

subsection \<open>Id-keyed lists and the selection hook: lemmas\<close>



lemma has_id_add [simp]: "has_id i (add_taste t xs) \<longleftrightarrow> i = tid t \<or> has_id i xs"
  by (auto simp: add_taste_def has_id_def)

lemma has_id_remove [simp]: "has_id i (remove_taste j xs) \<longleftrightarrow> i \<noteq> j \<and> has_id i xs"
  by (auto simp: remove_taste_def has_id_def)

lemma has_id_iff: "has_id i xs \<longleftrightarrow> i \<in> set (map tid xs)"
  by (auto simp: has_id_def)

lemma add_taste_distinct: "distinct (map tid xs) \<Longrightarrow> distinct (map tid (add_taste t xs))"
  by (auto simp: add_taste_def has_id_iff)

lemma remove_taste_distinct: "distinct (map tid xs) \<Longrightarrow> distinct (map tid (remove_taste i xs))"
  by (simp add: remove_taste_def distinct_map_filter)

lemma foldl_add_taste_distinct:
  "distinct (map tid xs) \<Longrightarrow> distinct (map tid (foldl (\<lambda>prev t. add_taste t prev) xs ts))"
  by (induction ts arbitrary: xs) (simp_all add: add_taste_distinct)

lemma foldl_add_taste_set:
  "set (foldl (\<lambda>prev t. add_taste t prev) xs ts) \<subseteq> set xs \<union> set ts"
proof (induction ts arbitrary: xs)
  case (Cons a ts)
  have "set (add_taste a xs) \<subseteq> set xs \<union> {a}"
    by (auto simp: add_taste_def)
  with Cons.IH [of "add_taste a xs"] show ?case by auto
qed simp



lemma selection_step_inv:
  "selection_inv notify s \<Longrightarrow> selection_inv notify (selection_step notify op s)"
  by (cases op) (auto simp: selection_inv_def selection_set_def add_taste_distinct [unfolded add_taste_def]
                      remove_taste_distinct has_id_iff)

text \<open>
  C25: in every run of useTasteSelection the selection has distinct ids, and when a
  callback is given its last call received the current selection.
\<close>

lemma selection_run_inv: "selection_inv notify (selection_run notify ops)"
proof -
  have "selection_inv notify (selection_init notify)"
    by (simp add: selection_inv_def selection_init_def)
  then show ?thesis
    unfolding selection_run_def by (rule foldl_invariant [rotated]) (simp add: selection_step_inv)
qed

lemma selection_run_inv_witness:
  "selection_inv True (selection_run True [AddTaste \<lparr>tid = ''a'', tname = ''A''\<rparr>, AddTaste \<lparr>tid = ''a'', tname = ''A''\<rparr>])"
  by (rule selection_run_inv)

lemma selection_add_selected: "isTasteSelected (tid t) (selection_step notify (AddTaste t) s)"
  by (simp add: isTasteSelected_def selection_set_def has_id_def)

lemma selection_remove_unselected: "\<not> isTasteSelected i (selection_step notify (RemoveTaste i) s)"
  by (simp add: isTasteSelected_def selection_set_def)

lemma remainingSelections_bounds:
  "0 \<le> remainingSelections m s \<and> (remainingSelections m s = 0 \<longleftrightarrow> hasMinimumSelections m s)"
  by (auto simp: remainingSelections_def hasMinimumSelections_def)



subsection \<open>The catalog hook: lemmas\<close>

lemma trending_map_ids:
  "trending_map i cs = Inr ts \<Longrightarrow>
     map (last \<circ> tid) ts = map (\<lambda>k. char_of (48 + k mod 10)) [i..<i + length cs]
     \<and> (\<forall>t \<in> set ts. ttype t = ''trending'')"
proof (induction i cs arbitrary: ts rule: trending_map.induct)
  case (3 index name clusters)
  then obtain ts' where ts': "trending_map (Suc index) clusters = Inr ts'"
    and ts: "ts = trending_seed (trending_id name index) name # ts'"
    by (auto split: sum.splits)
  have "[index..<index + length (Some name # clusters)] = index # [Suc index..<Suc index + length clusters]"
    by (simp add: upt_rec)
  with "3.IH" [OF ts'] ts nat_str_last [of index] show ?case
    by (simp add: trending_id_def trending_seed_def)
qed auto

lemma distinct_digits: "n \<le> 10 \<Longrightarrow> distinct (map (\<lambda>k. char_of (48 + k mod 10) :: char) [0..<n])"
  by (auto simp: distinct_map inj_on_def dest: char_of_digit_inj)

lemma distinct_map_comp_imp: "distinct (map (f \<circ> g) xs) \<Longrightarrow> distinct (map g xs)"
  by (simp add: distinct_map inj_on_def)

lemma trending_map_distinct:
  assumes "trending_map 0 (take 3 cs) = Inr ts"
  shows "distinct (map tid ts) \<and> (\<forall>t \<in> set ts. ttype t = ''trending'')"
proof -
  from trending_map_ids [OF assms]
  have m: "map (last \<circ> tid) ts = map (\<lambda>k. char_of (48 + k mod 10)) [0..<length (take 3 cs)]"
    and ty: "\<forall>t \<in> set ts. ttype t = ''trending''" by simp_all
  have "distinct (map (\<lambda>k. char_of (48 + k mod 10) :: char) [0..<length (take 3 cs)])"
    by (rule distinct_digits) simp
  with m have "distinct (map (last \<circ> tid) ts)" by simp
  then show ?thesis using ty distinct_map_comp_imp by blast
qed

lemma trending_fallback_ok:
  "distinct (map tid trending_fallback) \<and> (\<forall>t \<in> set trending_fallback. ttype t = ''trending'')"
  by (simp add: trending_fallback_def trending_seed_def)

lemma remote_seed_type: "remote_seed now e = Inr t \<Longrightarrow> ttype t = ''remote''"
  by (auto simp: remote_seed_def Let_def split: option.splits if_splits)

lemma js_map_Inr_set:
  assumes "js_map f xs = Inr ys" "y \<in> set ys"
  shows "\<exists>x \<in> set xs. f x = Inr y"
proof -
  from assms(1) have nl: "\<forall>x \<in> set xs. \<not> isl (f x)" and ys: "ys = map (projr \<circ> f) xs"
    by (simp_all add: js_map_Inr_iff)
  from assms(2) ys obtain x where x: "x \<in> set xs" "y = projr (f x)"
    by auto
  with nl have "f x = Inr y"
    by (cases "f x") auto
  with x show ?thesis by blast
qed

lemma searchRemoteQloo_type:
  "searchRemoteQloo now r = Inr ts \<Longrightarrow> length ts \<le> 5 \<and> (\<forall>t \<in> set ts. ttype t = ''remote'')"
proof -
  assume a: "searchRemoteQloo now r = Inr ts"
  show ?thesis
  proof (cases r)
    case (RespOk entities)
    with a have j: "js_map (remote_seed now) (take 5 entities) = Inr ts"
      by (simp add: searchRemoteQloo_def split: sum.splits)
    then have "ts = map (projr \<circ> remote_seed now) (take 5 entities)"
      by (simp add: js_map_Inr_iff)
    then have "length ts \<le> 5" by simp
    moreover have "\<forall>t \<in> set ts. ttype t = ''remote''"
      using js_map_Inr_set [OF j] remote_seed_type by blast
    ultimately show ?thesis by simp
  qed (use a in \<open>simp_all add: searchRemoteQloo_def\<close>)
qed

lemma local_seed_type [simp]: "ttype (local_seed h) = ''local''"
  by (simp add: local_seed_def)

text \<open>
  C39: searchTastes answers at most eight tastes, each typed 'local' or 'remote'; with
  three or more local hits it answers the first eight of them and changes no state.
\<close>

lemma searchTastes_result:
  assumes "searchTastes query hits now r s = (s', Inr res)"
  shows "length res \<le> 8 \<and> (\<forall>t \<in> set res. ttype t = ''local'' \<or> ttype t = ''remote'')
         \<and> (js_trim query \<noteq> [] \<and> fuseIndex s \<noteq> None \<and> 3 \<le> length hits \<longrightarrow> res = take 8 (map local_seed hits) \<and> s' = s)"
proof -
  have loc: "\<forall>t \<in> set (searchLocalCatalog s query hits). ttype t = ''local''"
    by (auto simp: searchLocalCatalog_def)
  show ?thesis
  proof (cases "js_trim query = []")
    case True
    with assms show ?thesis by (simp add: searchTastes_def)
  next
    case False
    show ?thesis
    proof (cases "3 \<le> length (searchLocalCatalog s query hits)")
      case True
      with False assms loc show ?thesis
        by (auto simp: searchTastes_def Let_def searchLocalCatalog_def dest: in_set_takeD)
    next
      case short: False
      with False assms obtain rr where rr: "searchRemoteQloo now r = Inr rr"
        and res: "res = take 8 (searchLocalCatalog s query hits @ rr)"
        by (auto simp: searchTastes_def Let_def split: sum.splits)
      from searchRemoteQloo_type [OF rr] loc res short False show ?thesis
        by (auto simp: searchLocalCatalog_def dest: in_set_takeD split: if_splits)
    qed
  qed
qed



lemma loadCatalog_inv: "catalog_inv s \<Longrightarrow> catalog_inv (loadCatalog r s)"
  by (cases r) (simp_all add: loadCatalog_def catalog_inv_def)

lemma fetchTrending_inv: "catalog_inv s \<Longrightarrow> catalog_inv (fetchTrending loc r s)"
  using trending_fallback_ok trending_map_distinct
  by (auto simp: fetchTrending_def catalog_inv_def split: response.splits sum.splits)

lemma searchTastes_inv:
  assumes "catalog_inv s"
  shows "catalog_inv (fst (searchTastes query hits now r s))"
proof (cases "js_trim query = [] \<or> 3 \<le> length (searchLocalCatalog s query hits)")
  case True
  with assms show ?thesis by (auto simp: searchTastes_def Let_def)
next
  case False
  show ?thesis
  proof (cases "searchRemoteQloo now r")
    case (Inl e)
    with False assms show ?thesis by (simp add: searchTastes_def Let_def)
  next
    case (Inr rr)
    let ?rt = "foldl (\<lambda>prev t. add_taste t prev) (remoteTastes s) rr"
    have "distinct (map tid ?rt)"
      using assms by (simp add: catalog_inv_def foldl_add_taste_distinct)
    moreover have "\<forall>t \<in> set ?rt. ttype t = ''remote''"
      using assms searchRemoteQloo_type [OF Inr] foldl_add_taste_set [of "remoteTastes s" rr]
      by (auto simp: catalog_inv_def)
    ultimately show ?thesis
      using False Inr assms by (simp add: searchTastes_def Let_def catalog_inv_def)
  qed
qed

lemma catalog_step_inv: "catalog_inv s \<Longrightarrow> catalog_inv (catalog_step loc ev s)"
  by (cases ev) (simp_all add: loadCatalog_inv fetchTrending_inv searchTastes_inv)

text \<open>
  C24: in every run of useTasteCatalog the Fuse index, once built, is the item list of
  the stored catalog, and the trending and remote tastes have distinct ids and carry the
  types 'trending' and 'remote'.
\<close>

lemma catalog_run_inv: "catalog_inv (catalog_run loc evs)"
proof -
  have "catalog_inv catalog_init"
    by (simp add: catalog_inv_def catalog_init_def)
  then show ?thesis
    unfolding catalog_run_def by (rule foldl_invariant [rotated]) (simp add: catalog_step_inv)
qed

lemma catalog_run_inv_witness:
  "catalog_inv (catalog_run ''New York, NY'' [TrendingLoaded (RespOk [Some ''Jazz Bars'', Some ''Jazz  Bars''])])"
  by (rule catalog_run_inv)


lemma searchTastes_result_witness:
  "searchTastes ''jazz'' [((\<lparr>tid = ''a'', tname = ''A''\<rparr>, ''music''), 0), ((\<lparr>tid = ''b'', tname = ''B''\<rparr>, ''music''), 0),
                        ((\<lparr>tid = ''c'', tname = ''C''\<rparr>, ''music''), 0)] 0 RespNotOk
     (catalog_init\<lparr>fuseIndex := Some []\<rparr>)
   = (catalog_init\<lparr>fuseIndex := Some []\<rparr>,
      Inr (map local_seed [((\<lparr>tid = ''a'', tname = ''A''\<rparr>, ''music''), 0), ((\<lparr>tid = ''b'', tname = ''B''\<rparr>, ''music''), 0),
                           ((\<lparr>tid = ''c'', tname = ''C''\<rparr>, ''music''), 0)]))
   \<and> length (map local_seed [((\<lparr>tid = ''a'', tname = ''A''\<rparr>, ''music''), 0), ((\<lparr>tid = ''b'', tname = ''B''\<rparr>, ''music''), 0),
                           ((\<lparr>tid = ''c'', tname = ''C''\<rparr>, ''music''), 0::real)]) \<le> 8"
proof -
  have e: "searchTastes ''jazz'' [((\<lparr>tid = ''a'', tname = ''A''\<rparr>, ''music''), 0), ((\<lparr>tid = ''b'', tname = ''B''\<rparr>, ''music''), 0),
                        ((\<lparr>tid = ''c'', tname = ''C''\<rparr>, ''music''), 0)] 0 RespNotOk
     (catalog_init\<lparr>fuseIndex := Some []\<rparr>)
   = (catalog_init\<lparr>fuseIndex := Some []\<rparr>,
      Inr (map local_seed [((\<lparr>tid = ''a'', tname = ''A''\<rparr>, ''music''), 0), ((\<lparr>tid = ''b'', tname = ''B''\<rparr>, ''music''), 0),
                           ((\<lparr>tid = ''c'', tname = ''C''\<rparr>, ''music''), 0)]))"
    by (simp add: searchTastes_def searchLocalCatalog_def catalog_init_def js_trim_def js_space_def)
  from searchTastes_result [OF e] e show ?thesis by simp
qed

end
