(* ===== verification/Picker.thy ===== *)
theory Picker
  imports Tastes
begin

text \<open>
  The taste picker (\<open>components/TasteSeedPicker.js\<close>) as a state machine. Its
  \<open>useState\<close> hooks are the fields of \<open>picker_state\<close>; the two mount effects
  (catalog and trending), the 300 ms debounce timer, the remote searches it awaits and
  the user's clicks are the events of \<open>picker_step\<close>. An awaited remote search is kept
  in \<open>pinflight\<close> with the query and local hits it started from, so that answers may
  arrive in any order. \<open>pcomplete\<close> lists the \<open>onSelectionComplete\<close> calls and
  \<open>pannounce\<close> the text of the screen-reader announcement.
\<close>

datatype picker_tab = SearchTab | BrowseTab

record picker_state =
  pselected :: "seed list"
  pquery :: string
  presults :: "seed list"
  psearching :: bool
  pcatalog :: catalog
  ptrending :: "seed list"
  ptab :: picker_tab
  perror :: "string option"
  ploading :: bool
  pfuse :: "(tag \<times> string) list option"
  ptimer :: "string option"
  pinflight :: "(nat \<times> string \<times> seed list) list"
  pnext :: nat
  pannounce :: string
  pcomplete :: "seed list list"

text \<open>The first render: the debounce effect has already armed its timer for \<open>''\<close>.\<close>

definition picker_init :: picker_state where
  "picker_init =
     \<lparr>pselected = [], pquery = [], presults = [], psearching = False, pcatalog = [], ptrending = [],
      ptab = SearchTab, perror = None, ploading = True, pfuse = None, ptimer = Some [], pinflight = [],
      pnext = 0, pannounce = [], pcomplete = []\<rparr>"

subsection \<open>Mount effects\<close>

text \<open>
  \<open>loadCatalog\<close> of the picker does not test \<open>response.ok\<close>: a failed fetch and a
  response whose body is not a catalog both end in the \<open>catch\<close>.
\<close>

definition picker_loadCatalog :: "catalog response \<Rightarrow> picker_state \<Rightarrow> picker_state" where
  "picker_loadCatalog r s =
     (case r of
        RespOk catalogData \<Rightarrow> s\<lparr>pcatalog := catalogData, pfuse := Some (allItems catalogData), ploading := False\<rparr>
      | _ \<Rightarrow> s\<lparr>perror := Some ''Failed to load taste catalog'', ploading := False\<rparr>)"

text \<open>
  The picker's trending tastes carry no category; its fallback list has twelve, with an
  emoji each, written here by its Unicode character name.
\<close>

definition picker_trending_seed :: "string \<Rightarrow> string \<Rightarrow> string option \<Rightarrow> seed" where
  "picker_trending_seed i name emoji =
     \<lparr>tid = i, tname = name, ttype = ''trending'', tcategory = None, temoji = emoji, tscore = None\<rparr>"

fun picker_trending_map :: "nat \<Rightarrow> string option list \<Rightarrow> js_error + seed list" where
  "picker_trending_map index [] = Inr []"
| "picker_trending_map index (None # clusters) = Inl TypeError"
| "picker_trending_map index (Some name # clusters) =
     (case picker_trending_map (Suc index) clusters of
        Inl e \<Rightarrow> Inl e
      | Inr ts \<Rightarrow> Inr (picker_trending_seed (trending_id name index) name None # ts))"

definition picker_trending_fallback :: "seed list" where
  "picker_trending_fallback =
     map (\<lambda>(i, n, e). picker_trending_seed i n (Some e))
       [(''trending_artisan_coffee'', ''Artisan Coffee'', ''HOT BEVERAGE''),
        (''trending_indie_music'', ''Indie Music'', ''MUSICAL NOTE''),
        (''trending_street_art'', ''Street Art'', ''ARTIST PALETTE''),
        (''trending_craft_cocktails'', ''Craft Cocktails'', ''COCKTAIL GLASS''),
        (''trending_local_markets'', ''Local Markets'', ''CONVENIENCE STORE''),
        (''trending_rooftop_dining'', ''Rooftop Dining'', ''CITYSCAPE AT DUSK''),
        (''trending_underground_music'', ''Underground Music'', ''HEADPHONE''),
        (''trending_sustainable_fashion'', ''Sustainable Fashion'', ''BLACK UNIVERSAL RECYCLING SYMBOL''),
        (''trending_immersive_art'', ''Immersive Art'', ''FRAME WITH PICTURE''),
        (''trending_plant_based'', ''Plant-Based Dining'', ''SEEDLING''),
        (''trending_vinyl_records'', ''Vinyl Records'', ''OPTICAL DISC''),
        (''trending_speakeasy_bars'', ''Speakeasy Bars'', ''OLD KEY'')]"

definition picker_fetchTrending :: "string \<Rightarrow> string option list response \<Rightarrow> picker_state \<Rightarrow> picker_state" where
  "picker_fetchTrending userLocation r s =
     (if userLocation = [] then s
      else (case r of
              RespOk clusters \<Rightarrow>
                (case picker_trending_map 0 (take 3 clusters) of
                   Inl _ \<Rightarrow> s\<lparr>ptrending := picker_trending_fallback\<rparr>
                 | Inr trending \<Rightarrow> s\<lparr>ptrending := trending\<rparr>)
            | RespNotOk \<Rightarrow> s
            | FetchRejected \<Rightarrow> s\<lparr>ptrending := picker_trending_fallback\<rparr>))"

subsection \<open>Search\<close>

text \<open>
  The picker's \<open>searchRemoteQloo\<close> never throws: an entity without id is named
  \<open>remote_<name>\<close>, and any failure sets the error banner and answers \<open>[]\<close>.
\<close>

definition picker_remote_seed :: "qloo_entity \<Rightarrow> js_error + seed" where
  "picker_remote_seed entity =
     (let category = (case etype entity of Some t \<Rightarrow> if t \<noteq> [] then t else ''general'' | None \<Rightarrow> ''general'');
          mk = (\<lambda>i n. \<lparr>tid = i, tname = n, ttype = ''remote'', tcategory = Some category, temoji = None,
                       tscore = None\<rparr>)
      in case eid entity of
           Some i \<Rightarrow> if i \<noteq> [] then Inr (mk i (case ename entity of Some n \<Rightarrow> n | None \<Rightarrow> []))
                   else (case ename entity of
                           None \<Rightarrow> Inl TypeError
                         | Some n \<Rightarrow> Inr (mk (''remote_'' @ js_ws_underscore (js_lower n)) n))
         | None \<Rightarrow> (case ename entity of
                     None \<Rightarrow> Inl TypeError
                   | Some n \<Rightarrow> Inr (mk (''remote_'' @ js_ws_underscore (js_lower n)) n)))"

definition picker_searchRemote :: "qloo_entity list response \<Rightarrow> picker_state \<Rightarrow> picker_state \<times> seed list" where
  "picker_searchRemote r s =
     (case r of
        RespOk entities \<Rightarrow>
          (case js_map picker_remote_seed (take 5 entities) of
             Inl _ \<Rightarrow> (s\<lparr>perror := Some ''Search temporarily unavailable''\<rparr>, [])
           | Inr ts \<Rightarrow> (s, ts))
      | RespNotOk \<Rightarrow> (s, [])
      | FetchRejected \<Rightarrow> (s\<lparr>perror := Some ''Search temporarily unavailable''\<rparr>, []))"

text \<open>
  \<open>handleSearch(query)\<close> up to its \<open>await\<close>: blank queries clear the results, three
  local hits answer at once, otherwise the remote search is started and recorded.
\<close>

definition handleSearch :: "string \<Rightarrow> ((tag \<times> string) \<times> real) list \<Rightarrow> picker_state \<Rightarrow> picker_state" where
  "handleSearch query hits s =
     (if js_trim query = [] then s\<lparr>pquery := query, presults := []\<rparr>
      else (let localResults = (if pfuse s = None then [] else map local_seed hits) in
            if 3 \<le> length localResults
            then s\<lparr>pquery := query, presults := take 8 localResults, psearching := False\<rparr>
            else s\<lparr>pquery := query, psearching := True,
                   pinflight := pinflight s @ [(pnext s, query, localResults)], pnext := Suc (pnext s)\<rparr>))"

text \<open>The continuation of \<open>handleSearch\<close> after the remote answer (its \<open>finally\<close> included).\<close>

definition handleSearch_resume :: "nat \<Rightarrow> qloo_entity list response \<Rightarrow> picker_state \<Rightarrow> picker_state" where
  "handleSearch_resume k r s =
     (case map_of (pinflight s) k of
        None \<Rightarrow> s
      | Some (query, localResults) \<Rightarrow>
          (case picker_searchRemote r s of
             (s1, remoteResults) \<Rightarrow>
               s1\<lparr>presults := take 8 (localResults @ remoteResults), psearching := False,
                  pinflight := filter (\<lambda>p. fst p \<noteq> k) (pinflight s1)\<rparr>))"

subsection \<open>Selection\<close>

definition announce :: "string \<Rightarrow> string \<Rightarrow> nat \<Rightarrow> string" where
  "announce verb name n =
     verb @ '' '' @ name @ ''. '' @ nat_str n @ '' taste'' @ (if n \<noteq> 1 then ''s'' else []) @ '' selected.''"

definition handleTasteSelect :: "seed \<Rightarrow> picker_state \<Rightarrow> picker_state" where
  "handleTasteSelect taste s =
     (if has_id (tid taste) (pselected s) then s
      else (let newSelection = pselected s @ [taste] in
            s\<lparr>pselected := newSelection,
              pannounce := announce ''Added'' (tname taste) (length newSelection)\<rparr>))"

definition handleTasteRemove :: "string \<Rightarrow> picker_state \<Rightarrow> picker_state" where
  "handleTasteRemove tasteId s =
     (let filtered = remove_taste tasteId (pselected s) in
      case find (\<lambda>t. tid t = tasteId) (pselected s) of
        None \<Rightarrow> s\<lparr>pselected := filtered\<rparr>
      | Some removedTaste \<Rightarrow>
          s\<lparr>pselected := filtered, pannounce := announce ''Removed'' (tname removedTaste) (length filtered)\<rparr>)"

definition handleCTA :: "nat \<Rightarrow> picker_state \<Rightarrow> picker_state" where
  "handleCTA minSelections s =
     (if minSelections \<le> length (pselected s) then s\<lparr>pcomplete := pcomplete s @ [pselected s]\<rparr> else s)"

subsection \<open>Events\<close>

text \<open>
  \<open>PType\<close> is the input's \<open>onChange\<close>; a new query re-runs the debounce effect,
  whose cleanup clears the old timer. \<open>PDebounce\<close> is the timer firing, with the
  Fuse hits for the query it searches; \<open>PRemote k\<close> the answer to search \<open>k\<close>.
\<close>

datatype picker_event =
    PCatalogLoaded "catalog response"
  | PTrendingLoaded "string option list response"
  | PType string
  | PDebounce "((tag \<times> string) \<times> real) list"
  | PRemote nat "qloo_entity list response"
  | PSelect seed
  | PRemove string
  | PCTA
  | PTab picker_tab
  | PDismissError

fun picker_step :: "string \<Rightarrow> nat \<Rightarrow> picker_event \<Rightarrow> picker_state \<Rightarrow> picker_state" where
  "picker_step loc minSelections (PCatalogLoaded r) s = picker_loadCatalog r s"
| "picker_step loc minSelections (PTrendingLoaded r) s = picker_fetchTrending loc r s"
| "picker_step loc minSelections (PType q) s =
     (if q = pquery s then s else s\<lparr>pquery := q, ptimer := Some q\<rparr>)"
| "picker_step loc minSelections (PDebounce hits) s =
     (case ptimer s of None \<Rightarrow> s | Some q \<Rightarrow> handleSearch q hits (s\<lparr>ptimer := None\<rparr>))"
| "picker_step loc minSelections (PRemote k r) s = handleSearch_resume k r s"
| "picker_step loc minSelections (PSelect t) s = handleTasteSelect t s"
| "picker_step loc minSelections (PRemove i) s = handleTasteRemove i s"
| "picker_step loc minSelections PCTA s = handleCTA minSelections s"
| "picker_step loc minSelections (PTab t) s = s\<lparr>ptab := t\<rparr>"
| "picker_step loc minSelections PDismissError s = s\<lparr>perror := None\<rparr>"

definition picker_run :: "string \<Rightarrow> nat \<Rightarrow> picker_event list \<Rightarrow> picker_state" where
  "picker_run loc minSelections evs = foldl (\<lambda>s ev. picker_step loc minSelections ev s) picker_init evs"

text \<open>
  The picker's safety invariant: the selection has distinct ids, every
  \<open>onSelectionComplete\<close> call received at least \<open>minSelections\<close> tastes with distinct
  ids, at most eight results are shown, and every awaited search has its own number.
\<close>

definition picker_inv :: "nat \<Rightarrow> picker_state \<Rightarrow> bool" where
  "picker_inv minSelections s \<longleftrightarrow>
     distinct (map tid (pselected s))
     \<and> (\<forall>c \<in> set (pcomplete s). minSelections \<le> length c \<and> distinct (map tid c))
     \<and> length (presults s) \<le> 8
     \<and> distinct (map fst (pinflight s)) \<and> (\<forall>k \<in> fst ` set (pinflight s). k < pnext s)"

text \<open>A search scenario: a three-item catalog and a remote entity.\<close>

definition jazz_catalog :: catalog where
  "jazz_catalog = [(''music'', [\<lparr>tid = ''jazz'', tname = ''Jazz''\<rparr>, \<lparr>tid = ''jazz_clubs'', tname = ''Jazz Clubs''\<rparr>,
                                \<lparr>tid = ''jazz_fusion'', tname = ''Jazz Fusion''\<rparr>])]"

definition jazz_hits :: "((tag \<times> string) \<times> real) list" where
  "jazz_hits = map (\<lambda>it. (it, 0)) (allItems jazz_catalog)"

definition jamiroquai :: qloo_entity where
  "jamiroquai = \<lparr>eid = Some ''qloo_jamiroquai'', ename = Some ''Jamiroquai'', etype = None\<rparr>"

subsection \<open>Lemmas\<close>


lemma picker_handleSearch_inv:
  "picker_inv m s \<Longrightarrow> picker_inv m (handleSearch q hits s)"
  by (auto simp: handleSearch_def picker_inv_def Let_def)

lemma picker_resume_inv:
  assumes "picker_inv m s"
  shows "picker_inv m (handleSearch_resume k r s)"
proof (cases "map_of (pinflight s) k")
  case (Some a)
  have frame: "pselected (fst (picker_searchRemote r s)) = pselected s
               \<and> pcomplete (fst (picker_searchRemote r s)) = pcomplete s
               \<and> pinflight (fst (picker_searchRemote r s)) = pinflight s
               \<and> pnext (fst (picker_searchRemote r s)) = pnext s"
    by (simp add: picker_searchRemote_def split: response.splits sum.splits)
  have b: "a < pnext s" if "(a, q, l) \<in> set (pinflight s)" for a q l
    using assms that by (force simp: picker_inv_def)
  from Some assms frame show ?thesis
    by (auto simp: handleSearch_resume_def picker_inv_def distinct_map_filter dest: b split: prod.splits)
qed (simp add: handleSearch_resume_def assms)

lemma picker_step_inv:
  "picker_inv m s \<Longrightarrow> picker_inv m (picker_step loc m ev s)"
proof (cases ev)
  case (PDebounce hits)
  assume "picker_inv m s"
  then show ?thesis using PDebounce picker_handleSearch_inv [of m "s\<lparr>ptimer := None\<rparr>"]
    by (auto simp: picker_inv_def split: option.splits)
next
  case (PRemote k r)
  assume "picker_inv m s"
  then show ?thesis using PRemote picker_resume_inv by simp
next
  case (PSelect t)
  assume "picker_inv m s"
  then show ?thesis using PSelect
    by (auto simp: handleTasteSelect_def picker_inv_def Let_def has_id_iff)
next
  case (PRemove i)
  assume "picker_inv m s"
  then show ?thesis using PRemove remove_taste_distinct [of "pselected s" i]
    by (auto simp: handleTasteRemove_def picker_inv_def Let_def split: option.splits)
qed (auto simp: picker_inv_def picker_loadCatalog_def picker_fetchTrending_def handleCTA_def
          split: response.splits sum.splits)

lemma picker_step_pcomplete: "\<exists>c. pcomplete (picker_step l m ev s) = pcomplete s @ c"
proof (cases ev)
  case (PRemote k r)
  have "pcomplete (fst (picker_searchRemote r s)) = pcomplete s"
    by (simp add: picker_searchRemote_def split: response.splits sum.splits)
  with PRemote show ?thesis
    by (auto simp: handleSearch_resume_def split: option.splits prod.splits)
qed (auto simp: picker_loadCatalog_def picker_fetchTrending_def handleSearch_def handleTasteSelect_def
                handleTasteRemove_def handleCTA_def Let_def split: response.splits sum.splits option.splits)

text \<open>
  C4: in every run of the picker the selection has distinct ids, every
  onSelectionComplete call receives at least minSelections tastes with distinct ids,
  at most eight results are shown, and awaited searches have distinct numbers.
\<close>

lemma picker_run_inv: "picker_inv m (picker_run loc m evs)"
proof -
  have "picker_inv m picker_init"
    by (simp add: picker_inv_def picker_init_def)
  then show ?thesis
    unfolding picker_run_def by (rule foldl_invariant [rotated]) (simp add: picker_step_inv)
qed

lemma picker_run_inv_witness:
  "picker_inv 3 (picker_run ''New York, NY'' 3 [PSelect (picker_trending_seed ''a'' ''A'' None), PCTA])"
  by (rule picker_run_inv)



end
