(* ===== verification/Chat.thy ===== *)
theory Chat
  imports Planner
begin

text \<open>
  The chat panel (\<open>src/culturis-studio/src/components/ChatbotPanel.js\<close>): the keyword
  dispatch of \<open>handleRouteQuery\<close>, the local route edits \<open>handleVenueReplacement\<close>,
  \<open>handleVenueDetails\<close>, \<open>handleTimingAdjustment\<close>, \<open>handleNavigationRequest\<close>, the
  keyword fallback \<open>mockExtractTastes\<close>, and \<open>handleSubmit\<close> with the component state it
  changes. The backend (\<open>/api/refine-route\<close>, \<open>/api/extract-tastes\<close>) is an external
  collaborator: its answer is an input of the step that resumes after the \<open>await\<close>.
  A reply is represented by the values its text interpolates.
\<close>

subsection \<open>The route as the chat sees it\<close>

text \<open>
  An entry of \<open>currentRoute.venues\<close>: a stop of a planned route, or a pool venue put in
  its place by a replacement (which has no \<open>order\<close>, \<open>arrivalTime\<close>,
  \<open>estimatedTime\<close> or \<open>notes\<close>).
\<close>

datatype route_entry = PlannedStop route_stop | PoolVenue venue

fun entry_venue :: "route_entry \<Rightarrow> venue" where
  "entry_venue (PlannedStop s) = venue.truncate s"
| "entry_venue (PoolVenue v) = v"

fun entry_estimated :: "route_entry \<Rightarrow> int option" where
  "entry_estimated (PlannedStop s) = Some (estimatedTime s)"
| "entry_estimated (PoolVenue v) = None"

fun entry_notes :: "route_entry \<Rightarrow> string option" where
  "entry_notes (PlannedStop s) = Some (stopNotes s)"
| "entry_notes (PoolVenue v) = None"

record chat_route =
  cvenues :: "route_entry list"
  ctotalDuration :: int
  cstartTime :: clock

text \<open>The planner's route handed to the chat through \<open>onUpdateRoute\<close>.\<close>

definition chat_route_of :: "planned_route \<Rightarrow> chat_route" where
  "chat_route_of r = \<lparr>cvenues = map PlannedStop (rvenues r), ctotalDuration = totalDuration r,
                       cstartTime = startTime r\<rparr>"

subsection \<open>Replies\<close>

datatype chat_reply =
    Greeting string
  | RouteUpdateReply string
  | RouteHelpReply string
  | ReplaceReply string string string real "venue list"
  | ReplaceHelp
  | DetailsReply string string real "real option" "int option" string
  | DetailsHelp
  | TimingReply int
  | NavigationReply "string option" clock
  | TasteReply string "taste list" bool
  | ErrorReply

subsection \<open>Replacing a stop\<close>

text \<open>The type test of the \<open>restaurant\<close> and \<open>bar\<close> targets: \<open>v.type.toLowerCase()\<close>.\<close>

definition type_mentions :: "string \<Rightarrow> route_entry \<Rightarrow> js_error + bool" where
  "type_mentions w e =
     (case vtype (entry_venue e) of None \<Rightarrow> Inl TypeError | Some t \<Rightarrow> Inr (js_includes (js_lower t) w))"

text \<open>The target of a replacement and the type the replacement must have.\<close>

definition replace_target :: "string \<Rightarrow> route_entry list \<Rightarrow> js_error + route_entry option \<times> string option" where
  "replace_target lowerMessage routeVenues =
     (if js_includes lowerMessage ''first'' \<or> js_includes lowerMessage ''1st'' then Inr (js_at routeVenues 0, None)
      else if js_includes lowerMessage ''second'' \<or> js_includes lowerMessage ''2nd'' then Inr (js_at routeVenues 1, None)
      else if js_includes lowerMessage ''last'' then Inr (js_at routeVenues (length routeVenues - 1), None)
      else if js_includes lowerMessage ''restaurant'' then
        (case js_find (type_mentions ''restaurant'') routeVenues of
           Inl e \<Rightarrow> Inl e | Inr t \<Rightarrow> Inr (t, Some ''Restaurant''))
      else if js_includes lowerMessage ''bar'' then
        (case js_find (type_mentions ''bar'') routeVenues of
           Inl e \<Rightarrow> Inl e | Inr t \<Rightarrow> Inr (t, Some ''Bar''))
      else Inr (None, None))"

text \<open>The \<open>alternatives\<close>: pool venues other than the target and not on the route.\<close>

definition replace_eligible :: "route_entry list \<Rightarrow> route_entry \<Rightarrow> string option \<Rightarrow> venue \<Rightarrow> bool" where
  "replace_eligible routeVenues targetVenue replacementType v \<longleftrightarrow>
     vid v \<noteq> vid (entry_venue targetVenue)
     \<and> (replacementType = None \<or> vtype v = replacementType)
     \<and> \<not> (\<exists>rv \<in> set routeVenues. vid (entry_venue rv) = vid v)"

definition replacement_candidates :: "venue list \<Rightarrow> route_entry list \<Rightarrow> route_entry \<Rightarrow> string option \<Rightarrow> venue list" where
  "replacement_candidates venues routeVenues targetVenue replacementType =
     take 3 (filter (replace_eligible routeVenues targetVenue replacementType) venues)"

text \<open>
  \<open>handleVenueReplacement(message)\<close>: the route it hands to \<open>onRouteUpdate\<close> (if any)
  and its result, \<open>null\<close> being \<open>None\<close>. The reply's text reads the new venue's type
  after \<open>onRouteUpdate\<close> has run, so the update can happen and the handler still throw.
\<close>

definition handleVenueReplacement :: "string \<Rightarrow> chat_route \<Rightarrow> venue list
                                       \<Rightarrow> chat_route option \<times> (js_error + chat_reply option)" where
  "handleVenueReplacement message currentRoute venues =
     (let routeVenues = cvenues currentRoute in
      if routeVenues = [] then (None, Inr None)
      else (case replace_target (js_lower message) routeVenues of
              Inl e \<Rightarrow> (None, Inl e)
            | Inr (None, _) \<Rightarrow> (None, Inr (Some ReplaceHelp))
            | Inr (Some targetVenue, replacementType) \<Rightarrow>
                (let alternatives = replacement_candidates venues routeVenues targetVenue replacementType in
                 if alternatives = [] then (None, Inr (Some ReplaceHelp))
                 else
                   (let alt = alternatives ! 0;
                        updatedVenues = map (\<lambda>v. if vid (entry_venue v) = vid (entry_venue targetVenue)
                                                 then PoolVenue alt else v) routeVenues;
                        updatedRoute = currentRoute\<lparr>cvenues := updatedVenues\<rparr>
                    in (Some updatedRoute,
                        case vtype alt of
                          None \<Rightarrow> Inl TypeError
                        | Some t \<Rightarrow> Inr (Some (ReplaceReply (vname (entry_venue targetVenue)) (vname alt)
                                                  (js_lower t) (affinity alt) (drop 1 alternatives))))))))"

subsection \<open>Details, timing and directions\<close>

definition details_target :: "string \<Rightarrow> route_entry list \<Rightarrow> route_entry option" where
  "details_target lowerMessage routeVenues =
     (if js_includes lowerMessage ''first'' \<or> js_includes lowerMessage ''1st'' then js_at routeVenues 0
      else if js_includes lowerMessage ''second'' \<or> js_includes lowerMessage ''2nd'' then js_at routeVenues 1
      else if js_includes lowerMessage ''third'' \<or> js_includes lowerMessage ''3rd'' then js_at routeVenues 2
      else if js_includes lowerMessage ''last'' then js_at routeVenues (length routeVenues - 1)
      else None)"

definition handleVenueDetails :: "string \<Rightarrow> chat_route \<Rightarrow> js_error + chat_reply option" where
  "handleVenueDetails message currentRoute =
     (let routeVenues = cvenues currentRoute in
      if routeVenues = [] then Inr None
      else (case details_target (js_lower message) routeVenues of
              None \<Rightarrow> Inr (Some DetailsHelp)
            | Some t \<Rightarrow>
                (let v = entry_venue t in
                 case vtype v of
                   None \<Rightarrow> Inl TypeError
                 | Some ty \<Rightarrow>
                     Inr (Some (DetailsReply (vname v) (js_lower ty) (affinity v) (rating v) (entry_estimated t)
                                  (case entry_notes t of
                                     Some n \<Rightarrow> if n = [] then ''Perfect for exploring your cultural interests!'' else n
                                   | None \<Rightarrow> ''Perfect for exploring your cultural interests!''))))))"

definition handleTimingAdjustment :: "chat_route option \<Rightarrow> chat_reply option" where
  "handleTimingAdjustment currentRoute = map_option (\<lambda>r. TimingReply (ctotalDuration r)) currentRoute"

definition handleNavigationRequest :: "chat_route option \<Rightarrow> chat_reply option" where
  "handleNavigationRequest currentRoute =
     map_option (\<lambda>r. NavigationReply (map_option (vname \<circ> entry_venue) (js_at (cvenues r) 0)) (cstartTime r))
       currentRoute"

subsection \<open>Dispatch\<close>

text \<open>The answer of \<open>/api/refine-route\<close>: failed (or not \<open>ok\<close>), a new route, or help.\<close>

datatype backend_answer = BackendFailed | BackendRoute string chat_route | BackendHelp string

definition mentions_any :: "string \<Rightarrow> string list \<Rightarrow> bool" where
  "mentions_any s ws \<longleftrightarrow> (\<exists>w \<in> set ws. js_includes s w)"

definition handleRouteQuery :: "string \<Rightarrow> chat_route \<Rightarrow> venue list \<Rightarrow> backend_answer
                                 \<Rightarrow> chat_route option \<times> (js_error + chat_reply option)" where
  "handleRouteQuery userMessage currentRoute venues answer =
     (let lowerMessage = js_lower userMessage;
          local =
            (if mentions_any lowerMessage [''replace'', ''swap'', ''different'']
             then handleVenueReplacement userMessage currentRoute venues
             else if mentions_any lowerMessage [''tell me about'', ''more info'', ''details'']
             then (None, handleVenueDetails userMessage currentRoute)
             else if mentions_any lowerMessage [''timing'', ''schedule'', ''time'']
             then (None, Inr (handleTimingAdjustment (Some currentRoute)))
             else if mentions_any lowerMessage [''directions'', ''how to get'', ''navigate'']
             then (None, Inr (handleNavigationRequest (Some currentRoute)))
             else (None, Inr None))
      in if mentions_any lowerMessage [''replace'', ''swap'', ''different'', ''tell me about'', ''details'',
                                      ''first'', ''second'', ''restaurant'']
         then (case answer of
                 BackendRoute m r \<Rightarrow> (Some r, Inr (Some (RouteUpdateReply m)))
               | BackendHelp m \<Rightarrow> (None, Inr (Some (RouteHelpReply m)))
               | BackendFailed \<Rightarrow> local)
         else local)"

subsection \<open>Taste extraction fallback\<close>

definition tasteKeywords :: "(string \<times> taste) list" where
  "tasteKeywords =
     [(''lofi'', \<lparr>tid = ''lofi_venues'', tname = ''Lofi & Chill Venues'', tcolor = ''#A3C1AD''\<rparr>),
      (''jazz'', \<lparr>tid = ''jazz_music'', tname = ''Jazz Music'', tcolor = ''#8e44ad''\<rparr>),
      (''coffee'', \<lparr>tid = ''specialty_coffee'', tname = ''Specialty Coffee'', tcolor = ''#795548''\<rparr>),
      (''art'', \<lparr>tid = ''contemporary_art'', tname = ''Contemporary Art'', tcolor = ''#e91e63''\<rparr>),
      (''gallery'', \<lparr>tid = ''art_galleries'', tname = ''Art Galleries'', tcolor = ''#e91e63''\<rparr>),
      (''food'', \<lparr>tid = ''gourmet_food'', tname = ''Gourmet Food'', tcolor = ''#ff5722''\<rparr>),
      (''restaurant'', \<lparr>tid = ''fine_dining'', tname = ''Fine Dining'', tcolor = ''#ff5722''\<rparr>),
      (''music'', \<lparr>tid = ''live_music'', tname = ''Live Music'', tcolor = ''#9c27b0''\<rparr>),
      (''vintage'', \<lparr>tid = ''vintage_shops'', tname = ''Vintage Shopping'', tcolor = ''#607d8b''\<rparr>),
      (''books'', \<lparr>tid = ''bookstores'', tname = ''Independent Bookstores'', tcolor = ''#3f51b5''\<rparr>),
      (''craft'', \<lparr>tid = ''craft_beer'', tname = ''Craft Beer'', tcolor = ''#ff9800''\<rparr>),
      (''outdoor'', \<lparr>tid = ''outdoor_activities'', tname = ''Outdoor Activities'', tcolor = ''#4caf50''\<rparr>),
      (''theater'', \<lparr>tid = ''theater'', tname = ''Theater & Performance'', tcolor = ''#673ab7''\<rparr>),
      (''local'', \<lparr>tid = ''local_culture'', tname = ''Local Culture'', tcolor = ''#009688''\<rparr>),
      (''hidden'', \<lparr>tid = ''hidden_gems'', tname = ''Hidden Gems'', tcolor = ''#795548''\<rparr>),
      (''rooftop'', \<lparr>tid = ''rooftop_venues'', tname = ''Rooftop Venues'', tcolor = ''#00bcd4''\<rparr>),
      (''cocktail'', \<lparr>tid = ''craft_cocktails'', tname = ''Craft Cocktails'', tcolor = ''#e91e63''\<rparr>),
      (''museum'', \<lparr>tid = ''museums'', tname = ''Museums'', tcolor = ''#673ab7''\<rparr>),
      (''market'', \<lparr>tid = ''local_markets'', tname = ''Local Markets'', tcolor = ''#ff9800''\<rparr>),
      (''nightlife'', \<lparr>tid = ''nightlife'', tname = ''Nightlife'', tcolor = ''#9c27b0''\<rparr>),
      (''chill'', \<lparr>tid = ''chill_spots'', tname = ''Chill Spots'', tcolor = ''#A3C1AD''\<rparr>),
      (''theme'', \<lparr>tid = ''themed_venues'', tname = ''Themed Venues'', tcolor = ''#9b59b6''\<rparr>),
      (''aesthetic'', \<lparr>tid = ''aesthetic_spaces'', tname = ''Aesthetic Spaces'', tcolor = ''#e74c3c''\<rparr>),
      (''vibe'', \<lparr>tid = ''good_vibes'', tname = ''Good Vibes'', tcolor = ''#1abc9c''\<rparr>),
      (''atmosphere'', \<lparr>tid = ''atmospheric_venues'', tname = ''Atmospheric Venues'', tcolor = ''#f39c12''\<rparr>)]"

text \<open>\<open>Object.entries(tasteKeywords).forEach\<close>: the table's order, one push per keyword found.\<close>

fun extract_loop :: "string \<Rightarrow> (string \<times> taste) list \<Rightarrow> taste list \<Rightarrow> taste list" where
  "extract_loop lowerMessage [] extractedTastes = extractedTastes"
| "extract_loop lowerMessage ((keyword, t) # rest) extractedTastes =
     extract_loop lowerMessage rest
       (if js_includes lowerMessage keyword then extractedTastes @ [t] else extractedTastes)"

definition mockExtractTastes :: "string \<Rightarrow> taste list" where
  "mockExtractTastes message = extract_loop (js_lower message) tasteKeywords []"

subsection \<open>The component state\<close>

datatype chat_message = UserMsg string | BotMsg chat_reply

datatype chat_output = RouteUpdateOut chat_route | TastesOut "taste list"

text \<open>The \<open>onRouteUpdate\<close> call a handler made, if any.\<close>

definition route_outs :: "chat_route option \<Rightarrow> chat_output list" where
  "route_outs upd = (case upd of None \<Rightarrow> [] | Some r \<Rightarrow> [RouteUpdateOut r])"

text \<open>The answer of \<open>/api/extract-tastes\<close>: a list, or a failure that falls back to the keywords.\<close>

datatype taste_answer = TastesOk "taste list" | TastesFailed

text \<open>
  The hooks \<open>messages\<close>, \<open>inputValue\<close>, \<open>isLoading\<close>, the parent callbacks as an outbox,
  and the request in flight between \<open>handleSubmit\<close>'s synchronous part and its
  continuation after the \<open>await\<close>, with the props its closure captured.
\<close>

record chat_state =
  messages :: "chat_message list"
  inputValue :: string
  isLoading :: bool
  inflight :: "(string \<times> chat_route option \<times> venue list) option"
  chatOut :: "chat_output list"

definition chat_init :: "string \<Rightarrow> chat_state" where
  "chat_init currentLocation =
     \<lparr>messages = [BotMsg (Greeting currentLocation)], inputValue = [], isLoading = False,
      inflight = None, chatOut = []\<rparr>"

datatype chat_event =
    TypeInput string
  | Submit "chat_route option" "venue list"
  | Respond backend_answer taste_answer

text \<open>The taste part of the continuation: extract, report, answer.\<close>

definition taste_reply :: "string \<Rightarrow> chat_route option \<Rightarrow> taste_answer \<Rightarrow> chat_output list \<times> chat_reply" where
  "taste_reply userMessage currentRoute answer =
     (let extractedTastes = (case answer of TastesOk ts \<Rightarrow> ts | TastesFailed \<Rightarrow> mockExtractTastes userMessage)
      in (if extractedTastes \<noteq> [] then [TastesOut extractedTastes] else [],
          TasteReply (js_lower userMessage) extractedTastes (currentRoute \<noteq> None)))"

text \<open>
  The continuation of \<open>handleSubmit\<close> after its \<open>await\<close>s: the route query when the
  captured route has stops, else (or when it answers \<open>null\<close>) the taste extraction;
  a thrown error becomes the apology message; \<open>finally\<close> clears \<open>isLoading\<close>.
\<close>

definition chat_respond :: "string \<Rightarrow> chat_route option \<Rightarrow> venue list \<Rightarrow> backend_answer \<Rightarrow> taste_answer
                             \<Rightarrow> chat_output list \<times> chat_reply" where
  "chat_respond userMessage currentRoute venues ba ta =
     (case currentRoute of
        Some r \<Rightarrow>
          if cvenues r \<noteq> [] then
            (case handleRouteQuery userMessage r venues ba of
               (upd, Inl e) \<Rightarrow> (route_outs upd, ErrorReply)
             | (upd, Inr (Some reply)) \<Rightarrow> (route_outs upd, reply)
             | (upd, Inr None) \<Rightarrow>
                 (case taste_reply userMessage currentRoute ta of
                    (outs, reply) \<Rightarrow> (route_outs upd @ outs, reply)))
          else taste_reply userMessage currentRoute ta
      | None \<Rightarrow> taste_reply userMessage currentRoute ta)"

fun chat_step :: "chat_event \<Rightarrow> chat_state \<Rightarrow> chat_state" where
  "chat_step (TypeInput v) s = s\<lparr>inputValue := v\<rparr>"
| "chat_step (Submit currentRoute venues) s =
     (if js_trim (inputValue s) = [] \<or> isLoading s then s
      else s\<lparr>inputValue := [], isLoading := True,
             messages := messages s @ [UserMsg (js_trim (inputValue s))],
             inflight := Some (js_trim (inputValue s), currentRoute, venues)\<rparr>)"
| "chat_step (Respond ba ta) s =
     (case inflight s of
        None \<Rightarrow> s
      | Some (userMessage, currentRoute, venues) \<Rightarrow>
          (case chat_respond userMessage currentRoute venues ba ta of
             (outs, reply) \<Rightarrow>
               s\<lparr>messages := messages s @ [BotMsg reply], chatOut := chatOut s @ outs,
                  isLoading := False, inflight := None\<rparr>))"

text \<open>A one-stop route starting at 10:00 AM, for the replacement scenarios.\<close>

definition one_stop_route :: chat_route where
  "one_stop_route =
     \<lparr>cvenues = [PlannedStop (mk_stop (sample_venue 1 ''Museum'' 90 (0, 0)) 90 1 ten_am 90 0 ''Notes'')],
      ctotalDuration = 90, cstartTime = ten_am\<rparr>"

text \<open>
  The conversation so far: it opens with the greeting, has no empty user message, and has
  one bot answer per user message except for the one in flight; \<open>isLoading\<close> is set
  exactly while a request is in flight.
\<close>

fun is_user_msg :: "chat_message \<Rightarrow> bool" where
  "is_user_msg (UserMsg m) = True"
| "is_user_msg (BotMsg r) = False"

definition chat_inv :: "chat_state \<Rightarrow> bool" where
  "chat_inv s \<longleftrightarrow>
     (isLoading s \<longleftrightarrow> inflight s \<noteq> None)
     \<and> (\<exists>loc rest. messages s = BotMsg (Greeting loc) # rest)
     \<and> UserMsg [] \<notin> set (messages s)
     \<and> length (filter is_user_msg (messages s)) + 1
         = length (filter (Not \<circ> is_user_msg) (messages s)) + (if inflight s = None then 0 else 1)"

inductive chat_reach :: "string \<Rightarrow> chat_state \<Rightarrow> bool" for loc where
  init: "chat_reach loc (chat_init loc)"
| step: "chat_reach loc s \<Longrightarrow> chat_reach loc (chat_step e s)"


subsection \<open>Lemmas\<close>

lemma chat_step_inv:
  assumes "chat_inv s"
  shows "chat_inv (chat_step e s)"
proof (cases e)
  case (TypeInput v)
  then show ?thesis using assms by (simp add: chat_inv_def)
next
  case (Submit r vs)
  show ?thesis
  proof (cases "js_trim (inputValue s) = [] \<or> isLoading s")
    case True
    then show ?thesis using assms Submit by simp
  next
    case False
    then have "inflight s = None" using assms unfolding chat_inv_def by blast
    with False assms Submit show ?thesis by (auto simp: chat_inv_def)
  qed
next
  case (Respond ba ta)
  show ?thesis
  proof (cases "inflight s")
    case None
    then show ?thesis using assms Respond by simp
  next
    case (Some q)
    obtain m r vs where q: "q = (m, r, vs)" by (cases q) auto
    obtain outs reply where c: "chat_respond m r vs ba ta = (outs, reply)" by (cases "chat_respond m r vs ba ta")
    show ?thesis using assms Respond Some q c by (auto simp: chat_inv_def)
  qed
qed

text \<open>
  C2: in every reachable state of the chat panel the conversation opens with the greeting,
  holds no empty user message and one answer per user message except the one in flight,
  and \<open>isLoading\<close> is set exactly while a request is in flight.
\<close>

lemma chat_reachable_inv:
  assumes "chat_reach loc s"
  shows "chat_inv s"
  using assms
proof (induction rule: chat_reach.induct)
  case init
  then show ?case by (simp add: chat_init_def chat_inv_def)
next
  case (step s e)
  from chat_step_inv [OF step.IH] show ?case .
qed

lemma chat_reachable_inv_witness:
  "chat_inv (chat_step (Submit None []) (chat_step (TypeInput ''jazz'') (chat_init ''Boston'')))"
  by (rule chat_reachable_inv [OF chat_reach.step [OF chat_reach.step [OF chat_reach.init]]])

lemma truncate_mk_stop [simp]:
  "venue.truncate (mk_stop v a i arr et tt n) = v\<lparr>affinity := a\<rparr>"
  by (simp add: mk_stop_def venue.defs route_stop.defs)

lemma replace_target_mem:
  "replace_target m rv = Inr (Some t, ty) \<Longrightarrow> t \<in> set rv"
  by (auto simp: replace_target_def split: if_splits sum.splits dest: js_at_mem js_find_mem)


lemma lower_replace_first: "js_lower ''Replace the first venue'' = ''replace the first venue''"
  by (simp add: js_lower_def js_lower_char_def char_of_def bit_0)


text \<open>
  The replacement takes the first eligible pool venue, not the one with the highest
  affinity: a 60 is chosen over a 95.
\<close>

lemma replacement_first_not_best:
  "fst (handleVenueReplacement ''Replace the first venue'' one_stop_route
          [sample_venue 2 ''Cafe'' 60 (0, 1), sample_venue 3 ''Cafe'' 95 (0, 2)])
   = Some (one_stop_route\<lparr>cvenues := [PoolVenue (sample_venue 2 ''Cafe'' 60 (0, 1))]\<rparr>)"
proof -
  have low: "js_lower ''Replace the first venue'' = ''replace the first venue''"
    by (simp add: js_lower_def js_lower_char_def char_of_def bit_0)
  show ?thesis
    by (simp add: handleVenueReplacement_def low replace_target_def js_at_def replacement_candidates_def
                  replace_eligible_def one_stop_route_def sample_venue_def Let_def)
qed

text \<open>
  After a replacement the new entry has no dwell time: the details of a planned stop
  report its 90 minutes, those of the venue put in its place report none.
\<close>

lemma details_after_replacement:
  "handleVenueDetails ''tell me about the first venue'' one_stop_route
     = Inr (Some (DetailsReply ''Venue'' ''museum'' 90 None (Some 90) ''Notes''))
   \<and> handleVenueDetails ''tell me about the first venue''
       (one_stop_route\<lparr>cvenues := [PoolVenue (sample_venue 2 ''Cafe'' 60 (0, 1))]\<rparr>)
     = Inr (Some (DetailsReply ''Venue'' ''cafe'' 60 None None ''Perfect for exploring your cultural interests!''))"
proof -
  have l1: "js_lower ''tell me about the first venue'' = ''tell me about the first venue''"
    and l2: "js_lower ''Museum'' = ''museum''" and l3: "js_lower ''Cafe'' = ''cafe''"
    by (simp_all add: js_lower_def js_lower_char_def char_of_def bit_0)
  show ?thesis
    by (simp add: handleVenueDetails_def details_target_def js_at_def one_stop_route_def sample_venue_def
                  l1 l2 l3 Let_def)
qed


lemma extract_loop_filter:
  "extract_loop m kws acc = acc @ map snd (filter (\<lambda>p. js_includes m (fst p)) kws)"
  by (induction m kws acc rule: extract_loop.induct) auto

lemma tasteKeywords_distinct: "distinct (map (tid \<circ> snd) tasteKeywords)"
  by (simp add: tasteKeywords_def)

text \<open>
  The keyword fallback returns, in table order, the tastes whose keyword occurs in the
  lower-cased message, without repeated ids.
\<close>

lemma mockExtractTastes_spec:
  "mockExtractTastes message = map snd (filter (\<lambda>p. js_includes (js_lower message) (fst p)) tasteKeywords)
   \<and> distinct (map tid (mockExtractTastes message))
   \<and> subseq (mockExtractTastes message) (map snd tasteKeywords)"
proof -
  have eq: "mockExtractTastes message = map snd (filter (\<lambda>p. js_includes (js_lower message) (fst p)) tasteKeywords)"
    by (simp add: mockExtractTastes_def extract_loop_filter)
  have "distinct (map (tid \<circ> snd) (filter (\<lambda>p. js_includes (js_lower message) (fst p)) tasteKeywords))"
    using tasteKeywords_distinct by (simp add: distinct_map_filter)
  moreover have "subseq (filter (\<lambda>p. js_includes (js_lower message) (fst p)) tasteKeywords) tasteKeywords"
    by (rule subseq_filter_left)
  ultimately show ?thesis
    using eq by (simp add: subseq_map)
qed

text \<open>
  Keywords match inside words: "Let us start" yields Contemporary Art.
\<close>

lemma mockExtractTastes_substring:
  "mockExtractTastes ''Let us start'' =
     [\<lparr>tid = ''contemporary_art'', tname = ''Contemporary Art'', tcolor = ''#e91e63''\<rparr>]"
proof -
  have "js_lower ''Let us start'' = ''let us start''"
    by (simp add: js_lower_def js_lower_char_def char_of_def bit_0)
  then show ?thesis
    by (simp add: mockExtractTastes_def tasteKeywords_def)
qed

end
