(* ===== verification/Page.thy ===== *)
theory Page
  imports Picker Chat
begin

text \<open>
  The page that hosts the picker, the map and the chat
  (\<open>components/PaintMyMapPage.js\<close>): its state hooks as \<open>page_state\<close>, its handlers
  as functions on it, and its composition with its children. The picker is mounted
  while the taste-selection view shows and is mounted afresh after \<open>Back\<close>; its
  \<open>onSelectionComplete\<close> calls are \<open>handleTasteSelection\<close>. The chat panel's outputs
  (\<open>onTastesExtracted\<close>, \<open>onRouteUpdate\<close>) arrive as \<open>chat_output\<close> values; routes
  from the planner arrive through \<open>chat_route_of\<close>.
\<close>

record page_state =
  gselected :: "seed list"
  gshowMap :: bool
  gcurrentLocation :: string
  gmapCenter :: coord
  gadditional :: "taste list"
  gshowDemoGuide :: bool
  gcurrentRoute :: "chat_route option"
  gvenues :: "venue list"

text \<open>\<open>getInitialCoordinates\<close>: the city table, New York for any other location.\<close>

definition locationMap :: "(string \<times> coord) list" where
  "locationMap =
     [(''Los Angeles, CA'', (34.0522, -118.2437)), (''San Francisco, CA'', (37.7749, -122.4194)),
      (''Chicago, IL'', (41.8781, -87.6298)), (''Miami, FL'', (25.7617, -80.1918)),
      (''Seattle, WA'', (47.6062, -122.3321)), (''Austin, TX'', (30.2672, -97.7431)),
      (''Boston, MA'', (42.3601, -71.0589)), (''New York, NY'', (40.7589, -73.9851))]"

definition getInitialCoordinates :: "string \<Rightarrow> coord" where
  "getInitialCoordinates location =
     (case map_of locationMap location of Some c \<Rightarrow> c | None \<Rightarrow> (40.7589, -73.9851))"

text \<open>The first render; an empty \<open>userLocation\<close> prop is falsy and means New York.\<close>

definition page_init :: "string \<Rightarrow> page_state" where
  "page_init userLocation =
     (let loc = (if userLocation = [] then ''New York, NY'' else userLocation) in
      \<lparr>gselected = [], gshowMap = False, gcurrentLocation = loc, gmapCenter = getInitialCoordinates loc,
       gadditional = [], gshowDemoGuide = False, gcurrentRoute = None, gvenues = []\<rparr>)"

definition handleTasteSelection :: "seed list \<Rightarrow> page_state \<Rightarrow> page_state" where
  "handleTasteSelection tastes s = s\<lparr>gselected := tastes, gshowMap := True, gshowDemoGuide := True\<rparr>"

definition handleBackToTastes :: "page_state \<Rightarrow> page_state" where
  "handleBackToTastes s = s\<lparr>gshowMap := False, gselected := [], gadditional := []\<rparr>"

definition handleLocationChange :: "string \<Rightarrow> coord option \<Rightarrow> page_state \<Rightarrow> page_state" where
  "handleLocationChange location coords s =
     (case coords of
        None \<Rightarrow> s\<lparr>gcurrentLocation := location\<rparr>
      | Some c \<Rightarrow> s\<lparr>gcurrentLocation := location, gmapCenter := c\<rparr>)"

text \<open>
  \<open>handleChatbotTastes\<close>: the new tastes whose id is neither selected nor already
  additional are appended. Duplicates inside one batch are not filtered.
\<close>

definition handleChatbotTastes :: "taste list \<Rightarrow> page_state \<Rightarrow> page_state" where
  "handleChatbotTastes newTastes s =
     (let existingIds = set (map tid (gselected s)) \<union> set (map tid (gadditional s));
          uniqueNewTastes = filter (\<lambda>taste. tid taste \<notin> existingIds) newTastes
      in s\<lparr>gadditional := gadditional s @ uniqueNewTastes\<rparr>)"

definition handleRouteUpdate :: "chat_route \<Rightarrow> page_state \<Rightarrow> page_state" where
  "handleRouteUpdate route s = s\<lparr>gcurrentRoute := Some route\<rparr>"

definition handleVenuesUpdate :: "venue list \<Rightarrow> page_state \<Rightarrow> page_state" where
  "handleVenuesUpdate newVenues s = s\<lparr>gvenues := newVenues\<rparr>"

text \<open>Which layout renders, and the tastes the map view receives (\<open>allTastes\<close>).\<close>

definition page_shows_map :: "page_state \<Rightarrow> bool" where
  "page_shows_map s \<longleftrightarrow> gshowMap s \<and> 3 \<le> length (gselected s)"

definition allTastes :: "page_state \<Rightarrow> tag list" where
  "allTastes s = map tag.truncate (gselected s) @ map tag.truncate (gadditional s)"

subsection \<open>The page with its children\<close>

record app_state =
  page :: page_state
  picker :: picker_state

datatype app_event =
    PickerEvent picker_event
  | ChatOutput chat_output
  | PlannerRoute planned_route
  | MapVenues "venue list"
  | Back
  | LocationChange string "coord option"
  | DemoClose

definition app_init :: "string \<Rightarrow> app_state" where
  "app_init userLocation = \<lparr>page = page_init userLocation, picker = picker_init\<rparr>"

text \<open>
  A picker event reaches the picker only while the selection view shows; a new
  \<open>onSelectionComplete\<close> call is handed to the page. Chat and map outputs reach the page
  only while the map layout shows, where those children are mounted. \<open>Back\<close> is the
  navigation panel's button; the picker mounts afresh.
\<close>

fun app_step :: "app_event \<Rightarrow> app_state \<Rightarrow> app_state" where
  "app_step (PickerEvent ev) a =
     (if page_shows_map (page a) then a
      else (let p' = picker_step (gcurrentLocation (page a)) 3 ev (picker a) in
            if length (pcomplete p') = length (pcomplete (picker a)) then a\<lparr>picker := p'\<rparr>
            else a\<lparr>picker := p', page := handleTasteSelection (last (pcomplete p')) (page a)\<rparr>))"
| "app_step (ChatOutput (TastesOut ts)) a =
     (if page_shows_map (page a) then a\<lparr>page := handleChatbotTastes ts (page a)\<rparr> else a)"
| "app_step (ChatOutput (RouteUpdateOut r)) a =
     (if page_shows_map (page a) then a\<lparr>page := handleRouteUpdate r (page a)\<rparr> else a)"
| "app_step (PlannerRoute r) a =
     (if page_shows_map (page a) then a\<lparr>page := handleRouteUpdate (chat_route_of r) (page a)\<rparr> else a)"
| "app_step (MapVenues vs) a =
     (if page_shows_map (page a) then a\<lparr>page := handleVenuesUpdate vs (page a)\<rparr> else a)"
| "app_step Back a =
     (if page_shows_map (page a) then \<lparr>page = handleBackToTastes (page a), picker = picker_init\<rparr> else a)"
| "app_step (LocationChange l c) a =
     (if page_shows_map (page a) then a\<lparr>page := handleLocationChange l c (page a)\<rparr> else a)"
| "app_step DemoClose a = a\<lparr>page := (page a)\<lparr>gshowDemoGuide := False\<rparr>\<rparr>"

text \<open>A chat batch as the chat panel's fallback extractor produces it: distinct ids.\<close>

fun app_event_ok :: "app_event \<Rightarrow> bool" where
  "app_event_ok (ChatOutput (TastesOut ts)) = distinct (map tid ts)"
| "app_event_ok _ = True"

definition app_run :: "string \<Rightarrow> app_event list \<Rightarrow> app_state" where
  "app_run userLocation evs = foldl (\<lambda>a ev. app_step ev a) (app_init userLocation) evs"

text \<open>
  The page's invariant: the map layout shows exactly when the map flag is set, the
  selection it shows has at least three tastes with distinct ids, the additional tastes
  have distinct ids none of which is selected, and the picker's own invariant holds.
\<close>

definition app_inv :: "app_state \<Rightarrow> bool" where
  "app_inv a \<longleftrightarrow>
     (gshowMap (page a) \<longleftrightarrow> page_shows_map (page a))
     \<and> distinct (map tid (gselected (page a)))
     \<and> distinct (map tid (gadditional (page a)))
     \<and> set (map tid (gselected (page a))) \<inter> set (map tid (gadditional (page a))) = {}
     \<and> (\<not> gshowMap (page a) \<longrightarrow> gselected (page a) = [] \<and> gadditional (page a) = [])
     \<and> picker_inv 3 (picker a)"

text \<open>Scenario data: three picked tastes and the chat panel's jazz taste.\<close>


definition three_seeds :: "seed list" where
  "three_seeds = [picker_trending_seed ''a'' ''A'' None, picker_trending_seed ''b'' ''B'' None,
                  picker_trending_seed ''c'' ''C'' None]"

definition jazz_taste :: taste where
  "jazz_taste = \<lparr>tid = ''jazz_music'', tname = ''Jazz Music'', tcolor = ''#8e44ad''\<rparr>"

subsection \<open>Lemmas\<close>


lemma handleChatbotTastes_ok:
  assumes "distinct (map tid (gselected s))" "distinct (map tid (gadditional s))"
    and "set (map tid (gselected s)) \<inter> set (map tid (gadditional s)) = {}"
    and "distinct (map tid ts)"
  shows "distinct (map tid (gadditional (handleChatbotTastes ts s)))
         \<and> set (map tid (gselected s)) \<inter> set (map tid (gadditional (handleChatbotTastes ts s))) = {}"
proof -
  let ?u = "filter (\<lambda>taste. tid taste \<notin> set (map tid (gselected s)) \<union> set (map tid (gadditional s))) ts"
  have u: "set (map tid ?u) \<inter> (set (map tid (gselected s)) \<union> set (map tid (gadditional s))) = {}"
    by auto
  have "distinct (map tid ?u)"
    using assms(4) by (simp add: distinct_map_filter)
  with u assms(1-3) show ?thesis
    by (auto simp: handleChatbotTastes_def Let_def)
qed

lemma app_step_inv:
  assumes inv: "app_inv a" and ok: "app_event_ok ev"
  shows "app_inv (app_step ev a)"
proof (cases ev)
  case (PickerEvent pev)
  show ?thesis
  proof (cases "page_shows_map (page a)")
    case False
    let ?p' = "picker_step (gcurrentLocation (page a)) 3 pev (picker a)"
    have pinv: "picker_inv 3 ?p'"
      using inv picker_step_inv by (auto simp: app_inv_def)
    show ?thesis
    proof (cases "length (pcomplete ?p') = length (pcomplete (picker a))")
      case True
      with False PickerEvent inv pinv show ?thesis by (simp add: app_inv_def Let_def)
    next
      case grown: False
      then have "pcomplete ?p' \<noteq> []"
        using picker_step_pcomplete [of "gcurrentLocation (page a)" 3 pev "picker a"] by auto
      then have "last (pcomplete ?p') \<in> set (pcomplete ?p')" by simp
      with pinv have c: "3 \<le> length (last (pcomplete ?p')) \<and> distinct (map tid (last (pcomplete ?p')))"
        by (simp add: picker_inv_def)
      from inv False have "gadditional (page a) = []"
        by (simp add: app_inv_def)
      with c grown False PickerEvent pinv show ?thesis
        by (auto simp: app_inv_def Let_def handleTasteSelection_def page_shows_map_def)
    qed
  qed (use PickerEvent inv in simp)
next
  case (ChatOutput out)
  show ?thesis
  proof (cases out)
    case (TastesOut ts)
    with ok ChatOutput have "distinct (map tid ts)" by simp
    with inv handleChatbotTastes_ok [of "page a" ts] ChatOutput TastesOut show ?thesis
      by (auto simp: app_inv_def page_shows_map_def handleChatbotTastes_def Let_def)
  next
    case (RouteUpdateOut r)
    with ChatOutput inv show ?thesis
      by (auto simp: app_inv_def page_shows_map_def handleRouteUpdate_def)
  qed
next
  case Back
  have "picker_inv 3 picker_init" by (simp add: picker_inv_def picker_init_def)
  with Back inv show ?thesis
    by (simp add: app_inv_def page_shows_map_def handleBackToTastes_def)
next
  case (LocationChange l c)
  with inv show ?thesis
    by (auto simp: app_inv_def page_shows_map_def handleLocationChange_def split: option.splits)
qed (use inv in \<open>auto simp: app_inv_def page_shows_map_def handleRouteUpdate_def handleVenuesUpdate_def\<close>)



text \<open>
  A chat batch that names the same taste twice is appended twice: handleChatbotTastes
  filters against the tastes already held but not within the batch.
\<close>

lemma app_duplicate_batch:
  "let a = app_run ''New York, NY''
             (map (PickerEvent \<circ> PSelect) three_seeds @ [PickerEvent PCTA, ChatOutput (TastesOut [jazz_taste, jazz_taste])])
   in page_shows_map (page a) \<and> map tid (gadditional (page a)) = [''jazz_music'', ''jazz_music'']"
  by (simp add: app_run_def app_init_def page_init_def picker_init_def three_seeds_def picker_trending_seed_def
                handleTasteSelect_def handleCTA_def handleTasteSelection_def handleChatbotTastes_def
                page_shows_map_def jazz_taste_def has_id_def Let_def)


end
