(* ===== verification/VenueCache.thy ===== *)
theory VenueCache
  imports Tastes "HOL-Library.List_Lexorder" "HOL-Library.Char_ord" "HOL-Library.Mapping"
begin

text \<open>
  The venue hook (\<open>hooks/useVenueCache.js\<close>): the cache key built from rounded
  coordinates, sorted taste ids and the active filters; the Qloo filter parameters;
  the parsing of a Qloo answer into venues with its mock fallback; and \<open>loadVenues\<close>
  with its cache and its abort controllers as a state machine whose requests are
  answered in any order. The cache is a \<open>Mapping\<close> from keys to venue lists;
  controllers are numbered, and \<open>vaborted\<close> lists those whose signal was aborted.
  Strings compare as JavaScript's default \<open>sort\<close> compares them on ASCII text
  (lexicographically, a prefix first).
\<close>

subsection \<open>Number formatting\<close>

text \<open>
  \<open>x.toFixed(4)\<close> for \<open>|x| < 10^21\<close>: the integer \<open>n\<close> nearest to \<open>|x| * 10^4\<close>
  (the larger on a tie), printed with four decimals, after a minus sign when \<open>x < 0\<close>.
\<close>

definition pad4 :: "string \<Rightarrow> string" where
  "pad4 s = replicate (4 - length s) CHR ''0'' @ s"

definition js_toFixed4 :: "real \<Rightarrow> string" where
  "js_toFixed4 x =
     (let n = nat \<lfloor>\<bar>x\<bar> * 10000 + 1 / 2\<rfloor>
      in (if x < 0 then ''-'' else []) @ nat_str (n div 10000) @ ''.'' @ pad4 (nat_str (n mod 10000)))"

subsection \<open>Cache keys and filter parameters\<close>

text \<open>A filter value: a string, a boolean, or \<open>null\<close>/\<open>undefined\<close>.\<close>

datatype filter_val = FStr string | FBool bool | FNull

definition filter_str :: "filter_val \<Rightarrow> string" where
  "filter_str v = (case v of FStr s \<Rightarrow> s | FBool b \<Rightarrow> (if b then ''true'' else ''false'') | FNull \<Rightarrow> ''null'')"

type_synonym filters = "(string \<times> filter_val) list"

definition createVenueCacheKey :: "coord \<Rightarrow> string list \<Rightarrow> filters \<Rightarrow> string" where
  "createVenueCacheKey coords tasteIds fs =
     (let coordsKey = js_toFixed4 (fst coords) @ ''_'' @ js_toFixed4 (snd coords);
          tastesKey = js_join ''|'' (sort tasteIds);
          filtersKey = js_join ''|'' (sort (map (\<lambda>(k, v). k @ '':'' @ filter_str v)
                                            (filter (\<lambda>(k, v). v \<noteq> FNull \<and> v \<noteq> FBool False) fs)))
      in ''venues_'' @ coordsKey @ ''|'' @ tastesKey @ ''|'' @ filtersKey)"

text \<open>A value's truthiness, and \<open>filters.name\<close> (\<open>undefined\<close> when absent).\<close>

definition truthy :: "filter_val \<Rightarrow> bool" where
  "truthy v = (case v of FStr s \<Rightarrow> s \<noteq> [] | FBool b \<Rightarrow> b | FNull \<Rightarrow> False)"

definition filter_get :: "filters \<Rightarrow> string \<Rightarrow> filter_val" where
  "filter_get fs k = (case map_of fs k of Some v \<Rightarrow> v | None \<Rightarrow> FNull)"

text \<open>\<open>filtersToApiParams\<close>: the \<open>filter.tags\<close> parameter it sets, if any.\<close>

definition filtersToApiParams :: "filters \<Rightarrow> string option" where
  "filtersToApiParams fs =
     (let budget = filter_get fs ''budget'';
          tags = (if truthy budget then
                    (if budget = FStr ''low'' then Some ''urn:tag:price:inexpensive''
                     else if budget = FStr ''medium'' then Some ''urn:tag:price:moderate''
                     else if budget = FStr ''high'' then Some ''urn:tag:price:expensive''
                     else None)
                  else None);
          io = filter_get fs ''indoorOutdoor''
      in if truthy io then
           (let existing = (case tags of Some t \<Rightarrow> t | None \<Rightarrow> []);
                separator = (if existing \<noteq> [] then '','' else [])
            in if io = FStr ''outdoor'' then Some (existing @ separator @ ''urn:tag:atmosphere:outdoor'')
               else if io = FStr ''indoor'' then Some (existing @ separator @ ''urn:tag:atmosphere:indoor'')
               else tags)
         else tags)"

subsection \<open>Venues from a Qloo answer\<close>

record qloo_place =
  pname :: "string option"
  paffinity :: "real option"
  ptype :: "string option"
  pkeywords :: "string list option"

record qloo_cluster =
  cluster_name :: "string option"
  example_entities :: "qloo_place list option"
  lift_score :: "real option"

record cache_venue =
  kid :: string
  kname :: string
  kcoords :: coord
  kaffinity :: real
  kcategory :: string
  kkeywords :: "string list"
  kcluster :: "string option"
  kdistance :: real
  kpopularity :: real
  klift :: real

text \<open>\<open>s.split(':').pop()\<close>: the text after the last colon.\<close>

definition split_last :: "string \<Rightarrow> string" where
  "split_last s = rev (takeWhile (\<lambda>c. c \<noteq> CHR '':'') (rev s))"

text \<open>
  One entity of a cluster, with its four random draws (two for the position, one
  each for \<open>distance\<close> and \<open>popularity\<close>). A number field that is absent or zero
  reads as 0 (\<open>|| 0\<close>).
\<close>

definition place_venue :: "coord \<Rightarrow> nat \<Rightarrow> nat \<Rightarrow> qloo_cluster \<Rightarrow> qloo_place \<Rightarrow> rng \<Rightarrow> cache_venue \<times> rng" where
  "place_venue coords clusterIndex entityIndex cluster entity rs =
     (let (r1, rs1) = random_draw rs; (r2, rs2) = random_draw rs1;
          (r3, rs3) = random_draw rs2; (r4, rs4) = random_draw rs3;
          named = (case pname entity of Some n \<Rightarrow> n \<noteq> [] | None \<Rightarrow> False);
          n = (case pname entity of Some n \<Rightarrow> n | None \<Rightarrow> []);
          category = (case ptype entity of Some t \<Rightarrow> split_last t | None \<Rightarrow> [])
      in (\<lparr>kid = (if named then js_ws_underscore n @ ''_'' @ nat_str clusterIndex @ ''_'' @ nat_str entityIndex
                  else ''venue_'' @ nat_str clusterIndex @ ''_'' @ nat_str entityIndex),
           kname = (if named then n else ''Unknown Venue''),
           kcoords = (fst coords + (r1 - 0.5) * 0.01, snd coords + (r2 - 0.5) * 0.01),
           kaffinity = (case paffinity entity of Some a \<Rightarrow> a | None \<Rightarrow> 0),
           kcategory = (if category \<noteq> [] then category else ''venue''),
           kkeywords = (case pkeywords entity of Some ks \<Rightarrow> ks | None \<Rightarrow> []),
           kcluster = cluster_name cluster,
           kdistance = r3 * 400, kpopularity = r4,
           klift = (case lift_score cluster of Some l \<Rightarrow> l | None \<Rightarrow> 0)\<rparr>, rs4))"

text \<open>The two nested \<open>forEach\<close> loops, pushing in cluster order then entity order.\<close>

fun entity_loop :: "coord \<Rightarrow> nat \<Rightarrow> nat \<Rightarrow> qloo_cluster \<Rightarrow> qloo_place list \<Rightarrow> rng \<Rightarrow> cache_venue list \<times> rng" where
  "entity_loop coords ci ei cluster [] rs = ([], rs)"
| "entity_loop coords ci ei cluster (e # es) rs =
     (case place_venue coords ci ei cluster e rs of
        (v, rs1) \<Rightarrow> (case entity_loop coords ci (Suc ei) cluster es rs1 of (vs, rs2) \<Rightarrow> (v # vs, rs2)))"

fun cluster_loop :: "coord \<Rightarrow> nat \<Rightarrow> qloo_cluster list \<Rightarrow> rng \<Rightarrow> cache_venue list \<times> rng" where
  "cluster_loop coords ci [] rs = ([], rs)"
| "cluster_loop coords ci (c # cs) rs =
     (case entity_loop coords ci 0 c (case example_entities c of Some es \<Rightarrow> es | None \<Rightarrow> []) rs of
        (vs, rs1) \<Rightarrow> (case cluster_loop coords (Suc ci) cs rs1 of (ws, rs2) \<Rightarrow> (vs @ ws, rs2)))"

text \<open>\<open>generateMockVenues\<close>: eight fixed venues placed around the point.\<close>

definition mockVenues :: "(string \<times> string \<times> real) list" where
  "mockVenues =
     [(''Local Art Gallery'', ''gallery'', 85), (''Indie Coffee House'', ''cafe'', 78),
      (''Vintage Record Store'', ''shop'', 82), (''Cultural Center'', ''venue'', 76),
      (''Artisan Bakery'', ''restaurant'', 71), (''Underground Bar'', ''bar'', 68),
      (''Design Studio'', ''studio'', 73), (''Live Music Venue'', ''music'', 80)]"

fun mock_loop :: "coord \<Rightarrow> string list \<Rightarrow> nat \<Rightarrow> (string \<times> string \<times> real) list \<Rightarrow> rng \<Rightarrow> cache_venue list \<times> rng" where
  "mock_loop coords keywords index [] rs = ([], rs)"
| "mock_loop coords keywords index ((name, category, aff) # ms) rs =
     (let (r1, rs1) = random_draw rs; (r2, rs2) = random_draw rs1;
          (r3, rs3) = random_draw rs2; (r4, rs4) = random_draw rs3;
          v = \<lparr>kid = ''mock_'' @ js_ws_underscore name @ ''_'' @ nat_str index, kname = name,
               kcoords = (fst coords + (r1 - 0.5) * 0.008, snd coords + (r2 - 0.5) * 0.008),
               kaffinity = aff, kcategory = category, kkeywords = keywords, kcluster = Some ''Local Culture'',
               kdistance = r3 * 350, kpopularity = r4, klift = aff\<rparr>
      in case mock_loop coords keywords (Suc index) ms rs4 of (vs, rs5) \<Rightarrow> (v # vs, rs5))"

definition generateMockVenues :: "coord \<Rightarrow> 'a tag_scheme list \<Rightarrow> rng \<Rightarrow> cache_venue list \<times> rng" where
  "generateMockVenues coords tastes rs = mock_loop coords (map tname (take 2 tastes)) 0 mockVenues rs"

text \<open>
  \<open>fetchVenues\<close>: an ok answer is parsed, sorted by descending affinity and cut to 20;
  any other failure falls back to the mock venues, except the abort of the request's
  own controller, which is rethrown (\<open>Inl\<close>).
\<close>

definition fetchVenues :: "coord \<Rightarrow> 'a tag_scheme list \<Rightarrow> bool \<Rightarrow> qloo_cluster list response \<Rightarrow> rng
                           \<Rightarrow> unit + cache_venue list \<times> rng" where
  "fetchVenues coords tastes aborted r rs =
     (case r of
        RespOk clusters \<Rightarrow>
          (case cluster_loop coords 0 clusters rs of
             (venueList, rs1) \<Rightarrow> Inr (take 20 (sort_key (\<lambda>v. - kaffinity v) venueList), rs1))
      | RespNotOk \<Rightarrow> Inr (generateMockVenues coords tastes rs)
      | FetchRejected \<Rightarrow> (if aborted then Inl () else Inr (generateMockVenues coords tastes rs)))"

subsection \<open>\<open>loadVenues\<close> as a state machine\<close>

text \<open>
  The hook's state, its cache (\<open>cacheRef\<close>) and its controllers: \<open>vcontroller\<close> is
  \<open>abortControllerRef.current\<close>, \<open>vpending\<close> the loads awaiting \<open>fetchVenues\<close>,
  each with its controller, cache key and tastes.
\<close>

record vcache_state =
  vvenues :: "cache_venue list"
  vloading :: bool
  verror :: "string option"
  vcache :: "(string, cache_venue list) mapping"
  vcontroller :: "nat option"
  vaborted :: "nat list"
  vnext :: nat
  vpending :: "(nat \<times> string \<times> tag list) list"

definition vcache_init :: vcache_state where
  "vcache_init = \<lparr>vvenues = [], vloading = False, verror = None, vcache = Mapping.empty, vcontroller = None,
                   vaborted = [], vnext = 0, vpending = []\<rparr>"

text \<open>
  \<open>loadVenues(coords, tastes, filters)\<close> up to its \<open>await\<close>. No tastes: the venues are
  cleared and nothing else happens (the running load is not aborted). Otherwise the
  running controller is aborted, a new one installed, and a cached answer is used at
  once; a miss starts \<open>fetchVenues\<close>.
\<close>

definition loadVenues :: "coord \<Rightarrow> tag list \<Rightarrow> filters \<Rightarrow> vcache_state \<Rightarrow> vcache_state" where
  "loadVenues coords tastes fs s =
     (if tastes = [] then s\<lparr>vvenues := []\<rparr>
      else (let s1 = s\<lparr>vloading := True, verror := None\<rparr>;
                s2 = (case vcontroller s1 of
                        Some c \<Rightarrow> if c \<in> set (vaborted s1) then s1 else s1\<lparr>vaborted := vaborted s1 @ [c]\<rparr>
                      | None \<Rightarrow> s1);
                controller = vnext s2;
                s3 = s2\<lparr>vcontroller := Some controller, vnext := Suc controller\<rparr>;
                cacheKey = createVenueCacheKey coords (map tid tastes) fs
            in case Mapping.lookup (vcache s3) cacheKey of
                 Some cachedVenues \<Rightarrow> s3\<lparr>vvenues := cachedVenues, vloading := False\<rparr>
               | None \<Rightarrow> s3\<lparr>vpending := vpending s3 @ [(controller, cacheKey, tastes)]\<rparr>))"

text \<open>
  The continuation of load \<open>k\<close> when \<open>fetchVenues\<close> settles: unless its controller
  was aborted, the answer is cached and shown and \<open>loading\<close> is reset; an aborted
  load changes nothing (its \<open>AbortError\<close> is swallowed and every setter is guarded).
\<close>

definition loadVenues_resume :: "coord \<Rightarrow> nat \<Rightarrow> qloo_cluster list response \<Rightarrow> rng \<Rightarrow> vcache_state
                                 \<Rightarrow> vcache_state" where
  "loadVenues_resume coords k r rs s =
     (case map_of (vpending s) k of
        None \<Rightarrow> s
      | Some (cacheKey, tastes) \<Rightarrow>
          (let aborted = (k \<in> set (vaborted s));
               s1 = s\<lparr>vpending := filter (\<lambda>p. fst p \<noteq> k) (vpending s)\<rparr>
           in case fetchVenues coords tastes aborted r rs of
                Inl _ \<Rightarrow> s1
              | Inr (venueData, _) \<Rightarrow>
                  if aborted then s1
                  else s1\<lparr>vcache := Mapping.update cacheKey venueData (vcache s1), vvenues := venueData,
                          vloading := False\<rparr>))"

definition clearVenues :: "vcache_state \<Rightarrow> vcache_state" where
  "clearVenues s = s\<lparr>vvenues := [], verror := None\<rparr>"

definition clearCache :: "vcache_state \<Rightarrow> vcache_state" where
  "clearCache s = s\<lparr>vcache := Mapping.empty\<rparr>"

definition getCachedVenues :: "coord \<Rightarrow> string list \<Rightarrow> filters \<Rightarrow> vcache_state \<Rightarrow> cache_venue list option" where
  "getCachedVenues coords tasteIds fs s = Mapping.lookup (vcache s) (createVenueCacheKey coords tasteIds fs)"

datatype vcache_event =
    LoadVenues coord "tag list" filters
  | VenuesSettled coord nat "qloo_cluster list response" rng
  | ClearVenues
  | ClearCache

fun vcache_step :: "vcache_event \<Rightarrow> vcache_state \<Rightarrow> vcache_state" where
  "vcache_step (LoadVenues c ts fs) s = loadVenues c ts fs s"
| "vcache_step (VenuesSettled c k r rs) s = loadVenues_resume c k r rs s"
| "vcache_step ClearVenues s = clearVenues s"
| "vcache_step ClearCache s = clearCache s"

definition vcache_run :: "vcache_event list \<Rightarrow> vcache_state" where
  "vcache_run evs = foldl (\<lambda>s ev. vcache_step ev s) vcache_init evs"

text \<open>
  The loading flag is exact: it is set precisely when the current controller's load is
  still pending; every other pending load was aborted; controllers are numbered below
  \<open>vnext\<close>, and pending loads have distinct controllers.
\<close>

definition vcache_inv :: "vcache_state \<Rightarrow> bool" where
  "vcache_inv s \<longleftrightarrow>
     (vloading s \<longleftrightarrow> (\<exists>c. vcontroller s = Some c \<and> c \<in> fst ` set (vpending s)))
     \<and> (\<forall>p \<in> set (vpending s). vcontroller s = Some (fst p) \<or> fst p \<in> set (vaborted s))
     \<and> (\<forall>c. vcontroller s = Some c \<longrightarrow> c \<notin> set (vaborted s) \<and> c < vnext s)
     \<and> (\<forall>p \<in> set (vpending s). fst p < vnext s) \<and> (\<forall>c \<in> set (vaborted s). c < vnext s)
     \<and> distinct (map fst (vpending s))"

text \<open>Scenario data: a point in Manhattan, one taste, one Qloo cluster with one venue.\<close>


definition nyc :: coord where "nyc = (40.7589, -73.9851)"

definition jazz_tag :: tag where "jazz_tag = \<lparr>tid = ''jazz'', tname = ''Jazz''\<rparr>"

definition blue_note :: "qloo_cluster list" where
  "blue_note = [\<lparr>cluster_name = Some ''Jazz'',
                 example_entities = Some [\<lparr>pname = Some ''Blue Note'', paffinity = Some 0.9,
                                           ptype = Some ''urn:entity:place'', pkeywords = None\<rparr>],
                 lift_score = Some 2\<rparr>]"

subsection \<open>Lemmas\<close>


lemma sort_mset_eq: "mset xs = mset ys \<Longrightarrow> sort xs = sort (ys :: 'a :: linorder list)"
  by (metis properties_for_sort mset_sort sorted_sort)

text \<open>
  C23: the venue cache key does not depend on the order of the taste ids nor on the
  order of the filters: permuted inputs give the same key.
\<close>

lemma createVenueCacheKey_perm:
  assumes "mset ids1 = mset ids2" and "mset fs1 = mset fs2"
  shows "createVenueCacheKey c ids1 fs1 = createVenueCacheKey c ids2 fs2"
proof -
  let ?f = "\<lambda>fs. map (\<lambda>(k, v). k @ '':'' @ filter_str v) (filter (\<lambda>(k, v). v \<noteq> FNull \<and> v \<noteq> FBool False) fs)"
  have "mset (?f fs1) = mset (?f fs2)"
    using assms(2) by (simp only: mset_map mset_filter)
  then have "sort (?f fs1) = sort (?f fs2)" by (rule sort_mset_eq)
  moreover have "sort ids1 = sort ids2" using assms(1) by (rule sort_mset_eq)
  ultimately show ?thesis by (simp add: createVenueCacheKey_def)
qed

lemma createVenueCacheKey_perm_witness:
  "mset [''jazz'', ''art''] = mset [''art'', ''jazz'']
   \<and> mset [(''budget'', FStr ''low''), (''openNow'', FBool True)] = mset [(''openNow'', FBool True), (''budget'', FStr ''low'')]
   \<and> createVenueCacheKey (40.7589, -73.9851) [''jazz'', ''art''] [(''budget'', FStr ''low''), (''openNow'', FBool True)]
     = createVenueCacheKey (40.7589, -73.9851) [''art'', ''jazz''] [(''openNow'', FBool True), (''budget'', FStr ''low'')]"
  using createVenueCacheKey_perm [of "[''jazz'', ''art'']" "[''art'', ''jazz'']"
          "[(''budget'', FStr ''low''), (''openNow'', FBool True)]" "[(''openNow'', FBool True), (''budget'', FStr ''low'')]"
          "(40.7589, -73.9851)"]
  by simp

lemma toFixed_example: "js_toFixed4 40.7589 = ''40.7589'' \<and> js_toFixed4 (-73.9851) = ''-73.9851''"
proof -
  have a: "nat \<lfloor>\<bar>40.7589 :: real\<bar> * 10000 + 1 / 2\<rfloor> = 407589" by (simp add: floor_eq_iff)
  have b: "nat \<lfloor>\<bar>-73.9851 :: real\<bar> * 10000 + 1 / 2\<rfloor> = 739851" by (simp add: floor_eq_iff)
  show ?thesis
    by (simp add: js_toFixed4_def a b pad4_def nat_str_eval)
qed



lemma loadVenues_inv:
  assumes inv: "vcache_inv s"
  shows "vcache_inv (loadVenues c ts fs s)"
proof (cases "ts = []")
  case True
  with inv show ?thesis by (simp add: loadVenues_def vcache_inv_def)
next
  case False
  from inv have bnd: "\<forall>p \<in> set (vpending s). fst p < vnext s"
    and cur: "\<forall>c. vcontroller s = Some c \<longrightarrow> c \<notin> set (vaborted s) \<and> c < vnext s"
    and pend: "\<forall>p \<in> set (vpending s). vcontroller s = Some (fst p) \<or> fst p \<in> set (vaborted s)"
    and dis: "distinct (map fst (vpending s))" and ab: "\<forall>c \<in> set (vaborted s). c < vnext s"
    by (simp_all add: vcache_inv_def)
  have new: "vnext s \<notin> fst ` set (vpending s)" using bnd by auto
  have old_aborted: "\<forall>p \<in> set (vpending s). fst p \<in> set (vaborted s) \<or> vcontroller s = Some (fst p)"
    using pend by blast
  show ?thesis
    using False new old_aborted bnd cur dis ab
    by (auto simp: loadVenues_def vcache_inv_def Let_def split: option.splits if_splits)
qed

lemma fetchVenues_live: "\<exists>v. fetchVenues c ts False r rs = Inr v"
  by (cases r) (simp_all add: fetchVenues_def split: prod.splits)

lemma resume_cases:
  assumes "map_of (vpending s) k = Some (key, ts)"
  shows "(k \<in> set (vaborted s) \<and> loadVenues_resume c k r rs s = s\<lparr>vpending := filter (\<lambda>p. fst p \<noteq> k) (vpending s)\<rparr>)
         \<or> (k \<notin> set (vaborted s) \<and> (\<exists>vd. loadVenues_resume c k r rs s
               = s\<lparr>vpending := filter (\<lambda>p. fst p \<noteq> k) (vpending s), vcache := Mapping.update key vd (vcache s),
                   vvenues := vd, vloading := False\<rparr>))"
proof (cases "k \<in> set (vaborted s)")
  case True
  with assms show ?thesis
    by (auto simp: loadVenues_resume_def Let_def split: sum.splits prod.splits)
next
  case False
  from fetchVenues_live obtain v where "fetchVenues c ts False r rs = Inr v" by blast
  with assms False show ?thesis
    by (cases v) (auto simp: loadVenues_resume_def Let_def)
qed

lemma resume_inv:
  assumes inv: "vcache_inv s"
  shows "vcache_inv (loadVenues_resume c k r rs s)"
proof (cases "map_of (vpending s) k")
  case None
  then show ?thesis by (simp add: loadVenues_resume_def inv)
next
  case (Some a)
  obtain key ts where a: "a = (key, ts)" by (cases a)
  from map_of_SomeD [OF Some] a have "(k, key, ts) \<in> set (vpending s)" by simp
  then have kin: "k \<in> fst ` set (vpending s)" by force
  let ?s1 = "s\<lparr>vpending := filter (\<lambda>p. fst p \<noteq> k) (vpending s)\<rparr>"
  from inv have dis: "distinct (map fst (vpending s))" by (simp add: vcache_inv_def)
  have gone: "k \<notin> fst ` set (filter (\<lambda>p. fst p \<noteq> k) (vpending s))" by auto
  have aborted_case: "vcache_inv ?s1" if "k \<in> set (vaborted s)"
  proof -
    have "vcontroller s \<noteq> Some k" using inv that by (auto simp: vcache_inv_def)
    with inv show ?thesis by (auto simp: vcache_inv_def distinct_map_filter)
  qed
  have live_case: "vcache_inv (?s1\<lparr>vcache := Mapping.update key vd (vcache s), vvenues := vd, vloading := False\<rparr>)"
    if "k \<notin> set (vaborted s)" for vd
  proof -
    from inv kin that have cur: "vcontroller s = Some k" by (auto simp: vcache_inv_def)
    with inv gone show ?thesis by (auto simp: vcache_inv_def distinct_map_filter)
  qed
  from resume_cases [OF Some [unfolded a], of c r rs] show ?thesis
  proof
    assume "k \<in> set (vaborted s) \<and> loadVenues_resume c k r rs s = ?s1"
    with aborted_case show ?thesis by simp
  next
    assume "k \<notin> set (vaborted s) \<and> (\<exists>vd. loadVenues_resume c k r rs s
               = ?s1\<lparr>vcache := Mapping.update key vd (vcache s), vvenues := vd, vloading := False\<rparr>)"
    with live_case show ?thesis by auto
  qed
qed

lemma clear_inv: "vcache_inv s \<Longrightarrow> vcache_inv (clearVenues s) \<and> vcache_inv (clearCache s)"
  by (simp add: clearVenues_def clearCache_def vcache_inv_def)

lemma vcache_step_inv: "vcache_inv s \<Longrightarrow> vcache_inv (vcache_step ev s)"
  by (cases ev) (simp_all add: loadVenues_inv resume_inv clear_inv)

text \<open>
  C20: in every run of useVenueCache the loading flag is set exactly while the current
  controller's load is pending, every other pending load has been aborted, and
  controllers are numbered uniquely.
\<close>

lemma vcache_run_inv: "vcache_inv (vcache_run evs)"
proof -
  have "vcache_inv vcache_init"
    by (simp add: vcache_inv_def vcache_init_def)
  then show ?thesis
    unfolding vcache_run_def by (rule foldl_invariant [rotated]) (simp add: vcache_step_inv)
qed


lemma vcache_run_inv_witness:
  "vcache_inv (vcache_run [LoadVenues nyc [jazz_tag] [], LoadVenues nyc [jazz_tag] [(''budget'', FStr ''low'')]])"
  by (rule vcache_run_inv)


lemma fetchVenues_ok_sorted:
  assumes "fetchVenues c ts ab (RespOk cl) rs = Inr (vs, rs')"
  shows "length vs \<le> 20 \<and> sorted_wrt (\<lambda>a b. kaffinity b \<le> kaffinity a) vs
         \<and> mset vs \<subseteq># mset (fst (cluster_loop c 0 cl rs))"
proof -
  let ?L = "fst (cluster_loop c 0 cl rs)"
  from assms have vs: "vs = take 20 (sort_key (\<lambda>v. - kaffinity v) ?L)"
    by (simp add: fetchVenues_def split: prod.splits)
  have "sorted (map (\<lambda>v. - kaffinity v) (sort_key (\<lambda>v. - kaffinity v) ?L))"
    by (rule sorted_sort_key)
  then have "sorted_wrt (\<lambda>a b. kaffinity b \<le> kaffinity a) (sort_key (\<lambda>v. - kaffinity v) ?L)"
    by (simp add: sorted_map)
  then have "sorted_wrt (\<lambda>a b. kaffinity b \<le> kaffinity a) vs"
    unfolding vs by (rule sorted_wrt_take)
  moreover have "mset vs \<subseteq># mset ?L"
    unfolding vs by (metis mset_sort append_take_drop_id mset_append mset_subset_eq_add_left)
  ultimately show ?thesis using vs by simp
qed




end
