(* ===== verification/HeatMap.thy ===== *)
theory HeatMap
  imports VenueCache
begin

text \<open>
  The heat-map data (\<open>hooks/useMapData.js\<close>) and its drawing
  (\<open>components/HexHeatOverlay.js\<close>): the hexagonal grid around the map centre, the
  insight cache keyed like the venue cache, the batched publication of the heat data,
  and the colour, opacity and outline of a hexagon. Leaflet zoom levels are integers;
  \<open>2 ** (12 - zoom)\<close> is the integer power \<open>powi\<close>. An arithmetic result that
  JavaScript computes as \<open>NaN\<close> (a sum with an absent \<open>lift_score\<close>) is \<open>None\<close>.
\<close>

subsection \<open>The hexagonal grid\<close>

record hex =
  hid :: string
  hlat :: real
  hlng :: real
  hlift :: real

definition gridSize :: "int \<Rightarrow> int" where
  "gridSize zoom = max 3 (min 8 (12 - zoom))"

text \<open>One cell: rows are \<open>i\<close>, columns \<open>j\<close>; odd rows shift by \<open>(i % 2) * 0.5\<close> columns.\<close>

definition hex_at :: "coord \<Rightarrow> int \<Rightarrow> int \<Rightarrow> int \<Rightarrow> hex" where
  "hex_at center zoom i j =
     (let latRange = 0.01 * (2::real) powi (12 - zoom);
          lngRange = 0.01 * (2::real) powi (12 - zoom);
          rowOffset = real_of_int (js_rem i 2) * 0.5;
          hexLat = fst center + real_of_int i * latRange * 0.866;
          hexLng = snd center + (real_of_int j + rowOffset) * lngRange
      in \<lparr>hid = js_toFixed4 hexLat @ ''_'' @ js_toFixed4 hexLng, hlat = hexLat, hlng = hexLng, hlift = 0\<rparr>)"

definition generateHexGrid :: "coord \<Rightarrow> int \<Rightarrow> hex list" where
  "generateHexGrid center zoom =
     (let g = gridSize zoom in concat (map (\<lambda>i. map (\<lambda>j. hex_at center zoom i j) [-g..g]) [-g..g]))"

subsection \<open>Insights and their cache\<close>

definition createCacheKey :: "coord \<Rightarrow> string list \<Rightarrow> string" where
  "createCacheKey coords tasteIds =
     js_toFixed4 (fst coords) @ ''_'' @ js_toFixed4 (snd coords) @ ''|'' @ js_join ''|'' (sort tasteIds)"

text \<open>
  \<open>avgLift\<close>: the mean \<open>lift_score\<close> of the clusters (\<open>None\<close> for \<open>NaN\<close>, which an
  absent score makes), or a random lift in \<open>[10, 70)\<close> when there are none.
\<close>

definition avgLift :: "real option list \<Rightarrow> rng \<Rightarrow> real option \<times> rng" where
  "avgLift scores rs =
     (if scores \<noteq> [] then
        ((if None \<in> set scores then None else Some (sum_list (map the scores) / real (length scores))), rs)
      else (case random_draw rs of (r, rs') \<Rightarrow> (Some (r * 60 + 10), rs')))"

record insight =
  ilift :: "real option"
  iclusters :: "real option list"

text \<open>
  \<open>fetchHexInsights\<close>: a cached insight is returned as is; an ok answer and every
  failure except an abort produce an insight (a random one on failure) that is cached;
  an abort is rethrown (\<open>Inl\<close>) and caches nothing.
\<close>

definition fetchHexInsights :: "coord \<Rightarrow> string list \<Rightarrow> bool \<Rightarrow> real option list response \<Rightarrow> rng
                                \<Rightarrow> (string, insight) mapping
                                \<Rightarrow> unit + insight \<times> (string, insight) mapping \<times> rng" where
  "fetchHexInsights coords tasteIds aborted r rs cache =
     (let cacheKey = createCacheKey coords tasteIds in
      case Mapping.lookup cache cacheKey of
        Some cached \<Rightarrow> Inr (cached, cache, rs)
      | None \<Rightarrow>
          (case r of
             RespOk scores \<Rightarrow>
               (case avgLift scores rs of
                  (l, rs1) \<Rightarrow> let result = \<lparr>ilift = l, iclusters = scores\<rparr>
                              in Inr (result, Mapping.update cacheKey result cache, rs1))
           | FetchRejected \<Rightarrow>
               if aborted then Inl ()
               else (case random_draw rs of
                       (x, rs1) \<Rightarrow> let result = \<lparr>ilift = Some (x * 60 + 10), iclusters = []\<rparr>
                                   in Inr (result, Mapping.update cacheKey result cache, rs1))
           | RespNotOk \<Rightarrow>
               (case random_draw rs of
                  (x, rs1) \<Rightarrow> let result = \<lparr>ilift = Some (x * 60 + 10), iclusters = []\<rparr>
                              in Inr (result, Mapping.update cacheKey result cache, rs1))))"

subsection \<open>Batched publication\<close>

text \<open>
  The batch loop of \<open>generateHeatData\<close>: the hex results are awaited ten at a time and
  the accumulated results are published after each batch, until the controller is
  aborted (\<open>abortAt\<close> is the number of batches that complete first). The list is
  the sequence of \<open>setHeatData\<close> arguments, the last one the final
  \<open>setHeatData(results)\<close> of a load that was not aborted.
\<close>

fun batch_loop :: "nat \<Rightarrow> nat \<Rightarrow> 'a list \<Rightarrow> 'a list \<Rightarrow> 'a list list" where
  "batch_loop abortAt k results [] = (if k \<le> abortAt then [results] else [])"
| "batch_loop abortAt k results (h # hs) =
     (if abortAt \<le> k then []
      else (let batch = take 10 (h # hs); results' = results @ batch
            in results' # batch_loop abortAt (Suc k) results' (drop 10 (h # hs))))"

definition generateHeatData :: "nat \<Rightarrow> 'b list \<Rightarrow> 'a list \<Rightarrow> 'a list list" where
  "generateHeatData abortAt tastes results =
     (if length tastes < 3 then [[]] else batch_loop abortAt 0 [] results)"

subsection \<open>Drawing a hexagon\<close>

definition generateHexPath :: "real \<times> real \<Rightarrow> real \<Rightarrow> (real \<times> real) list" where
  "generateHexPath center radius =
     map (\<lambda>i. let angle = (real i * 60 - 30) * pi / 180
              in (fst center + (radius * sin angle) / 110540, snd center + (radius * cos angle) / 111320))
         [0..<6]"

definition getHexColor :: "real \<Rightarrow> bool \<Rightarrow> string" where
  "getHexColor lift isFocused =
     (if isFocused then ''#2c3e50''
      else if lift \<ge> 40 then ''#e74c3c'' else if lift \<ge> 20 then ''#f39c12'' else ''#bdc3c7'')"

definition getHexOpacity :: "real \<Rightarrow> bool \<Rightarrow> bool \<Rightarrow> real" where
  "getHexOpacity lift isFocused isFaded =
     (if isFaded then 0.2 else if isFocused then 0.9 else min 0.8 (max 0.3 (lift / 100)))"

text \<open>The style \<open>createHexagon\<close> gives a hexagon, with \<open>focusedHex\<close> the focused id.\<close>

record hex_style =
  fillColor :: string
  fillOpacity :: real
  weight :: nat
  strokeOpacity :: real

definition createHexagon :: "string option \<Rightarrow> hex \<Rightarrow> hex_style" where
  "createHexagon focusedHex h =
     (let isFocused = (focusedHex = Some (hid h));
          isFaded = (focusedHex \<noteq> None \<and> focusedHex \<noteq> Some (hid h));
          color = getHexColor (hlift h) isFocused;
          opacity = getHexOpacity (hlift h) isFocused isFaded
      in \<lparr>fillColor = color, fillOpacity = opacity, weight = (if isFocused then 3 else 1),
          strokeOpacity = opacity + 0.2\<rparr>)"

text \<open>
  The drawing effect: the layer is cleared and one polygon is added per hex, the
  \<open>hexagonsRef\<close> map keyed by id (a later hex with the same id replaces the earlier
  entry, while both polygons stay on the layer).
\<close>

definition draw_hexes :: "string option \<Rightarrow> hex list \<Rightarrow> hex_style list \<times> (string, hex_style) mapping" where
  "draw_hexes focusedHex heatData =
     (map (createHexagon focusedHex) heatData,
      foldl (\<lambda>m h. Mapping.update (hid h) (createHexagon focusedHex h) m) Mapping.empty heatData)"

subsection \<open>Lemmas\<close>


lemma gridSize_bounds: "3 \<le> gridSize z \<and> gridSize z \<le> 8"
  by (simp add: gridSize_def)

text \<open>
  The hex grid has (2g+1)^2 cells for the grid size g = max 3 (min 8 (12 - zoom)),
  so between 49 and 289 cells at every zoom level.
\<close>

lemma generateHexGrid_length:
  "length (generateHexGrid c z) = nat ((2 * gridSize z + 1)\<^sup>2)
   \<and> 49 \<le> length (generateHexGrid c z) \<and> length (generateHexGrid c z) \<le> 289"
proof -
  let ?g = "gridSize z"
  have len: "length (generateHexGrid c z) = nat (2 * ?g + 1) * nat (2 * ?g + 1)"
    by (simp add: generateHexGrid_def Let_def length_concat comp_def sum_list_triv)
  have "nat (2 * ?g + 1) * nat (2 * ?g + 1) = nat ((2 * ?g + 1)\<^sup>2)"
    using gridSize_bounds [of z] by (simp add: power2_eq_square nat_mult_distrib)
  moreover have "49 \<le> nat (2 * ?g + 1) * nat (2 * ?g + 1)"
  proof -
    have "(7::int) \<le> 2 * ?g + 1" using gridSize_bounds [of z] by simp
    then have "7 \<le> nat (2 * ?g + 1)" by (simp add: le_nat_iff)
    then show ?thesis using mult_le_mono [of 7 "nat (2 * ?g + 1)" 7 "nat (2 * ?g + 1)"] by simp
  qed
  moreover have "nat (2 * ?g + 1) * nat (2 * ?g + 1) \<le> 289"
  proof -
    have "2 * ?g + 1 \<le> (17::int)" using gridSize_bounds [of z] by simp
    then have "nat (2 * ?g + 1) \<le> 17" by (simp add: nat_le_iff)
    then show ?thesis using mult_le_mono [of "nat (2 * ?g + 1)" 17 "nat (2 * ?g + 1)" 17] by simp
  qed
  ultimately show ?thesis using len by simp
qed

lemma js_toFixed4_eq:
  "nat \<lfloor>\<bar>x\<bar> * 10000 + 1 / 2\<rfloor> = n \<Longrightarrow>
   js_toFixed4 x = (if x < 0 then ''-'' else []) @ nat_str (n div 10000) @ ''.'' @ pad4 (nat_str (n mod 10000))"
  by (simp add: js_toFixed4_def Let_def)

lemma toFixed_small: "0 \<le> x \<Longrightarrow> x < 0.00005 \<Longrightarrow> js_toFixed4 x = ''0.0000''"
proof -
  assume a: "0 \<le> x" "x < 0.00005"
  then have "nat \<lfloor>\<bar>x\<bar> * 10000 + 1 / 2\<rfloor> = 0" by (simp add: floor_eq_iff)
  from js_toFixed4_eq [OF this] a have "js_toFixed4 x = nat_str 0 @ ''.'' @ pad4 (nat_str 0)" by simp
  also have "\<dots> = ''0.0000''"
  proof -
    have z: "nat_str 0 = ''0''" by (simp add: nat_str_eval)
    have "pad4 [c] = [c, c, c, c]" if "c = CHR ''0''" for c
      using that by (simp add: pad4_def numeral_3_eq_3)
    then show ?thesis by (simp add: z)
  qed
  finally show ?thesis .
qed

text \<open>
  At zoom 20 two different cells of the grid around (0, 0) print the same id: the
  ids round to four decimals, finer than the cell spacing there, so the grid's ids are
  not distinct (duplicate keys in hexagonsRef).
\<close>

lemma hex_ids_collide:
  "hid (hex_at (0, 0) 20 0 0) = hid (hex_at (0, 0) 20 1 0)
   \<and> \<not> distinct (map hid (generateHexGrid (0, 0) 20))"
proof -
  have p: "(2::real) powi (12 - 20) = 1 / 256" by (simp add: power_int_def power_one_over)
  have r1: "js_rem 1 2 = 1" by (simp add: js_rem_def)
  have e0: "hid (hex_at (0, 0) 20 0 0) = ''0.0000_0.0000''"
    by (simp add: hex_at_def Let_def js_rem_def toFixed_small)
  have e1: "hid (hex_at (0, 0) 20 1 0) = ''0.0000_0.0000''"
    by (simp add: hex_at_def Let_def p r1 toFixed_small)
  have g: "gridSize 20 = 3" by (simp add: gridSize_def)
  have "map hid (generateHexGrid (0, 0) 20)
        = concat (map (\<lambda>i. map (\<lambda>j. hid (hex_at (0, 0) 20 i j)) [-3..3]) [-3..3])"
    by (simp add: generateHexGrid_def g map_concat comp_def)
  moreover have "[-3..3::int] = [-3, -2, -1, 0, 1, 2, 3]"
    by (simp add: upto.simps)
  ultimately have "\<not> distinct (map hid (generateHexGrid (0, 0) 20))"
    using e0 e1 by (simp del: hex_at_def)
  with e0 e1 show ?thesis by simp
qed

lemma getHexOpacity_bounds: "0.2 \<le> getHexOpacity l f d \<and> getHexOpacity l f d \<le> 0.9"
  by (auto simp: getHexOpacity_def min_def max_def)



text \<open>
  C38: whatever fetchHexInsights answers (a real insight or the random fallback of a
  failed request) is stored under the request's key, and every later call for that key
  answers the stored insight without using the network answer.
\<close>

lemma fetchHexInsights_cached:
  assumes "fetchHexInsights coords ids ab r rs cache = Inr (res, cache', rs')"
  shows "Mapping.lookup cache' (createCacheKey coords ids) = Some res
         \<and> fetchHexInsights coords ids ab r2 rs2 cache' = Inr (res, cache', rs2)"
proof -
  have "Mapping.lookup cache' (createCacheKey coords ids) = Some res"
  proof (cases "Mapping.lookup cache (createCacheKey coords ids)")
    case None
    with assms show ?thesis
      by (auto simp: fetchHexInsights_def Let_def split: response.splits prod.splits if_splits)
  next
    case (Some c)
    with assms show ?thesis by (simp add: fetchHexInsights_def)
  qed
  then show ?thesis by (simp add: fetchHexInsights_def)
qed

lemma batch_loop_prefix:
  "x \<in> set (batch_loop a k acc hs) \<Longrightarrow> prefix acc x \<and> prefix x (acc @ hs)"
proof (induction a k acc hs rule: batch_loop.induct)
  case (1 abortAt k results)
  then show ?case by (simp split: if_splits)
next
  case (2 abortAt k results h hs)
  let ?r = "results @ take 10 (h # hs)"
  have whole: "?r @ drop 10 (h # hs) = results @ h # hs" by simp
  show ?case
  proof (cases "x = ?r")
    case True
    then show ?thesis
      by (metis whole prefix_append prefixI)
  next
    case False
    with "2.prems" have mem: "x \<in> set (batch_loop abortAt (Suc k) ?r (drop 10 (h # hs)))" and lt: "\<not> abortAt \<le> k"
      by (auto simp: Let_def split: if_splits)
    from "2.IH" [OF lt refl refl mem] whole show ?thesis
      by (metis prefix_order.trans prefixI)
  qed
qed

lemma batch_loop_last:
  "(length hs + 9) div 10 + k \<le> a \<Longrightarrow> batch_loop a k acc hs \<noteq> [] \<and> last (batch_loop a k acc hs) = acc @ hs"
proof (induction a k acc hs rule: batch_loop.induct)
  case (1 abortAt k results)
  then show ?case by simp
next
  case (2 abortAt k results h hs)
  let ?r = "results @ take 10 (h # hs)"
  have lt: "\<not> abortAt \<le> k" using "2.prems" by simp
  have "(length (drop 10 (h # hs)) + 9) div 10 + Suc k \<le> abortAt" using "2.prems" by simp
  from "2.IH" [OF lt refl refl this] show ?case
    using lt by (simp add: Let_def)
qed



lemma fetchHexInsights_cached_witness:
  "Mapping.lookup (Mapping.update (createCacheKey (0, 0) [''a'']) \<lparr>ilift = Some 40, iclusters = []\<rparr> Mapping.empty)
     (createCacheKey (0, 0) [''a'']) = Some \<lparr>ilift = Some 40, iclusters = []\<rparr>
   \<and> fetchHexInsights (0, 0) [''a''] False (RespOk [Some 1]) (sconst 0.5)
       (Mapping.update (createCacheKey (0, 0) [''a'']) \<lparr>ilift = Some 40, iclusters = []\<rparr> Mapping.empty)
     = Inr (\<lparr>ilift = Some 40, iclusters = []\<rparr>,
            Mapping.update (createCacheKey (0, 0) [''a'']) \<lparr>ilift = Some 40, iclusters = []\<rparr> Mapping.empty, sconst 0.5)"
proof -
  have e: "fetchHexInsights (0, 0) [''a''] False RespNotOk (sconst 0.5) Mapping.empty
           = Inr (\<lparr>ilift = Some 40, iclusters = []\<rparr>,
                  Mapping.update (createCacheKey (0, 0) [''a'']) \<lparr>ilift = Some 40, iclusters = []\<rparr> Mapping.empty,
                  sconst 0.5)"
    by (simp add: fetchHexInsights_def random_draw_def Let_def)
  from fetchHexInsights_cached [OF e, of "RespOk [Some 1]" "sconst 0.5"] show ?thesis .
qed


end
