(* ===== verification/Navigation.thy ===== *)
theory Navigation
  imports Venues
begin

text \<open>
  The map page's left sidebar (\<open>components/NavigationPanel.js\<close>): the location
  input with its suggestion list, the mock geocoder \<open>handleLocationSearch\<close> and the
  popular-destination chips. Its state hooks become \<open>nav_state\<close>; the two
  \<open>setTimeout\<close> callbacks it schedules become pending \<open>nav_timer\<close> values that fire
  as separate events, each carrying what its closure captured; the
  \<open>onLocationChange\<close> calls it makes are recorded in \<open>nout\<close>, in order.
  \<open>isLocationLoading\<close> is set and cleared inside one synchronous call (the
  search has no \<open>await\<close>), so no render sees it set and it is not modelled.
\<close>

definition popularCities :: "string list" where
  "popularCities =
     [''New York, NY'', ''Los Angeles, CA'', ''San Francisco, CA'', ''Chicago, IL'', ''Miami, FL'',
      ''Seattle, WA'', ''Austin, TX'', ''Boston, MA'', ''Denver, CO'', ''Portland, OR'',
      ''Nashville, TN'', ''Atlanta, GA'', ''Las Vegas, NV'', ''Philadelphia, PA'', ''San Diego, CA'',
      ''Washington, DC'', ''Brooklyn, NY'', ''Manhattan, NY'', ''Hollywood, CA'', ''Santa Monica, CA'',
      ''London, UK'', ''Paris, France'', ''Tokyo, Japan'', ''Sydney, Australia'', ''Barcelona, Spain'',
      ''Amsterdam, Netherlands'', ''Berlin, Germany'', ''Rome, Italy'']"

text \<open>The \<open>mockCoordinates\<close> object literal of \<open>handleLocationSearch\<close>, keys in insertion order.\<close>

definition mockCoordinates :: "(string \<times> coord) list" where
  "mockCoordinates =
     [(''new york'', (40.7589, -73.9851)), (''new york, ny'', (40.7589, -73.9851)),
      (''nyc'', (40.7589, -73.9851)), (''manhattan'', (40.7831, -73.9712)),
      (''brooklyn'', (40.6782, -73.9442)),
      (''los angeles'', (34.0522, -118.2437)), (''los angeles, ca'', (34.0522, -118.2437)),
      (''la'', (34.0522, -118.2437)), (''hollywood'', (34.0928, -118.3287)),
      (''santa monica'', (34.0195, -118.4912)),
      (''chicago'', (41.8781, -87.6298)), (''chicago, il'', (41.8781, -87.6298)),
      (''san francisco'', (37.7749, -122.4194)), (''san francisco, ca'', (37.7749, -122.4194)),
      (''sf'', (37.7749, -122.4194)),
      (''miami'', (25.7617, -80.1918)), (''miami, fl'', (25.7617, -80.1918)),
      (''south beach'', (25.7907, -80.1300)),
      (''las vegas'', (36.1699, -115.1398)), (''vegas'', (36.1699, -115.1398)),
      (''las vegas, nv'', (36.1699, -115.1398)),
      (''seattle'', (47.6062, -122.3321)), (''seattle, wa'', (47.6062, -122.3321)),
      (''boston'', (42.3601, -71.0589)), (''boston, ma'', (42.3601, -71.0589)),
      (''austin'', (30.2672, -97.7431)), (''austin, tx'', (30.2672, -97.7431)),
      (''denver'', (39.7392, -104.9903)), (''denver, co'', (39.7392, -104.9903)),
      (''portland'', (45.5152, -122.6784)), (''portland, or'', (45.5152, -122.6784)),
      (''london'', (51.5074, -0.1278)), (''london, uk'', (51.5074, -0.1278)),
      (''paris'', (48.8566, 2.3522)), (''paris, france'', (48.8566, 2.3522)),
      (''tokyo'', (35.6762, 139.6503)), (''tokyo, japan'', (35.6762, 139.6503)),
      (''sydney'', (-33.8688, 151.2093)), (''sydney, australia'', (-33.8688, 151.2093)),
      (''barcelona'', (41.3851, 2.1734)), (''barcelona, spain'', (41.3851, 2.1734)),
      (''amsterdam'', (52.3676, 4.9041)), (''amsterdam, netherlands'', (52.3676, 4.9041)),
      (''berlin'', (52.5200, 13.4050)), (''berlin, germany'', (52.5200, 13.4050)),
      (''rome'', (41.9028, 12.4964)), (''rome, italy'', (41.9028, 12.4964))]"

definition nyc_coord :: coord where
  "nyc_coord = (40.7589, -73.9851)"

text \<open>
  \<open>mockCoordinates[key]\<close> is a property read on an object literal: an own key gives
  its coordinate pair, and a key that names a member every object inherits from
  \<open>Object.prototype\<close> gives that member (a function or an object, truthy either way).
  The inherited names listed are those already in lower case, the only ones a
  lower-cased key can hit.
\<close>

definition proto_members :: "string list" where
  "proto_members = [''constructor'', ''__proto__'']"

datatype loc_value = LCoord coord | LProto string

definition coord_lookup :: "string \<Rightarrow> loc_value option" where
  "coord_lookup key =
     (case map_of mockCoordinates key of
        Some c \<Rightarrow> Some (LCoord c)
      | None \<Rightarrow> if key \<in> set proto_members then Some (LProto key) else None)"

text \<open>
  \<open>handleLocationSearch\<close>: nothing for a blank input; otherwise the exact key, else the
  first key (\<open>Object.keys\<close> order) that contains the input or is contained in it, else
  New York. The value passed on is the input as typed, not trimmed.
\<close>

definition handleLocationSearch :: "string \<Rightarrow> (string \<times> loc_value) option" where
  "handleLocationSearch locationInput =
     (if js_trim locationInput = [] then None
      else
        let normalizedLocation = js_trim (js_lower locationInput) in
        case coord_lookup normalizedLocation of
          Some value \<Rightarrow> Some (locationInput, value)
        | None \<Rightarrow>
            (case find (\<lambda>(key, _). js_includes key normalizedLocation \<or> js_includes normalizedLocation key)
                    mockCoordinates of
               Some (_, coords) \<Rightarrow> Some (locationInput, LCoord coords)
             | None \<Rightarrow> Some (locationInput, LCoord nyc_coord)))"

text \<open>The suggestions for a typed value: at most eight popular cities containing it.\<close>

definition suggestions :: "string \<Rightarrow> string list" where
  "suggestions value = take 8 (filter (\<lambda>city. js_includes (js_lower city) (js_lower value)) popularCities)"

datatype nav_timer = SearchTimer string | BlurTimer

record nav_state =
  nlocationInput :: string
  nshowSuggestions :: bool
  nfiltered :: "string list"
  ntimers :: "nav_timer list"
  nout :: "(string \<times> loc_value) list"

definition nav_init :: "string \<Rightarrow> nav_state" where
  "nav_init currentLocation =
     \<lparr>nlocationInput = currentLocation, nshowSuggestions = False, nfiltered = [], ntimers = [], nout = []\<rparr>"

definition handleLocationInputChange :: "string \<Rightarrow> nav_state \<Rightarrow> nav_state" where
  "handleLocationInputChange value s =
     (if js_trim value \<noteq> []
      then let filtered = suggestions value in
           s\<lparr>nlocationInput := value, nfiltered := filtered, nshowSuggestions := filtered \<noteq> []\<rparr>
      else s\<lparr>nlocationInput := value, nshowSuggestions := False, nfiltered := []\<rparr>)"

text \<open>
  \<open>handleSuggestionSelect\<close>: the timer's callback calls the \<open>handleLocationSearch\<close> of
  the render that defined the handler, whose \<open>locationInput\<close> is the text typed so far,
  not the city just set.
\<close>

definition handleSuggestionSelect :: "string \<Rightarrow> nav_state \<Rightarrow> nav_state" where
  "handleSuggestionSelect city s =
     s\<lparr>nlocationInput := city, nshowSuggestions := False, nfiltered := [],
       ntimers := ntimers s @ [SearchTimer (nlocationInput s)]\<rparr>"

definition handleInputFocus :: "nav_state \<Rightarrow> nav_state" where
  "handleInputFocus s =
     (if js_trim (nlocationInput s) = [] then s\<lparr>nfiltered := take 8 popularCities, nshowSuggestions := True\<rparr>
      else s)"

definition handleInputBlur :: "nav_state \<Rightarrow> nav_state" where
  "handleInputBlur s = s\<lparr>ntimers := ntimers s @ [BlurTimer]\<rparr>"

definition run_search :: "string \<Rightarrow> nav_state \<Rightarrow> nav_state" where
  "run_search input s =
     (case handleLocationSearch input of None \<Rightarrow> s | Some call \<Rightarrow> s\<lparr>nout := nout s @ [call]\<rparr>)"

definition fire_timer :: "nav_timer \<Rightarrow> nav_state \<Rightarrow> nav_state" where
  "fire_timer t s = (case t of SearchTimer input \<Rightarrow> run_search input s | BlurTimer \<Rightarrow> s\<lparr>nshowSuggestions := False\<rparr>)"

definition handleLocationSubmit :: "nav_state \<Rightarrow> nav_state" where
  "handleLocationSubmit s = run_search (nlocationInput s) s"

text \<open>The popular-destination chips and their own coordinate table.\<close>

definition chipCoordinates :: "(string \<times> coord) list" where
  "chipCoordinates =
     [(''new york, ny'', (40.7589, -73.9851)), (''los angeles, ca'', (34.0522, -118.2437)),
      (''chicago, il'', (41.8781, -87.6298)), (''san francisco, ca'', (37.7749, -122.4194)),
      (''london, uk'', (51.5074, -0.1278)), (''paris, france'', (48.8566, 2.3522))]"

definition chipLocations :: "string list" where
  "chipLocations = [''New York, NY'', ''Los Angeles, CA'', ''Chicago, IL'', ''San Francisco, CA'',
                    ''London, UK'', ''Paris, France'']"

definition handleChipClick :: "string \<Rightarrow> nav_state \<Rightarrow> nav_state" where
  "handleChipClick location s =
     (let normalizedLocation = js_trim (js_lower location);
          coords = (case map_of chipCoordinates normalizedLocation of Some c \<Rightarrow> c | None \<Rightarrow> nyc_coord)
      in s\<lparr>nlocationInput := location, nout := nout s @ [(location, LCoord coords)]\<rparr>)"

text \<open>
  The panel's events. A suggestion can be clicked only while the list shows it, the
  submit button is disabled for a blank input, a chip is one of the six rendered, and
  \<open>NTimer i\<close> fires the \<open>i\<close>-th pending timer (any order: the model does not fix the delays).
\<close>

datatype nav_event = NInput string | NSelect string | NFocus | NBlur | NSubmit | NTimer nat | NChip string

fun nav_step :: "nav_event \<Rightarrow> nav_state \<Rightarrow> nav_state" where
  "nav_step (NInput v) s = handleLocationInputChange v s"
| "nav_step (NSelect city) s =
     (if nshowSuggestions s \<and> city \<in> set (nfiltered s) then handleSuggestionSelect city s else s)"
| "nav_step NFocus s = handleInputFocus s"
| "nav_step NBlur s = handleInputBlur s"
| "nav_step NSubmit s = (if js_trim (nlocationInput s) = [] then s else handleLocationSubmit s)"
| "nav_step (NTimer i) s =
     (if i < length (ntimers s) then fire_timer (ntimers s ! i) (s\<lparr>ntimers := splice1 i (ntimers s)\<rparr>) else s)"
| "nav_step (NChip location) s = (if location \<in> set chipLocations then handleChipClick location s else s)"

definition nav_run :: "nav_state \<Rightarrow> nav_event list \<Rightarrow> nav_state" where
  "nav_run s es = foldl (\<lambda>s e. nav_step e s) s es"

text \<open>
  The coordinates the panel can hand to \<open>onLocationChange\<close>: a value of the table or
  the New York default. A prototype member is passed on only for an input that
  normalises to its name.
\<close>

definition known_coords :: "coord set" where
  "known_coords = insert nyc_coord (snd ` set mockCoordinates)"

definition nav_call_ok :: "string \<times> loc_value \<Rightarrow> bool" where
  "nav_call_ok call =
     (case snd call of
        LCoord c \<Rightarrow> c \<in> known_coords
      | LProto k \<Rightarrow> k \<in> set proto_members \<and> js_trim (js_lower (fst call)) = k)"

definition nav_inv :: "nav_state \<Rightarrow> bool" where
  "nav_inv s \<longleftrightarrow>
     set (nfiltered s) \<subseteq> set popularCities \<and> length (nfiltered s) \<le> 8 \<and>
     (nshowSuggestions s \<longrightarrow> nfiltered s \<noteq> []) \<and> (\<forall>call \<in> set (nout s). nav_call_ok call)"

lemma coord_lookup_ok:
  "coord_lookup k = Some v \<Longrightarrow>
     (case v of LCoord c \<Rightarrow> c \<in> known_coords | LProto k' \<Rightarrow> k' \<in> set proto_members \<and> k' = k)"
  by (auto simp: coord_lookup_def known_coords_def split: option.splits if_splits
           dest!: map_of_SomeD intro: snd_mem_image)

lemma handleLocationSearch_ok:
  assumes "handleLocationSearch v = Some call"
  shows "fst call = v \<and> nav_call_ok call"
proof -
  have nyc: "nyc_coord \<in> known_coords" by (simp add: known_coords_def)
  have f: "find P mockCoordinates = Some (k, c) \<Longrightarrow> c \<in> known_coords" for P k c
  proof -
    assume "find P mockCoordinates = Some (k, c)"
    then have "(k, c) \<in> set mockCoordinates" unfolding find_Some_iff by (metis nth_mem)
    then show ?thesis by (simp add: known_coords_def snd_mem_image)
  qed
  show ?thesis
    using assms coord_lookup_ok[of "js_trim (js_lower v)"]
    by (auto simp: handleLocationSearch_def nav_call_ok_def Let_def nyc f
             split: if_splits option.splits loc_value.splits prod.splits)
qed

lemma handleLocationSearch_Some:
  "js_trim v \<noteq> [] \<Longrightarrow> \<exists>val. handleLocationSearch v = Some (v, val)"
  by (auto simp: handleLocationSearch_def Let_def js_trim_lower_Nil split: option.splits prod.splits)

lemma run_search_inv: "nav_inv s \<Longrightarrow> nav_inv (run_search v s)"
  using handleLocationSearch_ok[of v] by (auto simp: run_search_def nav_inv_def split: option.splits)

lemma chip_coords_known: "(case map_of chipCoordinates k of Some c \<Rightarrow> c | None \<Rightarrow> nyc_coord) \<in> known_coords"
proof -
  have "snd ` set chipCoordinates \<subseteq> snd ` set mockCoordinates"
    by (simp add: chipCoordinates_def mockCoordinates_def)
  then show ?thesis
    by (auto simp: known_coords_def split: option.splits dest!: map_of_SomeD intro: snd_mem_image)
qed

lemma suggestions_bounds: "set (suggestions v) \<subseteq> set popularCities \<and> length (suggestions v) \<le> 8"
  by (auto simp: suggestions_def dest: in_set_takeD)

lemma handleLocationSearch_eval:
  "js_trim (js_lower v) = k \<Longrightarrow> k \<noteq> [] \<Longrightarrow> handleLocationSearch v =
     (case coord_lookup k of
        Some value \<Rightarrow> Some (v, value)
      | None \<Rightarrow>
          (case find (\<lambda>(key, _). js_includes key k \<or> js_includes k key) mockCoordinates of
             Some (_, coords) \<Rightarrow> Some (v, LCoord coords)
           | None \<Rightarrow> Some (v, LCoord nyc_coord)))"
  by (auto simp: handleLocationSearch_def js_trim_lower_Nil)

lemma nav_step_inv:
  assumes inv: "nav_inv s"
  shows "nav_inv (nav_step e s)"
proof (cases e)
  case (NInput v)
  then show ?thesis
    using suggestions_bounds[of v] inv
    by (auto simp: nav_inv_def handleLocationInputChange_def Let_def)
next
  case (NTimer i)
  have "nav_inv (fire_timer t s')" if "nav_inv s'" for t s'
    using that run_search_inv by (auto simp: fire_timer_def nav_inv_def split: nav_timer.splits)
  moreover have "nav_inv (s\<lparr>ntimers := splice1 i (ntimers s)\<rparr>)" using inv by (simp add: nav_inv_def)
  ultimately show ?thesis using NTimer inv by simp
next
  case (NChip l)
  then show ?thesis
    using inv chip_coords_known by (auto simp: nav_inv_def handleChipClick_def nav_call_ok_def Let_def)
qed (use inv run_search_inv in \<open>auto simp: nav_inv_def handleSuggestionSelect_def handleInputFocus_def
        handleInputBlur_def handleLocationSubmit_def popularCities_def dest: in_set_takeD\<close>)

text \<open>
  C26: Every state the panel reaches keeps its suggestion list to at most eight of the
  popular cities, shows it only when it is non-empty, and has passed
  \<open>onLocationChange\<close> only table coordinates, the New York default, or an inherited
  member for an input that normalises to that member's name.
\<close>

theorem nav_run_inv: "nav_inv (nav_run (nav_init loc) es)"
proof -
  have "nav_inv (nav_init loc)" by (simp add: nav_inv_def nav_init_def)
  then show ?thesis
    unfolding nav_run_def by (rule foldl_invariant [rotated]) (simp add: nav_step_inv)
qed

theorem nav_run_inv_witness:
  "nav_inv (nav_run (nav_init ''New York, NY'') [NInput ''san'', NSelect ''San Diego, CA'', NTimer 0, NFocus])"
  by (rule nav_run_inv)

text \<open>
  C17: Picking a suggestion after typing \<open>v\<close> searches for \<open>v\<close>, not for the city picked:
  the one \<open>onLocationChange\<close> call carries the typed text and its coordinates, while
  the input box shows the city.
\<close>

theorem nav_select_stale:
  assumes "js_trim v \<noteq> []" "city \<in> set (suggestions v)"
  shows "\<exists>val. handleLocationSearch v = Some (v, val) \<and>
           nout (nav_run (nav_init loc) [NInput v, NSelect city, NTimer 0]) = [(v, val)] \<and>
           nlocationInput (nav_run (nav_init loc) [NInput v, NSelect city, NTimer 0]) = city"
proof -
  obtain val where val: "handleLocationSearch v = Some (v, val)"
    using handleLocationSearch_Some[OF assms(1)] by blast
  have ne: "suggestions v \<noteq> []" using assms(2) by auto
  show ?thesis
    using assms val ne
    by (simp add: nav_run_def nav_init_def handleLocationInputChange_def handleSuggestionSelect_def
                  fire_timer_def run_search_def splice1_def)
qed

theorem nav_select_stale_witness:
  "nout (nav_run (nav_init ''New York, NY'') [NInput ''san'', NSelect ''San Diego, CA'', NTimer 0])
     = [(''san'', LCoord (34.0195, -118.4912))]"
proof -
  have l: "js_trim (js_lower ''san'') = ''san''"
    by (simp add: js_trim_def js_space_def js_lower_def js_lower_char_def char_of_def bit_0)
  have cl: "coord_lookup ''san'' = None"
    by (simp add: coord_lookup_def mockCoordinates_def proto_members_def)
  have s: "handleLocationSearch ''san'' = Some (''san'', LCoord (34.0195, -118.4912))"
    by (simp add: handleLocationSearch_eval[OF l] cl mockCoordinates_def)
  have c: "''San Diego, CA'' \<in> set (suggestions ''san'')"
    by (simp add: suggestions_def popularCities_def js_lower_def js_lower_char_def char_of_def bit_0)
  show ?thesis
    using nav_select_stale[of "''san''" "''San Diego, CA''" "''New York, NY''"] s c
    by (simp add: js_trim_def js_space_def)
qed

text \<open>
  Five of the popular cities the panel suggests are not in its coordinate table:
  the substring fallback sends Atlanta and Philadelphia to Los Angeles (both contain
  the key \<open>la\<close>) and San Diego, Washington and Nashville to the New York default.
\<close>

theorem nav_popular_misresolved:
  "set [''Atlanta, GA'', ''Philadelphia, PA'', ''San Diego, CA'', ''Washington, DC'', ''Nashville, TN'']
     \<subseteq> set popularCities \<and>
   handleLocationSearch ''Atlanta, GA'' = Some (''Atlanta, GA'', LCoord (34.0522, -118.2437)) \<and>
   handleLocationSearch ''Philadelphia, PA'' = Some (''Philadelphia, PA'', LCoord (34.0522, -118.2437)) \<and>
   handleLocationSearch ''San Diego, CA'' = Some (''San Diego, CA'', LCoord nyc_coord) \<and>
   handleLocationSearch ''Washington, DC'' = Some (''Washington, DC'', LCoord nyc_coord) \<and>
   handleLocationSearch ''Nashville, TN'' = Some (''Nashville, TN'', LCoord nyc_coord)"
proof -
  have n: "js_trim (js_lower ''Atlanta, GA'') = ''atlanta, ga''"
    "js_trim (js_lower ''Philadelphia, PA'') = ''philadelphia, pa''"
    "js_trim (js_lower ''San Diego, CA'') = ''san diego, ca''"
    "js_trim (js_lower ''Washington, DC'') = ''washington, dc''"
    "js_trim (js_lower ''Nashville, TN'') = ''nashville, tn''"
    by (simp_all add: js_trim_def js_space_def js_lower_def js_lower_char_def char_of_def bit_0)
  have c: "coord_lookup ''atlanta, ga'' = None" "coord_lookup ''philadelphia, pa'' = None"
    "coord_lookup ''san diego, ca'' = None" "coord_lookup ''washington, dc'' = None"
    "coord_lookup ''nashville, tn'' = None"
    by (simp_all add: coord_lookup_def mockCoordinates_def proto_members_def)
  show ?thesis
    by (simp add: handleLocationSearch_eval[OF n(1)] handleLocationSearch_eval[OF n(2)]
                  handleLocationSearch_eval[OF n(3)] handleLocationSearch_eval[OF n(4)]
                  handleLocationSearch_eval[OF n(5)] c mockCoordinates_def popularCities_def)
qed

text \<open>
  C35: An input that normalises to a name every object inherits (\<open>constructor\<close>,
  \<open>__proto__\<close>) finds that member in \<open>mockCoordinates\<close> and passes it to
  \<open>onLocationChange\<close> in place of a coordinate pair.
\<close>

theorem nav_proto_member:
  assumes "js_trim (js_lower v) \<in> set proto_members"
  shows "handleLocationSearch v = Some (v, LProto (js_trim (js_lower v)))"
proof -
  have "coord_lookup (js_trim (js_lower v)) = Some (LProto (js_trim (js_lower v)))"
    using assms by (auto simp: coord_lookup_def mockCoordinates_def proto_members_def)
  moreover have "js_trim (js_lower v) \<noteq> []" using assms by (auto simp: proto_members_def)
  ultimately show ?thesis by (simp add: handleLocationSearch_eval)
qed

theorem nav_proto_member_witness:
  "nout (nav_run (nav_init ''New York, NY'') [NInput ''constructor'', NSubmit])
     = [(''constructor'', LProto ''constructor'')]"
proof -
  have n: "js_trim (js_lower ''constructor'') = ''constructor''"
    by (simp add: js_trim_def js_space_def js_lower_def js_lower_char_def char_of_def bit_0)
  have "handleLocationSearch ''constructor'' = Some (''constructor'', LProto ''constructor'')"
    using nav_proto_member[of "''constructor''"] by (simp add: n proto_members_def)
  then show ?thesis
    by (simp add: nav_run_def nav_init_def handleLocationInputChange_def handleLocationSubmit_def
                  run_search_def js_trim_def js_space_def Let_def)
qed
end
