(* ===== verification/MapView.thy ===== *)
theory MapView
  imports Planner Tastes JsSort
begin

text \<open>
  The map view of the page (\<open>components/Simple2DMapView.js\<close>): where the planner's
  venue pool comes from. Its venue effect asks the backend for venues and falls back to
  \<open>generateFallbackVenues\<close>, a generator driven by the taste names and
  \<open>Math.random\<close>; its clicks open the venue drawer and the route planner, whose
  routes it passes up. The effect is modelled with its \<open>isFetchingRef\<close> guard and its
  dependency list (the taste names and the location); the awaited fetch settles as a
  separate event. The fallback's \<open>sort\<close> runs through the V8 model of \<open>JsSort\<close>.
  Marker icons and popups are display only, apart from the icon's colour and size.
\<close>

subsection \<open>The fallback generator\<close>

definition venueTypes :: "(string \<times> string list) list" where
  "venueTypes =
     [(''art'', [''Art Gallery'', ''Museum'', ''Art Studio'', ''Creative Space'']),
      (''music'', [''Live Music Venue'', ''Record Store'', ''Concert Hall'', ''Jazz Club'']),
      (''theater'', [''Theater'', ''Performance Space'', ''Comedy Club'', ''Improv Studio'']),
      (''photography'', [''Photo Gallery'', ''Camera Store'', ''Art Studio'', ''Exhibition Space'']),
      (''design'', [''Design Studio'', ''Architecture Firm'', ''Creative Co-working'', ''Maker Space'']),
      (''coffee'', [''Coffee Shop'', ''Specialty Cafe'', ''Roastery'', ''Third Wave Coffee'']),
      (''wine'', [''Wine Bar'', ''Tasting Room'', ''Wine Shop'', ''Vineyard'']),
      (''craft beer'', [''Craft Brewery'', ''Beer Garden'', ''Taproom'', ''Beer Store'']),
      (''cocktails'', [''Cocktail Bar'', ''Speakeasy'', ''Mixology Lounge'', ''Rooftop Bar'']),
      (''fine dining'', [''Fine Restaurant'', ''Michelin Star'', ''Chef's Table'', ''Tasting Menu'']),
      (''street food'', [''Food Truck'', ''Market Stall'', ''Food Hall'', ''Street Vendor'']),
      (''fashion'', [''Boutique'', ''Designer Store'', ''Vintage Shop'', ''Fashion Studio'']),
      (''books'', [''Bookstore'', ''Literary Cafe'', ''Book Club'', ''Reading Room'']),
      (''vintage'', [''Vintage Store'', ''Antique Shop'', ''Thrift Store'', ''Consignment'']),
      (''wellness'', [''Yoga Studio'', ''Meditation Center'', ''Spa'', ''Wellness Center'']),
      (''nightlife'', [''Nightclub'', ''Dance Club'', ''Rooftop Lounge'', ''Late Night Bar'']),
      (''social'', [''Community Center'', ''Co-working Space'', ''Social Club'', ''Meetup Space'']),
      (''sports'', [''Sports Bar'', ''Recreation Center'', ''Fitness Studio'', ''Athletic Club'']),
      (''history'', [''Historical Site'', ''Museum'', ''Cultural Center'', ''Heritage Site'']),
      (''science'', [''Science Museum'', ''Observatory'', ''Tech Hub'', ''Innovation Center'']),
      (''nature'', [''Botanical Garden'', ''Park'', ''Nature Center'', ''Outdoor Space''])]"

text \<open>\<open>set.add(x)\<close> on a JavaScript \<open>Set\<close>: insertion order, no duplicates.\<close>

definition set_add :: "'a \<Rightarrow> 'a list \<Rightarrow> 'a list" where
  "set_add x xs = (if x \<in> set xs then xs else xs @ [x])"

text \<open>
  The types one taste contributes: every category its lower-cased name contains, or
  whose name contains the name's first word (\<open>split(' ')[0]\<close>), then the seven
  direct keywords.
\<close>

definition taste_types :: "string \<Rightarrow> string list \<Rightarrow> string list" where
  "taste_types tasteName acc =
     (let firstWord = takeWhile (\<lambda>c. c \<noteq> CHR '' '') tasteName;
          acc1 = foldl (\<lambda>a (category, types).
                          if js_includes tasteName category \<or> js_includes category firstWord
                          then foldl (\<lambda>a' t. set_add t a') a types else a) acc venueTypes;
          extra = [(''museum'', ''Museum''), (''gallery'', ''Art Gallery''), (''restaurant'', ''Restaurant''),
                   (''bar'', ''Bar''), (''cafe'', ''Cafe''), (''market'', ''Market''), (''park'', ''Park'')]
      in foldl (\<lambda>a (k, t). if js_includes tasteName k then set_add t a else a) acc1 extra)"

definition relevantVenueTypes :: "'a tag_scheme list \<Rightarrow> string list" where
  "relevantVenueTypes tastes =
     (let ts = foldl (\<lambda>acc taste. taste_types (js_lower (tname taste)) acc) [] tastes
      in if ts = [] then [''Art Gallery'', ''Coffee Shop'', ''Restaurant'', ''Park'', ''Museum'', ''Bar''] else ts)"

definition venueNames :: "string \<Rightarrow> string list" where
  "venueNames venueType =
     (case map_of
        [(''Art Gallery'', [''Modern Canvas'', ''Gallery District'', ''Artisan Space'', ''Creative Collective'']),
         (''Coffee Shop'', [''Roasted Beans'', ''Morning Ritual'', ''The Daily Grind'', ''Cafe Culture'']),
         (''Restaurant'', [''Local Table'', ''Harvest Kitchen'', ''Seasonal Plates'', ''Neighborhood Bistro'']),
         (''Museum'', [''Cultural Heritage'', ''Local History'', ''Arts & Sciences'', ''Discovery Center'']),
         (''Bar'', [''Craft & Co'', ''The Local Tap'', ''Sunset Lounge'', ''Social House'']),
         (''Live Music Venue'', [''Sound Stage'', ''The Music Hall'', ''Rhythm & Blues'', ''Concert Corner'']),
         (''Bookstore'', [''Chapter & Verse'', ''Literary Corner'', ''Book Haven'', ''Reading Room'']),
         (''Park'', [''Central Gardens'', ''Community Green'', ''Riverside Park'', ''Urban Oasis''])] venueType of
        Some names \<Rightarrow> names
      | None \<Rightarrow> [''Local Spot'', ''Cultural Hub'', ''Community Space''])"

text \<open>
  One generated venue, with its five random draws in the order of the source: radius,
  angle, affinity, name and rating.
\<close>

definition fallback_venue :: "coord \<Rightarrow> string list \<Rightarrow> nat \<Rightarrow> rng \<Rightarrow> venue \<times> rng" where
  "fallback_venue center venueTypeArray i rs =
     (let (r1, rs1) = random_draw rs; (r2, rs2) = random_draw rs1; (r3, rs3) = random_draw rs2;
          (r4, rs4) = random_draw rs3; (r5, rs5) = random_draw rs4;
          radiusKm = 1.5 + r1 * 1.5;
          angle = r2 * 2 * pi;
          lat = fst center + (radiusKm / 111) * cos angle;
          lng = snd center + (radiusKm / (111 * cos (fst center * pi / 180))) * sin angle;
          venueType = venueTypeArray ! (i mod length venueTypeArray);
          aff = 60 + r3 * 35;
          nameOptions = venueNames venueType;
          venueName = nameOptions ! nat \<lfloor>r4 * real (length nameOptions)\<rfloor>
      in (\<lparr>vid = Suc i, vname = venueName, vtype = Some venueType, affinity = real_of_int (round aff),
           rating = Some (3.5 + r5 * 1.3), coordinates = Some (lat, lng), qloo_data = None\<rparr>, rs5))"

fun fallback_loop :: "coord \<Rightarrow> string list \<Rightarrow> nat \<Rightarrow> nat \<Rightarrow> rng \<Rightarrow> venue list \<times> rng" where
  "fallback_loop center types i 0 rs = ([], rs)"
| "fallback_loop center types i (Suc n) rs =
     (case fallback_venue center types i rs of
        (v, rs1) \<Rightarrow> (case fallback_loop center types (Suc i) n rs1 of (vs, rs2) \<Rightarrow> (v # vs, rs2)))"

text \<open>
  \<open>generateFallbackVenues\<close>: \<open>min(15, 3 * types)\<close> venues, sorted by descending
  affinity with the engine's \<open>sort\<close> and comparator \<open>b.affinity - a.affinity\<close>.
\<close>

definition generateFallbackVenues :: "'a tag_scheme list \<Rightarrow> coord \<Rightarrow> rng \<Rightarrow> js_error + venue list \<times> rng" where
  "generateFallbackVenues tastes center rs =
     (let venueTypeArray = relevantVenueTypes tastes
      in case fallback_loop center venueTypeArray 0 (min 15 (length venueTypeArray * 3)) rs of
           (generatedVenues, rs1) \<Rightarrow>
             (case js_sort (\<lambda>a b. Inr (affinity b - affinity a)) generatedVenues of
                Inl e \<Rightarrow> Inl e
              | Inr sortedVenues \<Rightarrow> Inr (sortedVenues, rs1)))"

text \<open>\<open>createVenueIcon\<close>: the marker's colour and size from the affinity.\<close>

definition venue_icon :: "venue \<Rightarrow> string \<times> nat" where
  "venue_icon v =
     ((if affinity v > 70 then ''#e74c3c'' else if affinity v > 40 then ''#f39c12'' else ''#3498db''),
      (if affinity v > 70 then 35 else 30))"

subsection \<open>The venue effect and the view's handlers\<close>

datatype drawer_state = DrawerHidden | DrawerExpanded

text \<open>\<open>mdeps\<close> holds the dependencies of the effect's last run (taste names, location).\<close>

record mapview_state =
  mvenues :: "venue list"
  mloading :: bool
  mfetching :: bool
  mselected :: "venue option"
  mdrawer :: drawer_state
  mshowPlanner :: bool
  mdeps :: "(string list \<times> string) option"
  mpending :: "(tag list \<times> coord) option"
  mvenuesOut :: "venue list list"
  mroutesOut :: "planned_route list"

definition mapview_init :: mapview_state where
  "mapview_init = \<lparr>mvenues = [], mloading = True, mfetching = False, mselected = None, mdrawer = DrawerHidden,
                    mshowPlanner = False, mdeps = None, mpending = None, mvenuesOut = [], mroutesOut = []\<rparr>"

text \<open>
  A render with the current props: when the taste names or the location changed, the
  effect body runs: no tastes clear the venues; a fetch in flight makes it return;
  otherwise the fetch starts.
\<close>

definition mapview_render :: "tag list \<Rightarrow> string \<Rightarrow> coord \<Rightarrow> mapview_state \<Rightarrow> mapview_state" where
  "mapview_render tastes userLocation center s =
     (let deps = (map tname tastes, userLocation) in
      if mdeps s = Some deps then s
      else (let s1 = s\<lparr>mdeps := Some deps\<rparr> in
            if tastes = [] then s1\<lparr>mvenues := [], mloading := False\<rparr>
            else if mfetching s1 then s1
            else s1\<lparr>mloading := True, mfetching := True, mpending := Some (tastes, center)\<rparr>))"

text \<open>
  The fetch settles: a successful answer with venues is shown and reported, anything
  else falls back to the generator; the \<open>finally\<close> resets both flags.
\<close>

definition mapview_settle :: "(bool \<times> venue list) response \<Rightarrow> rng \<Rightarrow> mapview_state \<Rightarrow> js_error + mapview_state \<times> rng" where
  "mapview_settle r rs s =
     (case mpending s of
        None \<Rightarrow> Inr (s, rs)
      | Some (tastes, center) \<Rightarrow>
          (let s1 = s\<lparr>mpending := None, mloading := False, mfetching := False\<rparr> in
           case r of
             RespOk (success, vs) \<Rightarrow>
               if success \<and> vs \<noteq> [] then Inr (s1\<lparr>mvenues := vs, mvenuesOut := mvenuesOut s @ [vs]\<rparr>, rs)
               else (case generateFallbackVenues tastes center rs of
                       Inl e \<Rightarrow> Inl e
                     | Inr (fb, rs1) \<Rightarrow> Inr (s1\<lparr>mvenues := fb, mvenuesOut := mvenuesOut s @ [fb]\<rparr>, rs1))
           | _ \<Rightarrow> (case generateFallbackVenues tastes center rs of
                     Inl e \<Rightarrow> Inl e
                   | Inr (fb, rs1) \<Rightarrow> Inr (s1\<lparr>mvenues := fb, mvenuesOut := mvenuesOut s @ [fb]\<rparr>, rs1))))"

definition handleVenueClick :: "venue \<Rightarrow> mapview_state \<Rightarrow> mapview_state" where
  "handleVenueClick v s = s\<lparr>mselected := Some v, mdrawer := DrawerExpanded\<rparr>"

definition handleDrawerClose :: "mapview_state \<Rightarrow> mapview_state" where
  "handleDrawerClose s = s\<lparr>mdrawer := DrawerHidden, mselected := None\<rparr>"

text \<open>The Plan Route button exists only once venues are loaded.\<close>

definition openPlanner :: "mapview_state \<Rightarrow> mapview_state" where
  "openPlanner s = (if \<not> mloading s \<and> mvenues s \<noteq> [] then s\<lparr>mshowPlanner := True\<rparr> else s)"

datatype mapview_event =
    MRender "tag list" string coord
  | MSettle "(bool \<times> venue list) response" rng
  | MVenueClick venue
  | MDrawerClose
  | MPlanRoute
  | MPlannerClose
  | MPlannerRoute planned_route

fun mapview_step :: "mapview_event \<Rightarrow> mapview_state \<Rightarrow> mapview_state" where
  "mapview_step (MRender ts loc c) s = mapview_render ts loc c s"
| "mapview_step (MSettle r rs) s = (case mapview_settle r rs s of Inl _ \<Rightarrow> s | Inr (s', _) \<Rightarrow> s')"
| "mapview_step (MVenueClick v) s = handleVenueClick v s"
| "mapview_step MDrawerClose s = handleDrawerClose s"
| "mapview_step MPlanRoute s = openPlanner s"
| "mapview_step MPlannerClose s = s\<lparr>mshowPlanner := False\<rparr>"
| "mapview_step (MPlannerRoute r) s =
     (if mshowPlanner s then s\<lparr>mroutesOut := mroutesOut s @ [r]\<rparr> else s)"

definition mapview_run :: "mapview_event list \<Rightarrow> mapview_state" where
  "mapview_run evs = foldl (\<lambda>s ev. mapview_step ev s) mapview_init evs"

text \<open>Scenario data: two tastes.\<close>


definition art_tag :: tag where "art_tag = \<lparr>tid = ''art'', tname = ''Art''\<rparr>"

definition music_tag :: tag where "music_tag = \<lparr>tid = ''music'', tname = ''Music''\<rparr>"

subsection \<open>Lemmas\<close>


lemma fallback_venue_props:
  assumes "rng_ok rs" "types \<noteq> []" "fallback_venue c types i rs = (v, rs')"
  shows "vid v = Suc i \<and> 60 \<le> affinity v \<and> affinity v \<le> 95 \<and> vtype v \<in> Some ` set types \<and> rng_ok rs'"
proof -
  let ?d1 = "random_draw rs"
  let ?d2 = "random_draw (snd ?d1)"
  let ?d3 = "random_draw (snd ?d2)"
  let ?d4 = "random_draw (snd ?d3)"
  let ?d5 = "random_draw (snd ?d4)"
  have ok: "rng_ok (snd ?d5)" and r3: "0 \<le> fst ?d3 \<and> fst ?d3 < 1"
    using random_draw_ok assms(1) by meson+
  have v: "v = fst (fallback_venue c types i rs)" and rs': "rs' = snd (fallback_venue c types i rs)"
    using assms(3) by simp_all
  have aff: "affinity v = real_of_int (round (60 + fst ?d3 * 35))"
    and ty: "vtype v = Some (types ! (i mod length types))" and idv: "vid v = Suc i"
    and rsv: "rs' = snd ?d5"
    using v rs' by (simp_all add: fallback_venue_def Let_def split: prod.splits)
  have "60 \<le> round (60 + fst ?d3 * 35) \<and> round (60 + fst ?d3 * 35) \<le> 95"
    using r3 by (simp add: round_def le_floor_iff floor_le_iff)
  moreover have "types ! (i mod length types) \<in> set types"
    using assms(2) by simp
  ultimately show ?thesis using aff ty idv rsv ok by auto
qed



lemma fallback_loop_props:
  assumes "rng_ok rs" "types \<noteq> []" "fallback_loop c types i n rs = (vs, rs')"
  shows "map vid vs = [Suc i..<Suc (i + n)]
         \<and> (\<forall>v \<in> set vs. 60 \<le> affinity v \<and> affinity v \<le> 95 \<and> vtype v \<in> Some ` set types)"
  using assms
proof (induction c types i n rs arbitrary: vs rs' rule: fallback_loop.induct)
  case (1 center types i rs)
  then show ?case by simp
next
  case (2 center types i n rs)
  obtain v rs1 where fv: "fallback_venue center types i rs = (v, rs1)" by (cases "fallback_venue center types i rs")
  obtain ws rs2 where fl: "fallback_loop center types (Suc i) n rs1 = (ws, rs2)"
    by (cases "fallback_loop center types (Suc i) n rs1")
  from "2.prems"(3) fv fl have vs: "vs = v # ws" by simp
  from fallback_venue_props [OF "2.prems"(1,2) fv]
  have pv: "vid v = Suc i \<and> 60 \<le> affinity v \<and> affinity v \<le> 95 \<and> vtype v \<in> Some ` set types" and ok: "rng_ok rs1"
    by simp_all
  from "2.IH" [OF fv [symmetric] ok "2.prems"(2) fl] pv vs show ?case
    by (simp add: upt_conv_Cons)
qed

lemma relevantVenueTypes_nonempty: "relevantVenueTypes ts \<noteq> []"
  by (simp add: relevantVenueTypes_def Let_def)

text \<open>
  C34: for a random source in [0, 1) the fallback generator returns min(15, 3 t) venues
  for the t relevant venue types, numbered 1 to n, each of a relevant type with an
  affinity in [60, 95], in the stable descending order of affinity that the engine's
  sort produces.
\<close>

lemma generateFallbackVenues_props:
  assumes "rng_ok rs"
  shows "\<exists>gen vs rs'. generateFallbackVenues ts c rs = Inr (vs, rs')
           \<and> vs = sort_key (\<lambda>v. - affinity v) gen
           \<and> length vs = min 15 (3 * length (relevantVenueTypes ts))
           \<and> sorted_wrt (\<lambda>a b. affinity b \<le> affinity a) vs
           \<and> mset (map vid vs) = mset [1..<Suc (length vs)]
           \<and> (\<forall>v \<in> set vs. 60 \<le> affinity v \<and> affinity v \<le> 95 \<and> vtype v \<in> Some ` set (relevantVenueTypes ts))"
proof -
  let ?types = "relevantVenueTypes ts"
  let ?n = "min 15 (length ?types * 3)"
  obtain gen rs' where fl: "fallback_loop c ?types 0 ?n rs = (gen, rs')"
    by (cases "fallback_loop c ?types 0 ?n rs")
  from fallback_loop_props [OF assms relevantVenueTypes_nonempty fl]
  have ids: "map vid gen = [1..<Suc ?n]"
    and pr: "\<forall>v \<in> set gen. 60 \<le> affinity v \<and> affinity v \<le> 95 \<and> vtype v \<in> Some ` set ?types"
    by simp_all
  have cmp: "(\<lambda>a b. Inr (affinity b - affinity a)) = key_cmp (\<lambda>v. - affinity v)"
    by (simp add: key_cmp_def fun_eq_iff)
  let ?vs = "sort_key (\<lambda>v. - affinity v) gen"
  have gf: "generateFallbackVenues ts c rs = Inr (?vs, rs')"
    using fl by (simp add: generateFallbackVenues_def cmp js_sort_key)
  have "length (map vid gen) = length [1..<Suc ?n]" using ids by (rule arg_cong)
  then have len_gen: "length gen = ?n" by (simp only: length_map length_upt diff_Suc_1)
  have "sorted (map (\<lambda>v. - affinity v) ?vs)" by (rule sorted_sort_key)
  then have srt: "sorted_wrt (\<lambda>a b. affinity b \<le> affinity a) ?vs" by (simp add: sorted_map)
  have "mset (map vid ?vs) = mset (map vid gen)" by (simp add: mset_map)
  moreover have "length ?vs = ?n" using len_gen by simp
  ultimately have m: "mset (map vid ?vs) = mset [1..<Suc (length ?vs)]" using ids by simp
  have p: "\<forall>v \<in> set ?vs. 60 \<le> affinity v \<and> affinity v \<le> 95 \<and> vtype v \<in> Some ` set ?types"
    using pr by simp
  have l: "length ?vs = min 15 (3 * length ?types)" using len_gen by (simp add: mult.commute)
  show ?thesis
    by (intro exI [of _ gen] exI [of _ ?vs] exI [of _ rs'] conjI gf refl l srt m p)
qed

lemma generateFallbackVenues_props_witness:
  "\<exists>vs rs'. generateFallbackVenues [art_tag] (40.7589, -73.9851) (sconst 0.5) = Inr (vs, rs')
            \<and> length vs = min 15 (3 * length (relevantVenueTypes [art_tag]))"
  using generateFallbackVenues_props [of "sconst 0.5" "[art_tag]" "(40.7589, -73.9851)"] by auto



end
