(* ===== verification/Drawer.thy ===== *)
theory Drawer
  imports MapView
begin

text \<open>
  The venue drawer (\<open>components/VenueDrawer.js\<close>): its props as the component
  destructures them, the render's early \<open>return null\<close>, the category icons, the
  drag gesture and the footer's \<open>View All\<close> button. The gesture's state hooks become \<open>drawer_gesture\<close>; the \<open>state\<close>
  prop is held there too, as the parent \<open>Simple3DMapView\<close> owns it and passes
  \<open>setDrawerState\<close> as \<open>onStateChange\<close>, so each call updates it before the next render
  (the calls are also recorded in \<open>dchanges\<close>); the \<open>venues\<close> prop is \<open>dvenues\<close>. Touch handlers are bound at every
  render and read the current state; the mouse handlers are added to \<open>document\<close> at
  \<open>mousedown\<close> and keep the values of that render, which \<open>ddocListeners\<close> records.
  Pointer positions are whole pixels.
\<close>

subsection \<open>Props\<close>

text \<open>A JSX prop value, as far as the drawer and its callers pass them.\<close>

datatype jsx_val = JStr string | JBool bool | JNull | JVenues "venue list" | JVenueOpt "venue option"
  | JCallback string

record drawer_props =
  dpstate :: jsx_val
  dpvenues :: jsx_val
  dploading :: jsx_val
  dperror :: jsx_val
  dpfocusedHex :: jsx_val

text \<open>A destructured prop: its default when the caller does not pass it.\<close>

definition prop_or :: "(string \<times> jsx_val) list \<Rightarrow> string \<Rightarrow> jsx_val \<Rightarrow> jsx_val" where
  "prop_or props name dflt = (case map_of props name of None \<Rightarrow> dflt | Some v \<Rightarrow> v)"

definition drawer_props_of :: "(string \<times> jsx_val) list \<Rightarrow> drawer_props" where
  "drawer_props_of props =
     \<lparr>dpstate = prop_or props ''state'' (JStr ''hidden''), dpvenues = prop_or props ''venues'' (JVenues []),
      dploading = prop_or props ''loading'' (JBool False), dperror = prop_or props ''error'' JNull,
      dpfocusedHex = prop_or props ''focusedHex'' JNull\<rparr>"

text \<open>The render returns \<open>null\<close> for the hidden state and draws the drawer otherwise.\<close>

definition drawer_renders :: "drawer_props \<Rightarrow> bool" where
  "drawer_renders p \<longleftrightarrow> dpstate p \<noteq> JStr ''hidden''"

text \<open>The props \<open>Simple2DMapView\<close> passes to the drawer.\<close>

definition mapview_drawer_props :: "mapview_state \<Rightarrow> (string \<times> jsx_val) list" where
  "mapview_drawer_props s =
     [(''venue'', JVenueOpt (mselected s)), (''isOpen'', JBool (mdrawer s = DrawerExpanded)),
      (''onClose'', JCallback ''handleDrawerClose''), (''onGetDirections'', JCallback ''onGetDirections'')]"

text \<open>The props \<open>Simple3DMapView\<close> passes, for its \<open>drawerState\<close> and selected venue.\<close>

definition simple3d_drawer_props :: "string \<Rightarrow> venue option \<Rightarrow> (string \<times> jsx_val) list" where
  "simple3d_drawer_props drawerState selectedVenue =
     [(''state'', JStr drawerState),
      (''venues'', JVenues (case selectedVenue of Some v \<Rightarrow> [v] | None \<Rightarrow> [])),
      (''loading'', JBool False), (''error'', JNull), (''focusedVenue'', JVenueOpt selectedVenue),
      (''onStateChange'', JCallback ''setDrawerState''), (''onVenueSelect'', JCallback ''log'')]"

subsection \<open>Category icons\<close>

text \<open>\<open>getCategoryIcon\<close>; emoji are written by their Unicode names, and the two entries the
  source stores as a replacement character as \<open>U+FFFD\<close>.\<close>

definition category_icons :: "(string \<times> string) list" where
  "category_icons =
     [(''Restaurant'', ''fork and knife with plate''), (''Deli'', ''sandwich''), (''Cafe'', ''hot beverage''),
      (''Bar'', ''U+FFFD''), (''Art Museum'', ''artist palette''), (''Modern Art Museum'', ''framed picture''),
      (''Museum'', ''U+FFFD''), (''Market'', ''shopping trolley''), (''Shopping Mall'', ''department store''),
      (''Event Venue'', ''circus tent''), (''Arena'', ''stadium''), (''Stadium'', ''soccer ball''),
      (''Tourist Attraction'', ''round pushpin''), (''Historical Landmark'', ''classical building''),
      (''Park'', ''deciduous tree''), (''Garden'', ''cherry blossom''), (''Cultural Venue'', ''performing arts'')]"

definition getCategoryIcon :: "string option \<Rightarrow> string" where
  "getCategoryIcon venueType =
     (case venueType of
        None \<Rightarrow> ''round pushpin''
      | Some t \<Rightarrow> (case map_of category_icons t of Some i \<Rightarrow> i | None \<Rightarrow> ''round pushpin''))"

subsection \<open>Drag gesture\<close>

record drawer_gesture =
  dragStart :: "int option"
  dragOffset :: int
  ddocListeners :: "(int option \<times> int \<times> string) list"
  dstate :: string
  dchanges :: "string list"
  dvenues :: "venue list"

definition drawer_init :: "string \<Rightarrow> venue list \<Rightarrow> drawer_gesture" where
  "drawer_init st vs =
     \<lparr>dragStart = None, dragOffset = 0, ddocListeners = [], dstate = st, dchanges = [], dvenues = vs\<rparr>"

definition onStateChange :: "string \<Rightarrow> drawer_gesture \<Rightarrow> drawer_gesture" where
  "onStateChange st s = s\<lparr>dstate := st, dchanges := dchanges s @ [st]\<rparr>"

definition handleDragStart :: "int \<Rightarrow> drawer_gesture \<Rightarrow> drawer_gesture" where
  "handleDragStart clientY s = s\<lparr>dragStart := Some clientY, dragOffset := 0\<rparr>"

text \<open>\<open>handleDragMove\<close> and \<open>handleDragEnd\<close> of the render whose \<open>dragStart\<close>,
  \<open>dragOffset\<close> and \<open>state\<close> are the given ones, run on the current state.\<close>

definition handleDragMove :: "int option \<Rightarrow> int \<Rightarrow> drawer_gesture \<Rightarrow> drawer_gesture" where
  "handleDragMove start clientY s =
     (case start of None \<Rightarrow> s | Some y0 \<Rightarrow> s\<lparr>dragOffset := clientY - y0\<rparr>)"

definition drag_threshold :: int where
  "drag_threshold = 50"

definition handleDragEnd :: "int option \<Rightarrow> int \<Rightarrow> string \<Rightarrow> drawer_gesture \<Rightarrow> drawer_gesture" where
  "handleDragEnd start offset st s =
     (case start of
        None \<Rightarrow> s
      | Some _ \<Rightarrow>
          (let s' =
             (if \<bar>offset\<bar> > drag_threshold then
                (if offset > 0 then
                   (if st = ''expanded'' then onStateChange ''peek'' s
                    else if st = ''peek'' then onStateChange ''hidden'' s else s)
                 else
                   (if st = ''hidden'' then onStateChange ''peek'' s
                    else if st = ''peek'' then onStateChange ''expanded'' s else s))
              else s)
           in s'\<lparr>dragStart := None, dragOffset := 0\<rparr>))"

text \<open>\<open>handleMouseDown\<close>: the drag starts, and listeners for \<open>mousemove\<close> and \<open>mouseup\<close>
  are added to \<open>document\<close> with the values of the current render.\<close>

definition handleMouseDown :: "int \<Rightarrow> drawer_gesture \<Rightarrow> drawer_gesture" where
  "handleMouseDown clientY s =
     (handleDragStart clientY s)\<lparr>ddocListeners := ddocListeners s @ [(dragStart s, dragOffset s, dstate s)]\<rparr>"

text \<open>A \<open>mousemove\<close> on the document runs every registered listener in order; a
  \<open>mouseup\<close> runs every \<open>handleMouseUp\<close>, each of which ends its drag and removes its
  pair of listeners.\<close>

definition doc_mousemove :: "int \<Rightarrow> drawer_gesture \<Rightarrow> drawer_gesture" where
  "doc_mousemove clientY s = foldl (\<lambda>s (start, _, _). handleDragMove start clientY s) s (ddocListeners s)"

definition doc_mouseup :: "drawer_gesture \<Rightarrow> drawer_gesture" where
  "doc_mouseup s =
     (foldl (\<lambda>s (start, offset, st). handleDragEnd start offset st s) s (ddocListeners s))\<lparr>ddocListeners := []\<rparr>"

text \<open>The footer's first button, shown when there are venues: \<open>Collapse\<close> when expanded,
  \<open>View All\<close> otherwise.\<close>

definition handleViewAll :: "drawer_gesture \<Rightarrow> drawer_gesture" where
  "handleViewAll s = onStateChange (if dstate s = ''expanded'' then ''peek'' else ''expanded'') s"

datatype drawer_event = DMouseDown int | DMouseMove int | DMouseUp | DTouchStart int | DTouchMove int | DTouchEnd
  | DViewAll

text \<open>The handle exists only while the drawer renders, that is, when not hidden; the
  document listeners stay registered either way.\<close>

fun drawer_step :: "drawer_event \<Rightarrow> drawer_gesture \<Rightarrow> drawer_gesture" where
  "drawer_step (DMouseDown y) s = (if dstate s = ''hidden'' then s else handleMouseDown y s)"
| "drawer_step (DMouseMove y) s = doc_mousemove y s"
| "drawer_step DMouseUp s = doc_mouseup s"
| "drawer_step (DTouchStart y) s = (if dstate s = ''hidden'' then s else handleDragStart y s)"
| "drawer_step (DTouchMove y) s = (if dstate s = ''hidden'' then s else handleDragMove (dragStart s) y s)"
| "drawer_step DTouchEnd s =
     (if dstate s = ''hidden'' then s else handleDragEnd (dragStart s) (dragOffset s) (dstate s) s)"
| "drawer_step DViewAll s = (if dstate s = ''hidden'' \<or> dvenues s = [] then s else handleViewAll s)"

definition drawer_run :: "drawer_gesture \<Rightarrow> drawer_event list \<Rightarrow> drawer_gesture" where
  "drawer_run s es = foldl (\<lambda>s e. drawer_step e s) s es"

text \<open>
  What a drag should do: one step along hidden, peek, expanded, down for a drag of
  more than the threshold downwards, up for one upwards, nothing otherwise.
\<close>

definition drawer_positions :: "string list" where
  "drawer_positions = [''hidden'', ''peek'', ''expanded'']"

definition drag_spec :: "string \<Rightarrow> int \<Rightarrow> string" where
  "drag_spec st offset =
     (if \<bar>offset\<bar> \<le> drag_threshold then st
      else if offset > 0 then (if st = ''expanded'' then ''peek'' else if st = ''peek'' then ''hidden'' else st)
      else (if st = ''hidden'' then ''peek'' else if st = ''peek'' then ''expanded'' else st))"

definition drawer_inv :: "drawer_gesture \<Rightarrow> bool" where
  "drawer_inv s \<longleftrightarrow>
     dstate s \<in> set drawer_positions \<and> set (dchanges s) \<subseteq> set drawer_positions
     \<and> (\<forall>(_, _, st) \<in> set (ddocListeners s). st \<in> set drawer_positions)"

lemma drawer_inv_drag [simp]:
  "drawer_inv (s\<lparr>dragStart := a, dragOffset := b\<rparr>) \<longleftrightarrow> drawer_inv s"
  "drawer_inv (s\<lparr>dragOffset := b\<rparr>) \<longleftrightarrow> drawer_inv s"
  "drawer_inv (s\<lparr>dragStart := a\<rparr>) \<longleftrightarrow> drawer_inv s"
  by (simp_all add: drawer_inv_def)

lemma onStateChange_inv:
  "drawer_inv s \<Longrightarrow> st \<in> set drawer_positions \<Longrightarrow> drawer_inv (onStateChange st s)"
  by (simp add: drawer_inv_def onStateChange_def)

lemma handleDragEnd_inv:
  assumes "drawer_inv s"
  shows "drawer_inv (handleDragEnd start offset st s)"
proof (cases start)
  case (Some y)
  have p: "''peek'' \<in> set drawer_positions" "''hidden'' \<in> set drawer_positions"
    "''expanded'' \<in> set drawer_positions" by (simp_all add: drawer_positions_def)
  show ?thesis
    using Some assms onStateChange_inv[OF assms p(1)] onStateChange_inv[OF assms p(2)]
      onStateChange_inv[OF assms p(3)]
    by (simp add: handleDragEnd_def Let_def)
qed (simp add: handleDragEnd_def assms)

lemma handleDragMove_inv: "drawer_inv s \<Longrightarrow> drawer_inv (handleDragMove start y s)"
  by (simp add: handleDragMove_def split: option.splits)

lemma handleDragMove_listeners [simp]: "ddocListeners (handleDragMove start y s) = ddocListeners s"
  by (simp add: handleDragMove_def split: option.splits)

lemma doc_mousemove_inv: "drawer_inv s \<Longrightarrow> drawer_inv (doc_mousemove y s)"
  unfolding doc_mousemove_def by (rule foldl_invariant) (auto intro: handleDragMove_inv)

lemma doc_mouseup_inv: "drawer_inv s \<Longrightarrow> drawer_inv (doc_mouseup s)"
proof -
  assume "drawer_inv s"
  then have "drawer_inv (foldl (\<lambda>s (start, offset, st). handleDragEnd start offset st s) s (ddocListeners s))"
    by (rule foldl_invariant[rotated]) (auto intro: handleDragEnd_inv)
  then show ?thesis by (simp add: doc_mouseup_def drawer_inv_def)
qed

lemma handleMouseDown_inv: "drawer_inv s \<Longrightarrow> drawer_inv (handleMouseDown y s)"
  by (simp add: handleMouseDown_def handleDragStart_def drawer_inv_def)

lemma handleViewAll_inv: "drawer_inv s \<Longrightarrow> drawer_inv (handleViewAll s)"
  by (simp add: handleViewAll_def onStateChange_inv drawer_positions_def)

lemma drawer_step_inv: "drawer_inv s \<Longrightarrow> drawer_inv (drawer_step e s)"
  by (cases e) (auto simp: doc_mousemove_inv doc_mouseup_inv handleMouseDown_inv handleDragMove_inv
                            handleDragEnd_inv handleDragStart_def handleViewAll_inv)



text \<open>
  C36: A touch drag on a shown drawer moves it one step along hidden, peek, expanded:
  down for more than 50 pixels downwards, up for more than 50 upwards, not at all
  otherwise; the drag is then over.
\<close>

theorem touch_drag_spec:
  assumes "dstate s \<in> set drawer_positions" "dstate s \<noteq> ''hidden''"
  shows "dstate (drawer_run s [DTouchStart y0, DTouchMove y1, DTouchEnd]) = drag_spec (dstate s) (y1 - y0)
       \<and> dragStart (drawer_run s [DTouchStart y0, DTouchMove y1, DTouchEnd]) = None"
  using assms
  by (auto simp: drawer_run_def handleDragStart_def handleDragMove_def handleDragEnd_def drag_spec_def
                 onStateChange_def drawer_positions_def Let_def)

theorem touch_drag_spec_witness:
  "dstate (drawer_run (drawer_init ''peek'' []) [DTouchStart 100, DTouchMove 300, DTouchEnd]) = ''hidden''"
  using touch_drag_spec[of "drawer_init ''peek'' []" 100 300]
  by (simp add: drawer_init_def drawer_positions_def drag_spec_def drag_threshold_def)

text \<open>
  C18: A mouse drag does nothing: the document listeners keep the \<open>dragStart\<close> of the
  render before the drag, which is \<open>null\<close>, so moving and releasing return early; the
  state is unchanged, \<open>onStateChange\<close> is not called, and \<open>dragStart\<close> stays set.
\<close>

theorem mouse_drag_inert:
  assumes "dragStart s = None" "ddocListeners s = []" "dstate s \<noteq> ''hidden''"
  shows "dstate (drawer_run s [DMouseDown y0, DMouseMove y1, DMouseUp]) = dstate s
       \<and> dchanges (drawer_run s [DMouseDown y0, DMouseMove y1, DMouseUp]) = dchanges s
       \<and> dragStart (drawer_run s [DMouseDown y0, DMouseMove y1, DMouseUp]) = Some y0"
  using assms
  by (simp add: drawer_run_def handleMouseDown_def handleDragStart_def doc_mousemove_def doc_mouseup_def
                handleDragMove_def handleDragEnd_def)

theorem mouse_drag_inert_witness:
  "dstate (drawer_run (drawer_init ''peek'' []) [DMouseDown 100, DMouseMove 300, DMouseUp]) = ''peek''
   \<and> drag_spec ''peek'' (300 - 100) = ''hidden''"
  using mouse_drag_inert[of "drawer_init ''peek'' []" 100 300]
  by (simp add: drawer_init_def drag_spec_def drag_threshold_def)


end
