(* ===== verification/Simple3D.thy ===== *)
theory Simple3D
  imports Drawer
begin

text \<open>
  The CSS 3D map view (\<open>components/Simple3DMapView.js\<close>) and the venue drawer it
  mounts. Its eighteen fixed venues extend the venue record with the marker number and
  the position in percent (\<open>s3d_venue\<close>); its state hooks become \<open>s3d_state\<close>, in
  which the drawer's gesture state \<open>sdrawer\<close> holds the view's \<open>drawerState\<close> (its
  \<open>dstate\<close>, set by the drawer through \<open>onStateChange={setDrawerState}\<close>) and the
  \<open>venues\<close> prop (\<open>selectedVenue ? [selectedVenue] : []\<close>). Filters and the map
  style are passed to \<open>MapControls\<close> and only logged or stored, so they are not part
  of the state.
\<close>

record s3d_venue = venue +
  snumber :: nat
  spos :: "int \<times> int"

definition fixed_venue :: "nat \<Rightarrow> string \<Rightarrow> string \<Rightarrow> real \<Rightarrow> real \<Rightarrow> int \<times> int \<Rightarrow> s3d_venue" where
  "fixed_venue n name ty aff r p =
     \<lparr>vid = n, vname = name, vtype = Some ty, affinity = aff, rating = Some r, coordinates = None,
      qloo_data = None, snumber = n, spos = p\<rparr>"

definition fixedVenues :: "s3d_venue list" where
  "fixedVenues =
     [fixed_venue 1 ''Blue Note Jazz Club'' ''Jazz Club'' 85 4.2 (20, 15),
      fixed_venue 2 ''Artisan Coffee House'' ''Coffee House'' 92 4.7 (35, 25),
      fixed_venue 3 ''Gallery Modern'' ''Art Gallery'' 67 3.8 (50, 30),
      fixed_venue 4 ''The Hidden Speakeasy'' ''Cocktail Bar'' 78 4.1 (65, 20),
      fixed_venue 5 ''Rooftop Garden Bar'' ''Rooftop Venue'' 89 4.5 (80, 35),
      fixed_venue 6 ''Local Market Bistro'' ''Restaurant'' 45 3.6 (25, 45),
      fixed_venue 7 ''Vintage Records Store'' ''Vintage Shop'' 73 4.0 (40, 55),
      fixed_venue 8 ''Contemporary Art Space'' ''Art Space'' 56 3.9 (55, 60),
      fixed_venue 9 ''Craft Brewery'' ''Brewery'' 91 4.6 (70, 50),
      fixed_venue 10 ''Independent Bookshop'' ''Bookstore'' 38 3.5 (30, 70),
      fixed_venue 11 ''Cultural Center'' ''Cultural Center'' 82 4.3 (45, 75),
      fixed_venue 12 ''Live Music Venue'' ''Music Venue'' 64 3.7 (60, 80),
      fixed_venue 13 ''Food Hall Collective'' ''Food Hall'' 76 4.1 (75, 70),
      fixed_venue 14 ''Designer Boutique'' ''Boutique'' 87 4.4 (15, 60),
      fixed_venue 15 ''Wine & Tapas Bar'' ''Wine Bar'' 42 3.8 (85, 55),
      fixed_venue 16 ''Theater District Cafe'' ''Cafe'' 69 4.0 (10, 40),
      fixed_venue 17 ''Museum Shop'' ''Museum'' 94 4.8 (90, 25),
      fixed_venue 18 ''Night Market'' ''Market'' 51 3.7 (75, 15)]"

text \<open>The mount effect: \<open>fixedVenues.sort((a, b) => b.affinity - a.affinity)\<close>.\<close>

definition s3d_sorted :: "s3d_venue list \<Rightarrow> js_error + s3d_venue list" where
  "s3d_sorted vs = js_sort (\<lambda>a b. Inr (affinity b - affinity a)) vs"

text \<open>Marker colour and size, and the buildings (the first twelve venues).\<close>

definition marker_color :: "real \<Rightarrow> string" where
  "marker_color a = (if a > 70 then ''#e74c3c'' else if a > 40 then ''#f39c12'' else ''#3498db'')"

definition marker_size :: "real \<Rightarrow> nat" where
  "marker_size a = (if a > 70 then 40 else if a > 40 then 35 else 30)"

definition buildings :: "s3d_venue list \<Rightarrow> s3d_venue list" where
  "buildings vs = take 12 vs"

text \<open>
  \<open>adjustBrightness\<close>: the first \<open>#\<close> removed, three two-digit hexadecimal channels
  parsed (\<open>parseInt(_, 16)\<close> on the fixed colours, all of whose digits are valid),
  each scaled by \<open>1 + percent / 100\<close>, clamped to [0, 255] and rounded.
\<close>

definition hex_digit :: "char \<Rightarrow> nat option" where
  "hex_digit c =
     (let n = of_char c :: nat in
      if 48 \<le> n \<and> n \<le> 57 then Some (n - 48)
      else if 97 \<le> n \<and> n \<le> 102 then Some (n - 87)
      else if 65 \<le> n \<and> n \<le> 70 then Some (n - 55) else None)"

definition hex2 :: "string \<Rightarrow> nat option" where
  "hex2 s = (case map hex_digit s of [Some a, Some b] \<Rightarrow> Some (16 * a + b) | _ \<Rightarrow> None)"

definition remove_first :: "char \<Rightarrow> string \<Rightarrow> string" where
  "remove_first c s = (if c \<in> set s then takeWhile (\<lambda>x. x \<noteq> c) s @ tl (dropWhile (\<lambda>x. x \<noteq> c) s) else s)"

definition channel :: "nat \<Rightarrow> real \<Rightarrow> int" where
  "channel v percent = round (max 0 (min 255 (real v + real v * percent / 100)))"

definition adjustBrightness :: "string \<Rightarrow> real \<Rightarrow> (int \<times> int \<times> int) option" where
  "adjustBrightness color percent =
     (let hex = remove_first CHR ''#'' color in
      case (hex2 (take 2 hex), hex2 (take 2 (drop 2 hex)), hex2 (take 2 (drop 4 hex))) of
        (Some r, Some g, Some b) \<Rightarrow> Some (channel r percent, channel g percent, channel b percent)
      | _ \<Rightarrow> None)"

text \<open>The view's state; the view state keeps only pitch and bearing, the parts the buttons change.\<close>

record s3d_state =
  svenues :: "s3d_venue list"
  sselected :: "s3d_venue option"
  sdrawer :: drawer_gesture
  srouteMode :: bool
  sshowLegend :: bool
  spitch :: int
  sbearing :: int

definition s3d_init :: s3d_state where
  "s3d_init =
     \<lparr>svenues = [], sselected = None, sdrawer = drawer_init ''hidden'' [], srouteMode = False,
      sshowLegend = False, spitch = 65, sbearing = -30\<rparr>"

text \<open>The drawer's \<open>venues\<close> prop for a selection.\<close>

definition drawer_venues :: "s3d_venue option \<Rightarrow> venue list" where
  "drawer_venues sel = (case sel of Some v \<Rightarrow> [venue.truncate v] | None \<Rightarrow> [])"

definition set_selected :: "s3d_venue option \<Rightarrow> s3d_state \<Rightarrow> s3d_state" where
  "set_selected sel s = s\<lparr>sselected := sel, sdrawer := (sdrawer s)\<lparr>dvenues := drawer_venues sel\<rparr>\<rparr>"

definition setDrawerState :: "string \<Rightarrow> s3d_state \<Rightarrow> s3d_state" where
  "setDrawerState st s = s\<lparr>sdrawer := (sdrawer s)\<lparr>dstate := st\<rparr>\<rparr>"

definition s3d_mount :: "s3d_state \<Rightarrow> s3d_state" where
  "s3d_mount s = (case s3d_sorted fixedVenues of Inr vs \<Rightarrow> s\<lparr>svenues := vs\<rparr> | Inl _ \<Rightarrow> s)"

definition handleMarkerClick :: "s3d_venue \<Rightarrow> s3d_state \<Rightarrow> s3d_state" where
  "handleMarkerClick v s = setDrawerState ''peek'' (set_selected (Some v) s)"

definition handleRoutePress :: "s3d_state \<Rightarrow> s3d_state" where
  "handleRoutePress s = s\<lparr>srouteMode := \<not> srouteMode s\<rparr>"

definition pitchUp :: "s3d_state \<Rightarrow> s3d_state" where
  "pitchUp s = s\<lparr>spitch := min (spitch s + 10) 80\<rparr>"

definition pitchDown :: "s3d_state \<Rightarrow> s3d_state" where
  "pitchDown s = s\<lparr>spitch := max (spitch s - 10) 0\<rparr>"

datatype s3d_event =
    S3MarkerClick nat | S3RoutePress | S3LegendToggle | S3PitchUp | S3PitchDown
  | S3RotateLeft | S3RotateRight | S3PopupClose | S3ViewDetails | S3Drawer drawer_event

text \<open>
  The mount effect (dependencies \<open>[]\<close>) runs once, before any user event.
  \<open>S3MarkerClick i\<close> clicks the marker of the \<open>i\<close>-th venue shown; the popup's buttons
  exist only while a venue is selected; the drawer's events go to its step function.
\<close>

fun s3d_step :: "s3d_event \<Rightarrow> s3d_state \<Rightarrow> s3d_state" where
  "s3d_step (S3MarkerClick i) s = (if i < length (svenues s) then handleMarkerClick (svenues s ! i) s else s)"
| "s3d_step S3RoutePress s = handleRoutePress s"
| "s3d_step S3LegendToggle s = s\<lparr>sshowLegend := \<not> sshowLegend s\<rparr>"
| "s3d_step S3PitchUp s = pitchUp s"
| "s3d_step S3PitchDown s = pitchDown s"
| "s3d_step S3RotateLeft s = s\<lparr>sbearing := sbearing s - 15\<rparr>"
| "s3d_step S3RotateRight s = s\<lparr>sbearing := sbearing s + 15\<rparr>"
| "s3d_step S3PopupClose s = (if sselected s = None then s else set_selected None s)"
| "s3d_step S3ViewDetails s = (if sselected s = None then s else setDrawerState ''expanded'' s)"
| "s3d_step (S3Drawer e) s = s\<lparr>sdrawer := drawer_step e (sdrawer s)\<rparr>"

definition s3d_run :: "s3d_event list \<Rightarrow> s3d_state" where
  "s3d_run es = foldl (\<lambda>s e. s3d_step e s) (s3d_mount s3d_init) es"

text \<open>
  What the view keeps consistent: the pitch stays in [0, 80], the drawer's state among
  its three positions, its venue list is the selected venue, the venues are the sorted
  fixed venues, and a selected venue is one of them.
\<close>

definition s3d_inv :: "s3d_state \<Rightarrow> bool" where
  "s3d_inv s \<longleftrightarrow>
     0 \<le> spitch s \<and> spitch s \<le> 80 \<and> drawer_inv (sdrawer s)
     \<and> dvenues (sdrawer s) = drawer_venues (sselected s)
     \<and> s3d_sorted fixedVenues = Inr (svenues s)
     \<and> (\<forall>v. sselected s = Some v \<longrightarrow> v \<in> set (svenues s))"

lemma s3d_sorted_fixed: "s3d_sorted fixedVenues = Inr (sort_key (\<lambda>v. - affinity v) fixedVenues)"
proof -
  have "(\<lambda>a b. Inr (affinity b - affinity a)) = key_cmp (\<lambda>v. - affinity (v :: s3d_venue))"
    by (simp add: key_cmp_def fun_eq_iff)
  then show ?thesis by (simp add: s3d_sorted_def js_sort_key)
qed

lemma s3d_mount_init: "svenues (s3d_mount s3d_init) = sort_key (\<lambda>v. - affinity v) fixedVenues"
  by (simp add: s3d_mount_def s3d_sorted_fixed s3d_init_def)

lemma setDrawerState_inv:
  "s3d_inv s \<Longrightarrow> st \<in> set drawer_positions \<Longrightarrow> s3d_inv (setDrawerState st s)"
  by (simp add: s3d_inv_def setDrawerState_def drawer_inv_def)

lemma set_selected_inv:
  "s3d_inv s \<Longrightarrow> (\<forall>v. sel = Some v \<longrightarrow> v \<in> set (svenues s)) \<Longrightarrow> s3d_inv (set_selected sel s)"
  by (simp add: s3d_inv_def set_selected_def drawer_inv_def)

lemma handleDragEnd_dvenues [simp]: "dvenues (handleDragEnd start offset st s) = dvenues s"
  by (simp add: handleDragEnd_def onStateChange_def Let_def split: option.splits)

lemma handleDragMove_dvenues [simp]: "dvenues (handleDragMove start y s) = dvenues s"
  by (simp add: handleDragMove_def split: option.splits)

lemma drawer_step_dvenues: "dvenues (drawer_step e s) = dvenues s"
proof -
  have m: "dvenues (doc_mousemove y s) = dvenues s" for y
    unfolding doc_mousemove_def
    by (rule foldl_invariant [where P = "\<lambda>t. dvenues t = dvenues s"]) auto
  have u: "dvenues (doc_mouseup s) = dvenues s"
  proof -
    have "dvenues (foldl (\<lambda>s (start, offset, st). handleDragEnd start offset st s) s (ddocListeners s)) = dvenues s"
      by (rule foldl_invariant [where P = "\<lambda>t. dvenues t = dvenues s"]) auto
    then show ?thesis by (simp add: doc_mouseup_def)
  qed
  show ?thesis
    by (cases e) (simp_all add: m u handleMouseDown_def handleDragStart_def handleViewAll_def onStateChange_def)
qed

lemma s3d_step_inv:
  assumes inv: "s3d_inv s"
  shows "s3d_inv (s3d_step e s)"
proof (cases e)
  case (S3MarkerClick i)
  then show ?thesis
    using inv by (auto simp: handleMarkerClick_def intro!: setDrawerState_inv set_selected_inv
                       simp add: drawer_positions_def)
next
  case (S3Drawer d)
  then show ?thesis using inv drawer_step_inv[of "sdrawer s" d]
    by (simp add: s3d_inv_def drawer_step_dvenues)
qed (use inv in \<open>auto simp: s3d_inv_def handleRoutePress_def pitchUp_def pitchDown_def set_selected_def
    setDrawerState_def drawer_inv_def drawer_venues_def drawer_positions_def\<close>)

text \<open>
  C28: In every run of the 3D view the pitch stays in [0, 80], the drawer stays in one of
  its three positions with the selected venue as its only venue, the venues are the
  fixed venues in the engine's descending-affinity order, and a selected venue is one
  of them.
\<close>

theorem s3d_run_inv: "s3d_inv (s3d_run es)"
proof -
  have "s3d_inv (s3d_mount s3d_init)"
    by (simp add: s3d_inv_def s3d_mount_def s3d_sorted_fixed s3d_init_def drawer_init_def
                  drawer_inv_def drawer_positions_def drawer_venues_def)
  then show ?thesis
    unfolding s3d_run_def by (rule foldl_invariant [rotated]) (simp add: s3d_step_inv)
qed

theorem s3d_run_inv_witness: "s3d_inv (s3d_run [S3MarkerClick 0, S3Drawer (DTouchStart 0), S3PitchUp, S3PopupClose])"
  by (rule s3d_run_inv)

lemma length_s3d_venues: "length (svenues (s3d_run [])) = 18"
  by (simp add: s3d_run_def s3d_mount_init fixedVenues_def)



lemma channel_bounds: "0 \<le> channel v p \<and> channel v p \<le> 255"
  by (simp add: channel_def round_def le_floor_iff floor_le_iff)



end
