(* ===== verification/Spec2Isabelle.thy ===== *)
theory Spec2Isabelle
  imports Planner Overlay Page HeatMap Navigation Simple3D
begin

text \<open>
  \<^bold>\<open>Culturis route planning: a verified model.\<close>

  Culturis (\<open>src/culturis-studio/src\<close>) is a React front end: the user picks tastes,
  sees venues on a map, plans a cultural route and refines it by chat. This development
  models the logic of the route planning subsystem and of the components around it that
  compute, as executable HOL definitions, and proves what they do.

  \<^bold>\<open>Theories and what they model.\<close>
  \<^item> \<open>Prelude\<close>: the JavaScript primitives the sources use: \<open>%\<close> (\<open>js_rem\<close>),
    \<open>includes\<close>, \<open>toLowerCase\<close>, \<open>join\<close>, \<open>splice\<close>, \<open>Math.atan2\<close>, number printing,
    \<open>Array.prototype.map\<close> with a throwing callback (\<open>js_map\<close>), the single
    \<open>TypeError\<close> (\<open>js_error\<close>), and \<open>Math.random\<close> as an infinite stream of reals
    threaded through the model (\<open>rng\<close>, \<open>random_draw\<close>).
  \<^item> \<open>JsSort\<close>: \<open>Array.prototype.sort\<close> as V8 runs it on arrays under 64 elements
    (initial run, reversed when strictly descending, then binary insertion). It is
    proved a permutation, total when the comparator does not throw, and equal to the
    stable \<open>sort_key\<close> for a key comparator.
  \<^item> \<open>Venues\<close>: the venue object of \<open>Simple2DMapView.js\<close> and \<open>RoutePlanner.js\<close>
    (record \<open>venue\<close>, optional fields as \<open>option\<close>), the planner preferences, and
    \<open>calculateDistance\<close> of \<open>RoutePlanner.js\<close> (planar, random when coordinates are
    missing).
  \<^item> \<open>Selection\<close>: \<open>prioritizeVenuesByFocus\<close>, \<open>calculateWeightedAffinity\<close>, the
    duration-adjusted count and the sort and slice of \<open>generateRoute\<close>
    (\<open>selectVenues\<close>), with the abstract weight \<open>spec_weight\<close> it refines.
  \<^item> \<open>Optimizer\<close>: \<open>optimizeVenueOrder\<close>, its \<open>while\<close> loop as \<open>nn_loop\<close>
    (terminating by the length of \<open>remaining\<close>) and the inner scan as \<open>nearest_scan\<close>.
  \<^item> \<open>Timing\<close>: \<open>addMinutes\<close> on parsed clocks, \<open>getEstimatedTime\<close>,
    \<open>getEstimatedTravelTime\<close>, the affinity jitter, \<open>generateVenueNotes\<close>, and the
    \<open>map\<close> of \<open>generateRoute\<close> that annotates the stops (\<open>itinerary\<close>).
  \<^item> \<open>Planner\<close>: \<open>generateRoute\<close> composing the three, and the \<open>RoutePlanner\<close>
    component as a state record with one step function over its user events
    (\<open>planner_step\<close>) and reachability as an inductive predicate.
  \<^item> \<open>Overlay\<close>: \<open>RouteOverlay.js\<close>: the overlay's own re-sort
    \<open>calculateOptimalRoute\<close> (through \<open>JsSort\<close>), the Haversine distance, the metrics
    loop, the markers, and the effect that stores them in the component state.
  \<^item> \<open>Chat\<close>: \<open>ChatbotPanel.js\<close>: the route-refinement handlers (replacement,
    details, timing, navigation), the keyword fallback \<open>mockExtractTastes\<close>, and the
    panel's state machine over submits and pending answers (\<open>chat_step\<close>).
  \<^item> \<open>Tastes\<close>: the hooks \<open>useTasteSelection.js\<close> (selection record, add, remove,
    set and the derived getters, \<open>selection_step\<close>) and \<open>useTasteCatalog.js\<close> (the
    catalog, trending with its fallback, local and remote search, \<open>catalog_step\<close>).
  \<^item> \<open>Picker\<close>: \<open>TasteSeedPicker.js\<close>: its state record, the debounced search whose
    answer arrives as a separate event (\<open>handleSearch_resume\<close>), selection, removal,
    the announcement and the call-to-action (\<open>picker_step\<close>).
  \<^item> \<open>Page\<close>: \<open>PaintMyMapPage.js\<close>: the page state, its handlers, and the composed
    application \<open>app_step\<close> that routes picker events, chat outputs, planner routes and
    map venues to the page.
  \<^item> \<open>VenueCache\<close>: \<open>useVenueCache.js\<close>: the cache key (\<open>toFixed(4)\<close>, sorted taste
    ids, filters), the mock generator, \<open>fetchVenues\<close> with abort, and the hook as a
    state machine whose answers arrive as separate events keyed by request number
    (\<open>vcache_step\<close>), with the cache as a \<open>Mapping\<close>.
  \<^item> \<open>HeatMap\<close>: \<open>useMapData.js\<close> (hex grid, insight cache, batched publication) and
    \<open>HexHeatOverlay.js\<close> (hexagon geometry, colour, opacity, the drawing effect).
  \<^item> \<open>MapView\<close>: \<open>Simple2DMapView.js\<close>: the fallback venue generator with its
    random draws, the marker icon, and the venue effect with its \<open>isFetchingRef\<close> guard,
    the drawer and the route-planner callbacks (\<open>mapview_step\<close>).
  \<^item> \<open>Navigation\<close>: \<open>NavigationPanel.js\<close>: the location input and its suggestions,
    the mock geocoder \<open>handleLocationSearch\<close> (an object-literal read, so inherited
    members are modelled), the chips, and the two \<open>setTimeout\<close> callbacks as pending
    timers carrying their captured values (\<open>nav_step\<close>).
  \<^item> \<open>Drawer\<close>: \<open>VenueDrawer.js\<close>: its props as destructured with their defaults
    (and the props \<open>Simple2DMapView\<close> and \<open>Simple3DMapView\<close> pass it), the hidden
    early return, the category icons, the touch and mouse drag gestures with the
    document listeners' captured values, and the footer button (\<open>drawer_step\<close>).
  \<^item> \<open>Simple3D\<close>: \<open>Simple3DMapView.js\<close>: its fixed venues sorted by the engine
    sort, marker colour and size, \<open>adjustBrightness\<close>, and its state hooks with the
    drawer composed in (\<open>s3d_step\<close>), the drawer's state being the view's
    \<open>drawerState\<close>.
  \<^item> \<open>Spec2Isabelle\<close> (this theory): properties across components.

  \<^bold>\<open>State and effects.\<close> React state becomes a record returned updated by a step
  function; callbacks to the parent are an outbox list; a thrown exception is the
  \<open>Inl\<close> value of \<open>js_error + 'a\<close>. Each \<open>getCurrentTime()\<close> read is a separate clock
  input, assumed well formed (\<open>event_ok\<close>). A state array carries an allocation tag so
  that React's \<open>Object.is\<close> comparison is modelled. Numbers are exact reals; minutes are
  integers; \<open>Math.round\<close> is \<open>round\<close>.

  \<^bold>\<open>What is proved.\<close> Selection returns the top venues by weighted affinity in a
  stable order, of the adjusted size, and throws exactly on untyped venues under a
  non-diverse focus. The optimiser returns a permutation in greedy nearest-neighbour
  order. The clock arithmetic is correct modulo a day; dwell and leg times are bounded;
  the itinerary's arrival times are the running sums. The planner's reachable states
  satisfy an invariant on the routes it holds and emits. The overlay's metrics equal
  the sum of Haversine legs, and the Haversine formula gives the exact arc length along a
  meridian. Several theorems record divergences from \<open>spec.md\<close> (listed as findings):
  notes and selection throw on untyped venues, a missing coordinate is replaced by a
  fixed point instead of a random travel time, the jitter moves affinities the wrong way
  outside [70, 95], the three clock reads can disagree, the overlay's comparator is
  inconsistent and truncates seven-stop routes to six, its popups are numbered off by
  one, and its effect never settles.
  Each hook and component with state has an invariant preserved by every event of its
  step function (taste lists without duplicate ids, catalog items of the right types,
  the cache's request bookkeeping, the picker's and panel's flags and suggestion lists,
  the page's composition). Round trips: adding then removing a taste restores the
  selection, and a cached insight is read back unchanged. The cache key is invariant
  under permutations of the tastes. Further findings: stale answers overwrite current
  results in the picker, the venue cache and the map view; the cache stores mock venues
  on failure; hex ids collide from zoom 20; a duplicated chat batch adds a taste twice;
  a picked location suggestion searches the text typed before it, the substring fallback
  sends Atlanta and Philadelphia to Los Angeles, and the input \<open>constructor\<close> reaches an
  inherited member instead of coordinates. The drawer's touch drag implements the
  one-step ladder hidden, peek, expanded; its mouse drag does nothing, and
  \<open>Simple2DMapView\<close> passes it none of the props it reads, so it never renders there.
  The 3D view keeps its pitch in [0, 80] and its drawer consistent with its selection,
  except that closing the popup leaves the drawer open and empty; its colour shading
  stays within [0, 255].
  A generic lemma (\<open>foldl_invariant\<close>) lifts each component's step invariant to its runs.

  \<^bold>\<open>Bounds and fuel.\<close> No fuel is used: every loop of the modelled code is a
  structural recursion or a \<open>function\<close> with a measure (\<open>nn_loop\<close>: length of
  \<open>remaining\<close>; \<open>bsearch\<close>: width of the window; \<open>distance_loop\<close>: stops left). The
  engine sort is modelled for arrays under 64 elements, which covers every array the
  sources sort with a comparator. Random numbers are an arbitrary stream; theorems
  that need them in [0, 1) assume \<open>rng_ok\<close>.

  Asynchronous answers (fetches, timers) are separate events, so every interleaving of
  user events and answers is a sequence of steps; no bound on their number is assumed.

  \<^bold>\<open>Not modelled.\<close> Rendering (JSX markup, CSS, Leaflet, Mapbox GL, Google Maps
  and Three.js calls; \<open>True3DMapView\<close>, \<open>Enhanced3DMapView\<close> and the Google map
  views are SDK rendering only), the network
  itself (a request's answer is an input event), Fuse.js scoring (its result list is an
  input), string formatting of times and durations, the drawer's venue list markup, and the
  pages that only wire components together (\<open>App.js\<close>, \<open>WelcomePage.js\<close>, \<open>AboutPage.js\<close>,
  \<open>ChatbotPage.js\<close>, \<open>DemoGuide.js\<close>).
\<close>

subsection \<open>Scenario inputs\<close>

text \<open>Seven typed, placed venues with affinities 90 down to 30.\<close>

definition seven_pool :: "venue list" where
  "seven_pool = map (\<lambda>k. sample_venue k ''Museum'' (100 - 10 * real k) (real k, 0)) [1..<8]"

subsection \<open>Properties across components\<close>

text \<open>
  The engine sort returns a permutation of its array, whatever the comparator, as
  long as the comparator does not throw on the array's elements.
\<close>

lemma js_sort_total_perm:
  assumes "\<forall>a \<in> set xs. \<forall>b \<in> set xs. \<not> isl (cmp a b)"
  shows "\<exists>ys. js_sort cmp xs = Inr ys \<and> mset ys = mset xs"
proof -
  obtain ys where "js_sort cmp xs = Inr ys"
    using js_sort_total [OF assms] by (metis isl_def sum.exhaust)
  with js_sort_mset show ?thesis by blast
qed

lemma js_sort_total_perm_witness:
  "\<exists>ys. js_sort (overlay_cmp [venue_C, venue_A, venue_B]) [venue_C, venue_A, venue_B] = Inr ys
        \<and> mset ys = mset [venue_C, venue_A, venue_B]"
proof -
  have "\<forall>v \<in> set [venue_C, venue_A, venue_B]. coords v \<noteq> None"
    by (simp add: venue_A_def venue_B_def venue_C_def)
  then have "\<forall>a \<in> set [venue_C, venue_A, venue_B]. \<forall>b \<in> set [venue_C, venue_A, venue_B].
               \<not> isl (overlay_cmp [venue_C, venue_A, venue_B] a b)"
    using overlay_cmp_total by blast
  then show ?thesis by (rule js_sort_total_perm)
qed

text \<open>
  C11: the engine sort with the planner's comparator \<open>b.weightedAffinity -
  a.weightedAffinity\<close> computes exactly the stable descending sort \<open>sortByWeight\<close> of the
  selection model.
\<close>

lemma sortByWeight_engine:
  "js_sort (\<lambda>a b. Inr (snd b - snd a)) xs = Inr (sortByWeight xs)"
proof -
  have e: "(\<lambda>a b. Inr (snd b - snd a)) = key_cmp (\<lambda>p. - snd p)"
    by (simp add: key_cmp_def fun_eq_iff)
  show ?thesis
    unfolding e sortByWeight_def by (rule js_sort_key)
qed

text \<open>
  C30: a planned full-day route of seven stops is drawn by the map overlay with only six
  of them.
\<close>

lemma full_day_overlay_drops:
  assumes "generateRoute vs n prefs now1 now2 now3 rs = Inr (r, rs')" and "length (rvenues r) = 7"
    and "calculateOptimalRoute (map overlay_of_stop (rvenues r)) = Inr ov"
  shows "length ov = 6 \<and> mset ov \<subset># mset (map overlay_of_stop (rvenues r))"
proof -
  have sub: "mset ov \<subseteq># mset (map overlay_of_stop (rvenues r))" and l: "length ov = 6"
    using calculateOptimalRoute_shape [OF assms(3)] assms(2) by simp_all
  moreover have "mset ov \<noteq> mset (map overlay_of_stop (rvenues r))"
    using l assms(2) by (metis length_map n_not_Suc_n numeral_eq_Suc pred_numeral_simps(3) size_mset)
  ultimately show ?thesis by (simp add: subset_mset.less_le)
qed

lemma seven_pool_select:
  "\<exists>sel. selectVenues seven_pool 5 (default_prefs\<lparr>duration := FullDay\<rparr>) = Inr sel \<and> length sel = 7
     \<and> (\<forall>v \<in> set sel. coordinates v \<noteq> None \<and> vtype v \<noteq> None)"
proof -
  have "\<forall>v \<in> set seven_pool. coordinates v \<noteq> None \<and> vtype v \<noteq> None"
    by (auto simp: seven_pool_def sample_venue_def)
  moreover have "length seven_pool = 7" by (simp add: seven_pool_def)
  ultimately show ?thesis
    by (auto simp: selectVenues_spec default_prefs_def adjustedVenueCount_def dest: in_set_takeD)
qed

lemma full_day_overlay_drops_witness:
  "\<exists>r rs' ov. generateRoute seven_pool 5 (default_prefs\<lparr>duration := FullDay\<rparr>) ten_am ten_am ten_am (sconst 0)
               = Inr (r, rs')
     \<and> length (rvenues r) = 7 \<and> calculateOptimalRoute (map overlay_of_stop (rvenues r)) = Inr ov
     \<and> length ov = 6"
proof -
  obtain sel where sel: "selectVenues seven_pool 5 (default_prefs\<lparr>duration := FullDay\<rparr>) = Inr sel"
    and l7: "length sel = 7" and cs: "\<forall>v \<in> set sel. coordinates v \<noteq> None \<and> vtype v \<noteq> None"
    using seven_pool_select by blast
  obtain ord rs1 where o: "optimizeVenueOrder sel (default_prefs\<lparr>duration := FullDay\<rparr>) (sconst 0) = (ord, rs1)"
    by (metis prod.exhaust)
  have so: "set ord = set sel"
    using optimizeVenueOrder_mset [of sel _ "sconst 0"] o by (metis fst_conv mset_eq_setD)
  have "\<not> isl (generateRoute seven_pool 5 (default_prefs\<lparr>duration := FullDay\<rparr>) ten_am ten_am ten_am (sconst 0))"
    using generateRoute_isl sel cs by auto
  then obtain r rs' where g: "generateRoute seven_pool 5 (default_prefs\<lparr>duration := FullDay\<rparr>) ten_am ten_am ten_am (sconst 0) = Inr (r, rs')"
    by (cases "generateRoute seven_pool 5 (default_prefs\<lparr>duration := FullDay\<rparr>) ten_am ten_am ten_am (sconst 0)") auto
  have len: "length (rvenues r) = 7"
    using generateRoute_length [OF g] sel l7 by simp
  obtain sel' ord' rs1' tf where sel': "selectVenues seven_pool 5 (default_prefs\<lparr>duration := FullDay\<rparr>) = Inr sel'"
    and o': "optimizeVenueOrder sel' (default_prefs\<lparr>duration := FullDay\<rparr>) (sconst 0) = (ord', rs1')"
    and it: "itinerary (default_prefs\<lparr>duration := FullDay\<rparr>) None 0 ten_am ord' rs1' = Inr (rvenues r, tf, rs')"
    using g by (rule generateRoute_Inr)
  have "map coordinates (rvenues r) = map coordinates ord'"
    using itinerary_shape [OF it] by simp
  moreover have "set ord' = set sel"
    using sel sel' o' optimizeVenueOrder_mset [of sel' _ "sconst 0"] by (metis Inr_inject fst_conv mset_eq_setD)
  ultimately have "\<forall>v \<in> set (map overlay_of_stop (rvenues r)). coords v \<noteq> None"
    using cs by (auto simp: overlay_of_stop_def) (metis (no_types, lifting) in_set_conv_nth length_map nth_map nth_mem)
  then obtain ov where ov: "calculateOptimalRoute (map overlay_of_stop (rvenues r)) = Inr ov"
    using calculateOptimalRoute_total by (metis isl_def sum.exhaust)
  from full_day_overlay_drops [OF g len ov] g len ov show ?thesis by blast
qed

end
